(* ===== verification/MP_Prelude.thy ===== *)
theory MP_Prelude
  imports Main "HOL-Library.Word" "HOL-Library.List_Lexorder" "HOL-Library.Multiset"
begin

text \<open>
  The vocabulary every component of the mirror-pool model shares.

  \<^item> machine integers: \<open>u8\<close>, \<open>u16\<close>, \<open>u32\<close>, \<open>u64\<close> are words of that width, so
    comparison is unsigned and \<open>+\<close> wraps; Rust's \<open>checked_add\<close>, \<open>checked_sub\<close>,
    \<open>saturating_add\<close> and \<open>div_ceil\<close> are written out on them;
  \<^item> \<open>Result\<close> of the Rust standard library, with \<open>and_then\<close> for the operator \<open>?\<close>
    and \<open>ensure\<close> for an early \<open>return Err(..)\<close>;
  \<^item> fixed-size byte arrays and byte vectors, both as \<open>u8 list\<close>; a byte-string literal
    of the source is \<open>ascii ''..''\<close>;
  \<^item> little-endian encodings (\<open>to_le_bytes\<close>) and UTF-8, both of the standard library;
  \<^item> lemmas on sorted duplicate-free lists, \<open>find\<close>/\<open>filter\<close> and rows of tables.
\<close>

section \<open>Proof collections\<close>

named_theorems result_simps \<open>rewriting of the Result combinators\<close>
named_theorems result_elims \<open>inversion of successful Result computations\<close>

section \<open>Machine integers\<close>

type_synonym u8 = "8 word"
type_synonym u16 = "16 word"
type_synonym u32 = "32 word"
type_synonym u64 = "64 word"
type_synonym bytes = "u8 list"

definition checked_add :: "'a::len word \<Rightarrow> 'a word \<Rightarrow> 'a word option" where
  "checked_add a b = (if unat a + unat b < 2 ^ LENGTH('a) then Some (a + b) else None)"

definition checked_sub :: "'a::len word \<Rightarrow> 'a word \<Rightarrow> 'a word option" where
  "checked_sub a b = (if b \<le> a then Some (a - b) else None)"

definition saturating_add :: "'a::len word \<Rightarrow> 'a word \<Rightarrow> 'a word" where
  "saturating_add a b = (if unat a + unat b < 2 ^ LENGTH('a) then a + b else - 1)"

definition div_ceil :: "'a::len word \<Rightarrow> 'a word \<Rightarrow> 'a word" where
  "div_ceil a b = (let d = a div b; r = a mod b in if r \<noteq> 0 then d + 1 else d)"

lemma checked_add_Some_iff:
  "checked_add a b = Some (c :: 'a::len word)
     \<longleftrightarrow> unat a + unat b < 2 ^ LENGTH('a) \<and> c = a + b"
  by (auto simp: checked_add_def)

lemma checked_add_unat:
  assumes "checked_add a b = Some (c :: 'a::len word)"
  shows "unat c = unat a + unat b"
  using assms by (auto simp: checked_add_Some_iff unat_word_ariths)

lemma checked_add_None_iff:
  "checked_add a b = None \<longleftrightarrow> 2 ^ LENGTH('a) \<le> unat a + unat (b :: 'a::len word)"
  by (auto simp: checked_add_def)

lemma checked_add_ge:
  assumes "checked_add a b = Some (c :: 'a::len word)"
  shows "a \<le> c"
  using checked_add_unat [OF assms] by (simp add: word_le_nat_alt)

lemma checked_add_code [code]:
  "checked_add a b = (if a + b < a then None else Some (a + b))"
proof (cases "unat a + unat b < 2 ^ LENGTH('a)")
  case True
  then have some: "checked_add a b = Some (a + b)" by (simp add: checked_add_def)
  then show ?thesis using checked_add_ge [OF some] by (simp add: not_less)
next
  case False
  have "unat b < 2 ^ LENGTH('a)" by (rule unsigned_less)
  with False have "unat a + unat b - 2 ^ LENGTH('a) < unat a" by linarith
  then have "a + b < a"
    using False by (simp add: word_less_nat_alt unat_plus_if_size word_size)
  then show ?thesis using False by (simp add: checked_add_def)
qed

lemma checked_add_one_below:
  assumes "a < (b :: 'a::len word)"
  shows "checked_add a 1 = Some (a + 1)" "a + 1 \<le> b"
proof -
  have "unat a < unat b" using assms by (simp add: word_less_nat_alt)
  moreover have "unat b < 2 ^ LENGTH('a)" by (rule unsigned_less)
  moreover have "unat (1 :: 'a word) = 1" by simp
  ultimately have bound: "unat a + unat (1 :: 'a word) < 2 ^ LENGTH('a)" by linarith
  then show "checked_add a 1 = Some (a + 1)" by (simp add: checked_add_def)
  have "unat (a + 1) = unat a + 1"
    using checked_add_unat [of a 1 "a + 1"] bound by (simp add: checked_add_def)
  then show "a + 1 \<le> b" using \<open>unat a < unat b\<close> by (simp add: word_le_nat_alt)
qed

lemma saturating_add_one_below:
  assumes "a < (b :: 'a::len word)"
  shows "saturating_add a 1 = a + 1"
  using checked_add_one_below(1) [OF assms]
  by (auto simp: checked_add_def saturating_add_def split: if_splits)

lemma checked_sub_Some_iff:
  "checked_sub a b = Some c \<longleftrightarrow> b \<le> a \<and> c = a - b"
  by (auto simp: checked_sub_def)

lemma checked_sub_unat:
  assumes "checked_sub a b = Some (c :: 'a::len word)"
  shows "unat a = unat b + unat c"
proof -
  from assms have "b \<le> a" "c = a - b" by (auto simp: checked_sub_Some_iff)
  then show ?thesis by (simp add: unat_sub_if' word_le_nat_alt)
qed

lemma double_add_inj:
  "2 * a + b = 2 * c + d \<Longrightarrow> b < 2 \<Longrightarrow> d < 2 \<Longrightarrow> a = c \<and> b = (d :: nat)"
  by arith

section \<open>Results\<close>

text \<open>
  \<open>Panic\<close> is the third way a Rust call can end: a panic (an index out of bounds, say).
  No caller in this program catches it. Whether the values in scope are dropped on the way out
  depends on the build: the development profile unwinds, the release profile aborts.
\<close>

datatype ('a, 'e) result = Ok 'a | Err 'e | Panic

text \<open>\<open>m?\<close> followed by the rest \<open>f\<close> of the function body.\<close>

fun and_then :: "('a, 'e) result \<Rightarrow> ('a \<Rightarrow> ('b, 'e) result) \<Rightarrow> ('b, 'e) result" where
  "and_then (Ok a) f = f a"
| "and_then (Err e) f = Err e"
| "and_then Panic f = Panic"

text \<open>\<open>if !c { return Err(e); }\<close> followed by the rest of the body.\<close>

definition ensure :: "bool \<Rightarrow> 'e \<Rightarrow> (unit, 'e) result" where
  "ensure c e = (if c then Ok () else Err e)"

fun map_err :: "('e \<Rightarrow> 'd) \<Rightarrow> ('a, 'e) result \<Rightarrow> ('a, 'd) result" where
  "map_err g (Ok a) = Ok a"
| "map_err g (Err e) = Err (g e)"
| "map_err g Panic = Panic"

fun ok_or :: "'a option \<Rightarrow> 'e \<Rightarrow> ('a, 'e) result" where
  "ok_or (Some a) e = Ok a"
| "ok_or None e = Err e"

fun is_ok :: "('a, 'e) result \<Rightarrow> bool" where
  "is_ok (Ok _) = True"
| "is_ok (Err _) = False"
| "is_ok Panic = False"

lemma and_then_Ok_iff [result_simps]:
  "and_then m f = Ok b \<longleftrightarrow> (\<exists>a. m = Ok a \<and> f a = Ok b)"
  by (cases m) auto

lemma and_then_Err_iff:
  "and_then m f = Err e \<longleftrightarrow> m = Err e \<or> (\<exists>a. m = Ok a \<and> f a = Err e)"
  by (cases m) auto

lemma and_then_Panic_iff:
  "and_then m f = Panic \<longleftrightarrow> m = Panic \<or> (\<exists>a. m = Ok a \<and> f a = Panic)"
  by (cases m) auto

lemma and_then_OkE [result_elims]:
  assumes "and_then m f = Ok b"
  obtains a where "m = Ok a" "f a = Ok b"
  using assms by (auto simp: and_then_Ok_iff)

lemma ensure_Ok_iff [result_simps]: "ensure c e = Ok u \<longleftrightarrow> c"
  by (simp add: ensure_def)

lemma ensure_Err_iff: "ensure c e = Err e' \<longleftrightarrow> \<not> c \<and> e = e'"
  by (simp add: ensure_def)

lemma ensure_True [simp]: "ensure True e = Ok ()"
  by (simp add: ensure_def)

lemma ensure_False [simp]: "ensure False e = Err e"
  by (simp add: ensure_def)

lemma map_err_Ok_iff [result_simps]: "map_err g m = Ok a \<longleftrightarrow> m = Ok a"
  by (cases m) auto

lemma map_err_Panic_iff [simp]: "map_err g m = Panic \<longleftrightarrow> m = Panic"
  by (cases m) auto

lemma ensure_no_Panic [simp]: "ensure c e \<noteq> Panic"
  by (simp add: ensure_def)

lemma ok_or_no_Panic [simp]: "ok_or x e \<noteq> Panic"
  by (cases x) auto

lemma map_err_Err_iff: "map_err g m = Err d \<longleftrightarrow> (\<exists>e. m = Err e \<and> d = g e)"
  by (cases m) auto

lemma ok_or_Ok_iff [result_simps]: "ok_or x e = Ok a \<longleftrightarrow> x = Some a"
  by (cases x) auto

lemma ok_or_Err_iff: "ok_or x e = Err e' \<longleftrightarrow> x = None \<and> e = e'"
  by (cases x) auto

lemma if_Err_Ok_iff [result_simps]:
  "(if c then Err e else m) = Ok a \<longleftrightarrow> \<not> c \<and> m = Ok a"
  by simp

lemma is_ok_iff: "is_ok m \<longleftrightarrow> (\<exists>a. m = Ok a)"
  by (cases m) auto

text \<open>A \<open>for\<close> loop that collects results and stops at the first error.\<close>

fun traverse :: "('a \<Rightarrow> ('b, 'e) result) \<Rightarrow> 'a list \<Rightarrow> ('b list, 'e) result" where
  "traverse f [] = Ok []"
| "traverse f (x # xs) =
     and_then (f x) (\<lambda>y. and_then (traverse f xs) (\<lambda>ys. Ok (y # ys)))"

lemma traverse_Ok_iff:
  "traverse f xs = Ok ys \<longleftrightarrow> map f xs = map Ok ys"
  by (induction xs arbitrary: ys) (auto simp: and_then_Ok_iff Cons_eq_map_conv)

lemma list_all2_right:
  assumes "list_all2 P xs ys" "y \<in> set ys"
  shows "\<exists>x \<in> set xs. P x y"
  using assms by (induction rule: list_all2_induct) auto

lemma list_all2_left:
  assumes "list_all2 P xs ys" "x \<in> set xs"
  shows "\<exists>y \<in> set ys. P x y"
  using assms by (induction rule: list_all2_induct) auto

section \<open>Results of calls that change a state\<close>

text \<open>
  A call that may fail after it has changed a state returns its result with the state it leaves
  behind, whatever the result is: \<open>lift\<close> computes without a state, \<open>bind_cmd\<close> is the operator
  \<open>?\<close> followed by the rest of the body, and an error keeps the changes made before it.
\<close>

definition lift :: "('a, 'e) result \<Rightarrow> 's \<Rightarrow> ('a, 'e) result \<times> 's" where
  "lift m s = (m, s)"

definition bind_cmd ::
  "('s \<Rightarrow> ('a, 'e) result \<times> 's) \<Rightarrow> ('a \<Rightarrow> 's \<Rightarrow> ('b, 'e) result \<times> 's) \<Rightarrow> 's
     \<Rightarrow> ('b, 'e) result \<times> 's" where
  "bind_cmd m k s =
    (case m s of
       (Ok a, s) \<Rightarrow> k a s | (Err e, s) \<Rightarrow> (Err e, s) | (Panic, s) \<Rightarrow> (Panic, s))"

lemma bind_cmd_Ok_iff [result_simps]:
  "bind_cmd m k s = (Ok b, s') \<longleftrightarrow> (\<exists>a s1. m s = (Ok a, s1) \<and> k a s1 = (Ok b, s'))"
  by (auto simp: bind_cmd_def split: prod.splits result.splits)

lemma bind_cmd_Ok: "m s = (Ok a, s') \<Longrightarrow> bind_cmd m k s = k a s'"
  by (simp add: bind_cmd_def)

lemma bind_cmd_alt:
  "bind_cmd m k s = (case fst (m s) of
     Ok a \<Rightarrow> k a (snd (m s)) | Err e \<Rightarrow> (Err e, snd (m s)) | Panic \<Rightarrow> (Panic, snd (m s)))"
  by (simp add: bind_cmd_def split: prod.splits result.splits)

lemma lift_Ok_iff [result_simps]: "lift m s = (Ok a, s') \<longleftrightarrow> m = Ok a \<and> s' = s"
  by (auto simp: lift_def)

section \<open>Byte strings\<close>

definition ascii :: "string \<Rightarrow> bytes" where
  "ascii s = map of_char s"

fun le_bytes :: "nat \<Rightarrow> nat \<Rightarrow> bytes" where
  "le_bytes 0 n = []"
| "le_bytes (Suc k) n = of_nat (n mod 256) # le_bytes k (n div 256)"

fun le_value :: "bytes \<Rightarrow> nat" where
  "le_value [] = 0"
| "le_value (b # bs) = unat b + 256 * le_value bs"

lemma length_le_bytes [simp]: "length (le_bytes k n) = k"
  by (induction k arbitrary: n) auto

lemma unat_byte_of_nat: "unat (of_nat (n mod 256) :: u8) = n mod 256"
  by (simp add: unat_of_nat)

lemma le_value_le_bytes: "le_value (le_bytes k n) = n mod 256 ^ k"
proof (induction k arbitrary: n)
  case 0
  then show ?case by simp
next
  case (Suc k)
  have "le_value (le_bytes (Suc k) n) = n mod 256 + 256 * (n div 256 mod 256 ^ k)"
    by (simp add: Suc.IH unat_byte_of_nat)
  also have "\<dots> = n mod (256 * 256 ^ k)"
    by (simp add: mod_mult2_eq)
  finally show ?case by simp
qed

lemma le_bytes_inj:
  assumes "le_bytes k m = le_bytes k n" "m < 256 ^ k" "n < 256 ^ k"
  shows "m = n"
proof -
  have "m mod 256 ^ k = n mod 256 ^ k"
    using arg_cong [OF assms(1), of le_value] by (simp only: le_value_le_bytes)
  then show ?thesis using assms(2,3) by simp
qed

section \<open>Sorted lists without duplicates\<close>

lemma sorted_adjacent_distinct:
  assumes "sorted (xs :: 'a::linorder list)"
  shows "(\<exists>i. Suc i < length xs \<and> xs ! i = xs ! Suc i) \<longleftrightarrow> \<not> distinct xs"
proof
  assume "\<exists>i. Suc i < length xs \<and> xs ! i = xs ! Suc i"
  then show "\<not> distinct xs"
    by (metis Suc_lessD distinct_conv_nth n_not_Suc_n)
next
  assume "\<not> distinct xs"
  then obtain i j where ij: "i < j" "j < length xs" "xs ! i = xs ! j"
    by (metis distinct_conv_nth linorder_neqE_nat)
  have "xs ! i \<le> xs ! Suc i" "xs ! Suc i \<le> xs ! j"
    using ij(1,2) by (auto intro!: sorted_nth_mono [OF assms])
  with ij have "Suc i < length xs \<and> xs ! i = xs ! Suc i" by auto
  then show "\<exists>i. Suc i < length xs \<and> xs ! i = xs ! Suc i" by blast
qed

lemma sort_eq_Nil [simp]: "sort xs = [] \<longleftrightarrow> xs = []"
  by (metis length_0_conv length_sort)

lemma sort_perm_eq: "mset xs = mset ys \<Longrightarrow> sort xs = sort (ys :: 'a::linorder list)"
  by (metis mset_sort properties_for_sort sorted_sort)

section \<open>Slices of the standard library\<close>

text \<open>\<open>slice[i]\<close>: a panic out of bounds.\<close>

definition index_slice :: "'a list \<Rightarrow> nat \<Rightarrow> ('a, 'e) result" where
  "index_slice xs i = (if i < length xs then Ok (xs ! i) else Panic)"

text \<open>\<open>slice.get(i)\<close>.\<close>

definition get_slice :: "'a list \<Rightarrow> nat \<Rightarrow> 'a option" where
  "get_slice xs i = (if i < length xs then Some (xs ! i) else None)"

text \<open>
  \<open>slice.binary_search(&x)\<close>: the library halves the remaining size until one candidate
  is left, then compares it. \<open>None\<close> stands for \<open>Err(_)\<close>, whose position no caller uses.
\<close>

function bsearch_loop :: "'a::linorder list \<Rightarrow> 'a \<Rightarrow> nat \<Rightarrow> nat \<Rightarrow> nat" where
  "bsearch_loop xs x base n =
     (if n > 1 then
        let half = n div 2; mid = base + half
        in bsearch_loop xs x (if xs ! mid > x then base else mid) (n - half)
      else base)"
  by pat_completeness auto
termination
  by (relation "measure (\<lambda>(xs, x, base, n). n)") auto

declare bsearch_loop.simps [simp del]

definition binary_search :: "'a::linorder list \<Rightarrow> 'a \<Rightarrow> nat option" where
  "binary_search xs x =
     (if xs = [] then None
      else let base = bsearch_loop xs x 0 (length xs)
           in if xs ! base = x then Some base else None)"

lemma bsearch_loop_invariant:
  assumes "sorted xs" "0 < n" "base + n \<le> length xs"
    and "k < length xs" "xs ! k = x" "distinct xs" "base \<le> k" "k < base + n"
  shows "bsearch_loop xs x base n = k"
  using assms
proof (induction xs x base n rule: bsearch_loop.induct)
  case (1 xs x base n)
  define half where "half = n div 2"
  show ?case
  proof (cases "n > 1")
    case True
    then have half: "0 < half" "half < n" by (auto simp: half_def)
    show ?thesis
    proof (cases "xs ! (base + half) > x")
      case gt: True
      have "k < base + half"
      proof (rule ccontr)
        assume "\<not> k < base + half"
        then have "xs ! (base + half) \<le> xs ! k"
          using "1.prems" by (intro sorted_nth_mono) auto
        then show False using gt "1.prems"(5) by simp
      qed
      moreover have "half \<le> n - half" by (simp add: half_def)
      ultimately have "bsearch_loop xs x base (n - half) = k"
        using "1.IH" [OF True half_def refl] "1.prems" half gt by simp
      then show ?thesis
        using True gt by (simp add: bsearch_loop.simps [of xs x base n] half_def Let_def)
    next
      case le: False
      have "base + half \<le> k"
      proof (rule ccontr)
        assume "\<not> base + half \<le> k"
        then have "k < base + half" "base + half < length xs"
          using "1.prems" half by auto
        then have "xs ! k \<le> xs ! (base + half)" "xs ! k \<noteq> xs ! (base + half)"
          using "1.prems" by (auto intro: sorted_nth_mono simp: nth_eq_iff_index_eq)
        then show False using le "1.prems"(5) by simp
      qed
      then have "bsearch_loop xs x (base + half) (n - half) = k"
        using "1.IH" [OF True half_def refl] "1.prems" half le by simp
      then show ?thesis
        using True le by (simp add: bsearch_loop.simps [of xs x base n] half_def Let_def)
    qed
  next
    case False
    then show ?thesis
      using "1.prems" by (simp add: bsearch_loop.simps [of xs x base n])
  qed
qed

lemma bsearch_loop_bound:
  assumes "0 < n"
  shows "base \<le> bsearch_loop xs x base n \<and> bsearch_loop xs x base n < base + n"
  using assms
proof (induction xs x base n rule: bsearch_loop.induct)
  case (1 xs x base n)
  show ?case
  proof (cases "n > 1")
    case True
    let ?b = "if xs ! (base + n div 2) > x then base else base + n div 2"
    have "?b \<le> bsearch_loop xs x ?b (n - n div 2)
        \<and> bsearch_loop xs x ?b (n - n div 2) < ?b + (n - n div 2)"
      using "1.IH" [OF True refl refl] True by simp
    moreover have "base \<le> ?b" "?b + (n - n div 2) \<le> base + n" by auto
    ultimately show ?thesis
      using True by (simp only: bsearch_loop.simps [of xs x base n] Let_def if_True) linarith
  next
    case False
    then show ?thesis using "1.prems" by (simp add: bsearch_loop.simps [of xs x base n])
  qed
qed

text \<open>On a sorted slice without duplicates the search is exact.\<close>

lemma binary_search_iff:
  assumes "sorted xs" "distinct xs"
  shows "binary_search xs x = Some i \<longleftrightarrow> i < length xs \<and> xs ! i = x"
proof (cases "xs = []")
  case True
  then show ?thesis by (simp add: binary_search_def)
next
  case False
  have "bsearch_loop xs x 0 (length xs) < length xs"
    using bsearch_loop_bound [of "length xs" 0 xs x] False by simp
  moreover have "bsearch_loop xs x 0 (length xs) = i" if "i < length xs" "xs ! i = x"
    using bsearch_loop_invariant [of xs "length xs" 0 i x] assms that False by simp
  ultimately show ?thesis using False by (auto simp: binary_search_def Let_def)
qed

lemma binary_search_None_iff:
  assumes "sorted xs" "distinct xs"
  shows "binary_search xs x = None \<longleftrightarrow> x \<notin> set xs"
  using binary_search_iff [OF assms, of x] by (auto simp: in_set_conv_nth not_Some_eq [symmetric])

end
