(* ===== verification/MP_Lifecycle.thy ===== *)
theory MP_Lifecycle
  imports MP_Prelude
begin

text \<open>
  The contract of a one-way lifecycle graph. Two parts of the program have such a graph:
  the protocol crate's \<open>RoundState\<close> (with \<open>can_transition_to\<close>) and the on-chain
  program's \<open>State\<close> tag (moved by the instruction handlers). Each interprets the locale
  below on its own edge relation; the consequences (no cycles, bounded runs, absorbing
  terminal states) are proved once, here.
\<close>

locale lifecycle =
  fixes edge :: "'s \<Rightarrow> 's \<Rightarrow> bool"
    and terminal :: "'s \<Rightarrow> bool"
    and rank :: "'s \<Rightarrow> nat"
    and top :: nat
  assumes edge_rank: "edge s t \<Longrightarrow> rank s < rank t"
    and rank_top: "rank s \<le> top"
    and terminal_stuck: "terminal s \<longleftrightarrow> (\<forall>t. \<not> edge s t)"
begin

lemma rtrancl_rank: "edge\<^sup>*\<^sup>* s t \<Longrightarrow> rank s \<le> rank t"
  by (induction rule: rtranclp_induct) (auto dest: edge_rank)

lemma tranclp_rank: "edge\<^sup>+\<^sup>+ s t \<Longrightarrow> rank s < rank t"
  by (induction rule: tranclp_induct) (auto dest: edge_rank)

lemma no_cycle: "\<not> edge\<^sup>+\<^sup>+ s s"
  using tranclp_rank by blast

lemma terminal_absorbing:
  assumes "edge\<^sup>*\<^sup>* s t" "terminal s"
  shows "t = s"
  using assms by (induction rule: rtranclp_induct) (auto simp: terminal_stuck)

lemma run_rank:
  "successively edge (s # ss) \<Longrightarrow> rank s + length ss \<le> rank (last (s # ss))"
proof (induction ss arbitrary: s)
  case Nil
  then show ?case by simp
next
  case (Cons t ss)
  then have "rank t + length ss \<le> rank (last (t # ss))" by simp
  moreover have "rank s < rank t" using Cons.prems by (simp add: edge_rank)
  ultimately show ?case by simp
qed

lemma run_length: "successively edge ss \<Longrightarrow> length ss \<le> Suc top"
proof (cases ss)
  case Nil
  then show ?thesis by simp
next
  case (Cons s ts)
  moreover assume "successively edge ss"
  ultimately have "rank s + length ts \<le> rank (last (s # ts))" using run_rank by blast
  then show ?thesis using Cons rank_top [of "last (s # ts)"] by simp
qed

end

end
