(* ===== verification/MP_Core.thy ===== *)
theory MP_Core
  imports MP_Lifecycle
begin

text \<open>
  The protocol crate (\<open>src/crates/mirror-pool-core/src/lib.rs\<close>): digests with
  domain-separated hashing, the validated pool configuration, the round lifecycle and the
  operations of \<open>Round\<close>.

  A Rust method on \<open>&mut self\<close> that returns a \<open>Result\<close> is a function returning the
  result together with the final value of \<open>self\<close>: the caller keeps \<open>self\<close> after an
  error, so a write before a failing call would be visible. BLAKE3, \<open>serde_json\<close> and
  \<open>hex\<close> are other packages, so they are arguments: \<open>blake3\<close> maps the bytes fed to the
  hasher to its 32-byte output, \<open>to_vec\<close> is the JSON serialiser (\<open>None\<close> for an error).
  Record fields carry a prefix per struct (\<open>pc_\<close>, \<open>rd_\<close>, \<dots>) since several structs of
  the source use the same field names.
\<close>

section \<open>Digests\<close>

definition SCHEMA_VERSION :: u16 where
  "SCHEMA_VERSION = 1"

datatype Digest32 = Digest32 (digest_bytes: bytes)

instantiation Digest32 :: linorder
begin

definition less_eq_Digest32 :: "Digest32 \<Rightarrow> Digest32 \<Rightarrow> bool" where
  "less_eq_Digest32 a b \<longleftrightarrow> digest_bytes a \<le> digest_bytes b"

definition less_Digest32 :: "Digest32 \<Rightarrow> Digest32 \<Rightarrow> bool" where
  "less_Digest32 a b \<longleftrightarrow> digest_bytes a < digest_bytes b"

instance
  by intro_classes
    (auto simp: less_eq_Digest32_def less_Digest32_def Digest32.expand)

end

definition Digest32_default :: Digest32 where
  "Digest32_default = Digest32 (replicate 32 0)"

text \<open>What the four \<open>update\<close> calls feed to the hasher, in order.\<close>

definition hash_input :: "bytes \<Rightarrow> bytes \<Rightarrow> bytes" where
  "hash_input domain bs = ascii ''mirror-pool/v1/'' @ domain @ [0] @ bs"

definition Digest32_hash :: "(bytes \<Rightarrow> bytes) \<Rightarrow> bytes \<Rightarrow> bytes \<Rightarrow> Digest32" where
  "Digest32_hash blake3 domain bs = Digest32 (blake3 (hash_input domain bs))"

definition to_hex :: "(bytes \<Rightarrow> string) \<Rightarrow> Digest32 \<Rightarrow> string" where
  "to_hex hex_encode d = hex_encode (digest_bytes d)"

section \<open>Pool configuration\<close>

datatype PrivacyBackend = TransparentRegistry | MerkleCohort

datatype GovernancePolicy = SingleAuthority bytes

datatype CompletionPolicy = Disabled | RedactedReceipt | PublicObservationOnly

datatype Cluster = Localnet | Devnet | Testnet | MainnetBeta

record PoolConfig =
  pc_pool_id :: Digest32
  pc_version :: u16
  pc_governance :: GovernancePolicy
  pc_action_template_hash :: Digest32
  pc_min_participants :: u32
  pc_max_participants :: u32
  pc_registration_duration_slots :: u64
  pc_min_release_delay_slots :: u64
  pc_max_release_delay_slots :: u64
  pc_execution_window_slots :: u64
  pc_max_timing_dispersion_slots :: u64
  pc_privacy_backend :: PrivacyBackend
  pc_allowed_clusters :: "Cluster set"
  pc_allowed_program_ids :: "bytes set"
  pc_completion_policy :: CompletionPolicy
  pc_created_at_unix :: "64 word"
  pc_configuration_hash :: Digest32

datatype RoundState =
    Draft | Registration | ThresholdReached | Sealed | ReleaseScheduled
  | ExecutionWindow | Finalizing | Completed | Cancelled | Expired

datatype ProtocolError =
    UnsupportedVersion u16
  | InvalidParticipantBounds
  | InvalidTimingBounds
  | EmptyAllowlist
  | ConfigurationHashMismatch
  | Serialization
  | InvalidTransition RoundState RoundState
  | RegistrationClosed
  | CohortFull
  | ArithmeticOverflow
  | PrematureSeal
  | RootImmutable
  | ReleaseImmutable
  | InvalidReleaseDelay

definition PoolConfig_compute_hash ::
  "(bytes \<Rightarrow> bytes) \<Rightarrow> (PoolConfig \<Rightarrow> bytes option) \<Rightarrow> PoolConfig
    \<Rightarrow> (Digest32, ProtocolError) result" where
  "PoolConfig_compute_hash blake3 to_vec self =
     (let canonical = self\<lparr>pc_configuration_hash := Digest32_default\<rparr> in
      and_then (ok_or (to_vec canonical) ProtocolError.Serialization) (\<lambda>bs.
      Ok (Digest32_hash blake3 (ascii ''pool-config'') bs)))"

definition PoolConfig_validate ::
  "(bytes \<Rightarrow> bytes) \<Rightarrow> (PoolConfig \<Rightarrow> bytes option) \<Rightarrow> PoolConfig
    \<Rightarrow> (unit, ProtocolError) result" where
  "PoolConfig_validate blake3 to_vec self =
    (if pc_version self \<noteq> SCHEMA_VERSION
     then Err (ProtocolError.UnsupportedVersion (pc_version self))
     else if pc_min_participants self < 2
          \<or> pc_min_participants self > pc_max_participants self
     then Err InvalidParticipantBounds
     else if pc_max_participants self > 100000
     then Err InvalidParticipantBounds
     else if pc_registration_duration_slots self = 0
          \<or> pc_execution_window_slots self = 0
          \<or> pc_min_release_delay_slots self > pc_max_release_delay_slots self
          \<or> pc_max_timing_dispersion_slots self > pc_execution_window_slots self
     then Err InvalidTimingBounds
     else if pc_allowed_clusters self = {} \<or> pc_allowed_program_ids self = {}
     then Err EmptyAllowlist
     else and_then (PoolConfig_compute_hash blake3 to_vec self) (\<lambda>h.
       if h \<noteq> pc_configuration_hash self then Err ConfigurationHashMismatch
       else Ok ()))"

section \<open>Round lifecycle\<close>

definition can_transition_to :: "RoundState \<Rightarrow> RoundState \<Rightarrow> bool" where
  "can_transition_to self next \<longleftrightarrow> (self, next) \<in> {
     (Draft, Registration),
     (Draft, Cancelled),
     (Registration, ThresholdReached),
     (Registration, Cancelled),
     (Registration, Expired),
     (ThresholdReached, Sealed),
     (ThresholdReached, Cancelled),
     (ThresholdReached, Expired),
     (Sealed, ReleaseScheduled),
     (Sealed, Cancelled),
     (ReleaseScheduled, ExecutionWindow),
     (ReleaseScheduled, Cancelled),
     (ReleaseScheduled, Expired),
     (ExecutionWindow, Finalizing),
     (ExecutionWindow, Cancelled),
     (Finalizing, Completed),
     (Finalizing, Cancelled)}"

record Round =
  rd_pool_id :: Digest32
  rd_round_id :: u64
  rd_state :: RoundState
  rd_registration_start_slot :: u64
  rd_registration_deadline_slot :: u64
  rd_release_slot :: "u64 option"
  rd_execution_window_start :: "u64 option"
  rd_execution_window_end :: "u64 option"
  rd_expected_cohort_size :: u32
  rd_accepted_cohort_size :: u32
  rd_cohort_merkle_root :: "Digest32 option"
  rd_action_template_hash :: Digest32
  rd_privacy_backend :: PrivacyBackend
  rd_cancellation_reason :: "string option"
  rd_final_metrics_hash :: "Digest32 option"

type_synonym 'a round_op = "Round \<Rightarrow> ('a, ProtocolError) result \<times> Round"

definition Round_transition :: "RoundState \<Rightarrow> unit round_op" where
  "Round_transition next self =
    (if \<not> can_transition_to (rd_state self) next
     then (Err (ProtocolError.InvalidTransition (rd_state self) next), self)
     else (Ok (), self\<lparr>rd_state := next\<rparr>))"

definition Round_register :: "u64 \<Rightarrow> u32 \<Rightarrow> unit round_op" where
  "Round_register current_slot maximum self =
    (if \<not> (rd_state self = Registration \<or> rd_state self = ThresholdReached)
     then (Err RegistrationClosed, self)
     else if current_slot \<ge> rd_registration_deadline_slot self
     then (Err RegistrationClosed, self)
     else if rd_accepted_cohort_size self \<ge> maximum
     then (Err ProtocolError.CohortFull, self)
     else case checked_add (rd_accepted_cohort_size self) 1 of
            None \<Rightarrow> (Err ArithmeticOverflow, self)
          | Some n \<Rightarrow> (Ok (), self\<lparr>rd_accepted_cohort_size := n\<rparr>))"

definition Round_seal :: "Digest32 \<Rightarrow> u32 \<Rightarrow> unit round_op" where
  "Round_seal root minimum self =
    (if rd_state self \<noteq> ThresholdReached \<or> rd_accepted_cohort_size self < minimum
     then (Err PrematureSeal, self)
     else if rd_cohort_merkle_root self \<noteq> None
     then (Err RootImmutable, self)
     else let self1 = self\<lparr>rd_cohort_merkle_root := Some root\<rparr>
          in Round_transition Sealed self1)"

definition Round_schedule_release :: "u64 \<Rightarrow> u64 \<Rightarrow> PoolConfig \<Rightarrow> unit round_op" where
  "Round_schedule_release current_slot release_slot config self =
    (if rd_state self \<noteq> Sealed \<or> rd_release_slot self \<noteq> None
     then (Err ReleaseImmutable, self)
     else case checked_sub release_slot current_slot of
       None \<Rightarrow> (Err InvalidReleaseDelay, self)
     | Some delay \<Rightarrow>
        (if delay < pc_min_release_delay_slots config
            \<or> delay > pc_max_release_delay_slots config
         then (Err InvalidReleaseDelay, self)
         else case checked_add release_slot (pc_execution_window_slots config) of
           None \<Rightarrow> (Err ArithmeticOverflow, self)
         | Some end_slot \<Rightarrow>
            (let self1 = self\<lparr>rd_release_slot := Some release_slot\<rparr>;
                 self2 = self1\<lparr>rd_execution_window_start := Some release_slot\<rparr>;
                 self3 = self2\<lparr>rd_execution_window_end := Some end_slot\<rparr>
             in Round_transition ReleaseScheduled self3)))"

section \<open>Action templates and receipts\<close>

datatype SafetyClassification = LocalOnly | LowRisk | Prohibited

record ActionTemplate =
  at_template_id :: Digest32
  at_version :: u16
  at_action_category :: string
  at_required_program_ids :: "bytes list"
  at_instruction_count :: u8
  at_value_bucket :: "(u64 \<times> u64) option"
  at_compute_unit_bucket :: "(u32 \<times> u32) option"
  at_maximum_transaction_size :: u16
  at_maximum_priority_fee :: u64
  at_safety_classification :: SafetyClassification
  at_redacted_features :: "string list"

datatype ReceiptStatus = Unverified | Observed | Rejected

record ExecutionReceipt =
  er_round_id :: u64
  er_transaction_signature :: string
  er_observed_slot :: u64
  er_action_template_id :: Digest32
  er_execution_classification :: string
  er_redacted_feature_fingerprint :: Digest32
  er_verification_status :: ReceiptStatus

section \<open>Domain separation of the hash\<close>

lemma append_sep_eq:
  assumes "x \<notin> set as" "x \<notin> set bs" "as @ x # cs = bs @ x # ds"
  shows "as = bs \<and> cs = ds"
proof -
  have tw: "takeWhile (\<lambda>y. y \<noteq> x) (us @ x # vs) = us" if "x \<notin> set us" for us vs
    using that by (induction us) auto
  have "as = bs" using tw [OF assms(1), of cs] tw [OF assms(2), of ds] assms(3) by simp
  then show ?thesis using assms(3) by simp
qed

lemma hash_input_inj:
  assumes "0 \<notin> set d" "0 \<notin> set d'" "hash_input d b = hash_input d' b'"
  shows "d = d' \<and> b = b'"
  using append_sep_eq [OF assms(1,2), of b b'] assms(3) by (simp add: hash_input_def)

text \<open>
  Hashes of different purposes do not collide by construction: for domain labels
  without a NUL byte (all labels of the program are ASCII), equal digests of two different
  (domain, payload) pairs exhibit two different inputs on which BLAKE3 itself collides.
\<close>

theorem hash_domain_separation:
  assumes "0 \<notin> set d" "0 \<notin> set d'" "(d, b) \<noteq> (d', b')"
    and "Digest32_hash blake3 d b = Digest32_hash blake3 d' b'"
  shows "hash_input d b \<noteq> hash_input d' b'
       \<and> blake3 (hash_input d b) = blake3 (hash_input d' b')"
  using assms hash_input_inj [of d d' b b'] by (auto simp: Digest32_hash_def)

theorem hash_domain_separation_witness:
  "hash_input (ascii ''merkle-node'') [1] \<noteq> hash_input (ascii ''join-ticket'') [1]"
  using hash_domain_separation
    [of "ascii ''merkle-node''" "ascii ''join-ticket''" "[1]" "[1]" "\<lambda>_. replicate 32 0"]
  by (simp add: ascii_def Digest32_hash_def)

section \<open>Configuration\<close>

lemma compute_hash_ignores_hash [simp]:
  "PoolConfig_compute_hash blake3 to_vec (c\<lparr>pc_configuration_hash := h\<rparr>)
     = PoolConfig_compute_hash blake3 to_vec c"
  by (simp add: PoolConfig_compute_hash_def)

text \<open>The bounds a validated configuration satisfies, over the naturals.\<close>

definition config_bounds :: "PoolConfig \<Rightarrow> bool" where
  "config_bounds c \<longleftrightarrow>
     pc_version c = 1
   \<and> 2 \<le> unat (pc_min_participants c)
   \<and> unat (pc_min_participants c) \<le> unat (pc_max_participants c)
   \<and> unat (pc_max_participants c) \<le> 100000
   \<and> 0 < unat (pc_registration_duration_slots c)
   \<and> 0 < unat (pc_execution_window_slots c)
   \<and> unat (pc_min_release_delay_slots c) \<le> unat (pc_max_release_delay_slots c)
   \<and> unat (pc_max_timing_dispersion_slots c) \<le> unat (pc_execution_window_slots c)
   \<and> pc_allowed_clusters c \<noteq> {} \<and> pc_allowed_program_ids c \<noteq> {}"

text \<open>
  Validation accepts a configuration exactly when it has schema version 1, its
  participant bounds are ordered within 2 and 100000, its timing bounds are positive and
  ordered, its allowlists are non-empty, and its hash field is the recomputed hash.
\<close>

theorem validate_iff:
  "PoolConfig_validate blake3 to_vec c = Ok () \<longleftrightarrow>
     config_bounds c
   \<and> PoolConfig_compute_hash blake3 to_vec c = Ok (pc_configuration_hash c)"
proof -
  have two: "pc_min_participants c < 2 \<longleftrightarrow> \<not> 2 \<le> unat (pc_min_participants c)"
    by (simp add: word_less_nat_alt not_le)
  have cap: "pc_max_participants c > 100000 \<longleftrightarrow> \<not> unat (pc_max_participants c) \<le> 100000"
    by (simp add: word_less_nat_alt not_le)
  show ?thesis
    unfolding PoolConfig_validate_def config_bounds_def two cap SCHEMA_VERSION_def
    by (auto simp: result_simps word_less_nat_alt word_le_nat_alt unat_gt_0 not_le not_less
        split: if_splits)
qed

lemma validate_hashE:
  assumes "PoolConfig_validate blake3 to_vec c = Ok ()"
  obtains bs where "to_vec (c\<lparr>pc_configuration_hash := Digest32_default\<rparr>) = Some bs"
    and "pc_configuration_hash c = Digest32_hash blake3 (ascii ''pool-config'') bs"
  using assms
  by (auto simp: PoolConfig_validate_def PoolConfig_compute_hash_def result_simps
      split: if_splits)

definition canonical_config :: "PoolConfig \<Rightarrow> PoolConfig" where
  "canonical_config c = c\<lparr>pc_configuration_hash := Digest32_default\<rparr>"

lemma canonical_config_inj:
  assumes "canonical_config c = canonical_config c'"
    and "pc_configuration_hash c = pc_configuration_hash c'"
  shows "c = c'"
proof -
  have "(canonical_config c)\<lparr>pc_configuration_hash := pc_configuration_hash c\<rparr>
      = (canonical_config c')\<lparr>pc_configuration_hash := pc_configuration_hash c'\<rparr>"
    using assms by simp
  then show ?thesis by (simp add: canonical_config_def)
qed

text \<open>
  C14. The configuration hash binds the whole configuration. Whenever the JSON serialiser can
  be read back (serde's derived formats round-trip, \<open>from_slice\<close> is its deserialiser), two
  different configurations that validate under the same hash exhibit a collision of BLAKE3: the
  inputs built from their hash-zeroed forms are different and have the same hash.
\<close>

theorem validated_hash_binds_config:
  assumes "PoolConfig_validate blake3 to_vec c = Ok ()"
    and "PoolConfig_validate blake3 to_vec c' = Ok ()"
    and "pc_configuration_hash c = pc_configuration_hash c'"
    and "\<forall>x bs. to_vec x = Some bs \<longrightarrow> from_slice bs = Some x"
    and "c \<noteq> c'"
  shows "\<exists>b b'. to_vec (canonical_config c) = Some b \<and> to_vec (canonical_config c') = Some b'
         \<and> hash_input (ascii ''pool-config'') b \<noteq> hash_input (ascii ''pool-config'') b'
         \<and> blake3 (hash_input (ascii ''pool-config'') b)
           = blake3 (hash_input (ascii ''pool-config'') b')"
proof -
  obtain b where b: "to_vec (canonical_config c) = Some b"
    and hb: "pc_configuration_hash c = Digest32_hash blake3 (ascii ''pool-config'') b"
    using assms(1) unfolding canonical_config_def by (rule validate_hashE)
  obtain b' where b': "to_vec (canonical_config c') = Some b'"
    and hb': "pc_configuration_hash c' = Digest32_hash blake3 (ascii ''pool-config'') b'"
    using assms(2) unfolding canonical_config_def by (rule validate_hashE)
  have "canonical_config c \<noteq> canonical_config c'"
    using canonical_config_inj assms(3,5) by blast
  then have "b \<noteq> b'" using b b' assms(4) by (metis option.inject)
  moreover have "blake3 (hash_input (ascii ''pool-config'') b)
      = blake3 (hash_input (ascii ''pool-config'') b')"
    using hb hb' assms(3) by (simp add: Digest32_hash_def)
  ultimately show ?thesis using b b' by (auto simp: hash_input_def)
qed

text \<open>A configuration as \<open>pool create\<close> writes it, over a given hash field.\<close>

definition sample_config :: "Digest32 \<Rightarrow> PoolConfig" where
  "sample_config h = \<lparr>
     pc_pool_id = Digest32 (replicate 32 1), pc_version = 1,
     pc_governance = SingleAuthority (replicate 32 8),
     pc_action_template_hash = Digest32 (replicate 32 2),
     pc_min_participants = 10, pc_max_participants = 1000,
     pc_registration_duration_slots = 100,
     pc_min_release_delay_slots = 2, pc_max_release_delay_slots = 50,
     pc_execution_window_slots = 4, pc_max_timing_dispersion_slots = 4,
     pc_privacy_backend = MerkleCohort, pc_allowed_clusters = {Localnet},
     pc_allowed_program_ids = {replicate 32 7},
     pc_completion_policy = RedactedReceipt, pc_created_at_unix = 0,
     pc_configuration_hash = h\<rparr>"

text \<open>A serialiser that writes the maximum only, for two sample configurations, and its inverse.\<close>

definition sample_to_vec :: "PoolConfig \<Rightarrow> bytes option" where
  "sample_to_vec c =
    (if c = sample_config Digest32_default then Some [1]
     else if c = (sample_config Digest32_default)\<lparr>pc_max_participants := 999\<rparr> then Some [2]
     else None)"

definition sample_from_slice :: "bytes \<Rightarrow> PoolConfig option" where
  "sample_from_slice bs =
    (if bs = [1] then Some (sample_config Digest32_default)
     else if bs = [2] then Some ((sample_config Digest32_default)\<lparr>pc_max_participants := 999\<rparr>)
     else None)"

lemma sample_config_valid:
  "PoolConfig_validate (\<lambda>_. replicate 32 0) sample_to_vec (sample_config Digest32_default) = Ok ()"
  "PoolConfig_validate (\<lambda>_. replicate 32 0) sample_to_vec
     ((sample_config Digest32_default)\<lparr>pc_max_participants := 999\<rparr>) = Ok ()"
  by (simp_all add: PoolConfig_validate_def PoolConfig_compute_hash_def sample_config_def
      SCHEMA_VERSION_def Digest32_hash_def Digest32_default_def sample_to_vec_def)

text \<open>A hash without collision resistance: the two configurations collide on different inputs.\<close>

theorem validated_hash_binds_config_witness:
  "\<exists>b b'. sample_to_vec (canonical_config (sample_config Digest32_default)) = Some b
    \<and> sample_to_vec (canonical_config ((sample_config Digest32_default)\<lparr>pc_max_participants := 999\<rparr>))
        = Some b'
    \<and> hash_input (ascii ''pool-config'') b \<noteq> hash_input (ascii ''pool-config'') b'
    \<and> (\<lambda>_ :: bytes. replicate 32 (0 :: u8)) (hash_input (ascii ''pool-config'') b)
        = (\<lambda>_. replicate 32 0) (hash_input (ascii ''pool-config'') b')"
  by (rule validated_hash_binds_config [OF sample_config_valid, where from_slice = sample_from_slice])
    (auto simp: sample_config_def sample_to_vec_def sample_from_slice_def split: if_splits)

section \<open>The lifecycle graph\<close>

fun state_rank :: "RoundState \<Rightarrow> nat" where
  "state_rank Draft = 0"
| "state_rank Registration = 1"
| "state_rank ThresholdReached = 2"
| "state_rank Sealed = 3"
| "state_rank ReleaseScheduled = 4"
| "state_rank ExecutionWindow = 5"
| "state_rank Finalizing = 6"
| "state_rank Completed = 7"
| "state_rank Cancelled = 7"
| "state_rank Expired = 7"

fun terminal_state :: "RoundState \<Rightarrow> bool" where
  "terminal_state Completed = True"
| "terminal_state Cancelled = True"
| "terminal_state Expired = True"
| "terminal_state _ = False"

lemma can_transition_rank: "can_transition_to s t \<Longrightarrow> state_rank s < state_rank t"
  by (auto simp: can_transition_to_def)

lemma cancel_edge: "\<not> terminal_state s \<longleftrightarrow> can_transition_to s Cancelled"
  by (cases s) (simp_all add: can_transition_to_def)

lemma terminal_no_edge: "terminal_state s \<Longrightarrow> \<not> can_transition_to s t"
  by (auto simp: can_transition_to_def)

interpretation core_graph: lifecycle can_transition_to terminal_state state_rank 7
proof unfold_locales
  show "state_rank s \<le> 7" for s by (cases s) simp_all
  show "terminal_state s \<longleftrightarrow> (\<forall>t. \<not> can_transition_to s t)" for s
    using cancel_edge terminal_no_edge by blast
qed (rule can_transition_rank)

text \<open>
  The lifecycle graph only moves forward: a run of permitted transitions visits at
  most eight states, so every round reaches an end, and no state can be re-entered.
\<close>

theorem lifecycle_runs_bounded:
  "(\<forall>ss. successively can_transition_to ss \<longrightarrow> length ss \<le> 8)
   \<and> (\<forall>s. \<not> can_transition_to\<^sup>+\<^sup>+ s s)"
  using core_graph.run_length core_graph.no_cycle by fastforce

theorem lifecycle_runs_bounded_witness:
  "successively can_transition_to
     [Draft, Registration, ThresholdReached, Sealed, ReleaseScheduled, ExecutionWindow,
      Finalizing, Completed]
   \<and> length [Draft, Registration, ThresholdReached, Sealed, ReleaseScheduled, ExecutionWindow,
      Finalizing, Completed] \<le> (8 :: nat)"
  using lifecycle_runs_bounded by (simp add: can_transition_to_def)

lemma path_reaches:
  "successively edge (s # ss) \<Longrightarrow> t \<in> set (s # ss) \<Longrightarrow> edge\<^sup>*\<^sup>* s t"
proof (induction ss arbitrary: s)
  case Nil
  then show ?case by simp
next
  case (Cons u ss)
  then show ?case by (auto intro: converse_rtranclp_into_rtranclp)
qed

lemma draft_reaches: "can_transition_to\<^sup>*\<^sup>* Draft s"
proof -
  have main: "can_transition_to\<^sup>*\<^sup>* Draft t"
    if "t \<in> set [Draft, Registration, ThresholdReached, Sealed, ReleaseScheduled,
                ExecutionWindow, Finalizing, Completed]" for t
    using that by (rule path_reaches [rotated]) (simp add: can_transition_to_def)
  have "can_transition_to\<^sup>*\<^sup>* Draft Cancelled" "can_transition_to\<^sup>*\<^sup>* Draft Expired"
    using main [of Registration]
    by (auto intro: rtranclp.rtrancl_into_rtrancl simp: can_transition_to_def)
  then show ?thesis using main by (cases s) simp_all
qed

text \<open>
  Completed, Cancelled and Expired are absorbing and are exactly the states with no
  way out; from every other state the round can be cancelled in one step, and every
  state is reachable from Draft.
\<close>

theorem lifecycle_terminal_states:
  "(terminal_state s \<longleftrightarrow> (\<forall>t. can_transition_to\<^sup>*\<^sup>* s t \<longrightarrow> t = s))
   \<and> (\<not> terminal_state s \<longrightarrow> can_transition_to s Cancelled)
   \<and> can_transition_to\<^sup>*\<^sup>* Draft s"
proof (intro conjI)
  show "terminal_state s \<longleftrightarrow> (\<forall>t. can_transition_to\<^sup>*\<^sup>* s t \<longrightarrow> t = s)"
    using core_graph.terminal_absorbing cancel_edge [of s]
    by (metis r_into_rtranclp terminal_state.simps(2))
qed (use cancel_edge draft_reaches in auto)

theorem lifecycle_terminal_states_witness:
  "terminal_state Expired \<and> (\<forall>t. can_transition_to\<^sup>*\<^sup>* Expired t = (t = Expired))
   \<and> can_transition_to Sealed Cancelled \<and> can_transition_to\<^sup>*\<^sup>* Draft Expired"
  using lifecycle_terminal_states [of Expired] lifecycle_terminal_states [of Sealed] by auto

section \<open>Round operations\<close>

lemma Round_transition_Ok_iff [result_simps]:
  "Round_transition s r = (Ok u, r')
     \<longleftrightarrow> can_transition_to (rd_state r) s \<and> r' = r\<lparr>rd_state := s\<rparr>"
  by (auto simp: Round_transition_def)

lemma Round_register_Ok_iff [result_simps]:
  "Round_register slot m r = (Ok u, r') \<longleftrightarrow>
     rd_state r \<in> {Registration, ThresholdReached}
   \<and> slot < rd_registration_deadline_slot r
   \<and> rd_accepted_cohort_size r < m
   \<and> r' = r\<lparr>rd_accepted_cohort_size := rd_accepted_cohort_size r + 1\<rparr>"
  using checked_add_one_below(1) [of "rd_accepted_cohort_size r" m]
  by (auto simp: Round_register_def not_le split: option.splits if_splits)

lemma Round_seal_Ok_iff [result_simps]:
  "Round_seal root m r = (Ok u, r') \<longleftrightarrow>
     rd_state r = ThresholdReached \<and> m \<le> rd_accepted_cohort_size r
   \<and> rd_cohort_merkle_root r = None
   \<and> r' = r\<lparr>rd_cohort_merkle_root := Some root, rd_state := Sealed\<rparr>"
  by (auto simp: Round_seal_def Round_transition_def Let_def not_less can_transition_to_def)

lemma Round_schedule_Ok_iff [result_simps]:
  "Round_schedule_release slot rel c r = (Ok u, r') \<longleftrightarrow>
     rd_state r = Sealed \<and> rd_release_slot r = None
   \<and> (\<exists>delay w. checked_sub rel slot = Some delay
       \<and> pc_min_release_delay_slots c \<le> delay \<and> delay \<le> pc_max_release_delay_slots c
       \<and> checked_add rel (pc_execution_window_slots c) = Some w
       \<and> r' = r\<lparr>rd_release_slot := Some rel, rd_execution_window_start := Some rel,
                rd_execution_window_end := Some w, rd_state := ReleaseScheduled\<rparr>)"
  by (auto simp: Round_schedule_release_def Round_transition_def Let_def not_less
      can_transition_to_def split: option.splits if_splits)

text \<open>A call of one of the public operations, with the limits of the pool's policy.\<close>

datatype round_request =
    Transition RoundState
  | Register u64
  | Seal Digest32
  | Schedule u64 u64

fun round_call :: "PoolConfig \<Rightarrow> round_request \<Rightarrow> unit round_op" where
  "round_call c (Transition s) = Round_transition s"
| "round_call c (Register slot) = Round_register slot (pc_max_participants c)"
| "round_call c (Seal root) = Round_seal root (pc_min_participants c)"
| "round_call c (Schedule slot rel) = Round_schedule_release slot rel c"

fun round_calls :: "PoolConfig \<Rightarrow> round_request list \<Rightarrow> Round \<Rightarrow> Round" where
  "round_calls c [] r = r"
| "round_calls c (x # xs) r = round_calls c xs (snd (round_call c x r))"

lemma round_call_cases:
  obtains (unchanged) "snd (round_call c x r) = r"
  | (ok) r' where "round_call c x r = (Ok (), r')"
proof -
  have "snd (round_call c x r) = r \<or> fst (round_call c x r) = Ok ()"
    by (cases x)
      (auto simp: Round_transition_def Round_register_def Round_seal_def
        Round_schedule_release_def Let_def can_transition_to_def split: option.splits)
  then show ?thesis using unchanged ok by (metis prod.collapse)
qed

text \<open>
  Every operation on a round is failure-atomic: a call that returns an error leaves
  the round exactly as it was, although sealing and scheduling write fields before the
  final transition.
\<close>

theorem round_call_failure_atomic:
  assumes "fst (round_call c x r) = Err e"
  shows "snd (round_call c x r) = r"
  using assms by (cases rule: round_call_cases [of c x r]) auto

definition sample_round :: Round where
  "sample_round = \<lparr>
     rd_pool_id = Digest32 (replicate 32 1), rd_round_id = 0, rd_state = Registration,
     rd_registration_start_slot = 5, rd_registration_deadline_slot = 105,
     rd_release_slot = None, rd_execution_window_start = None,
     rd_execution_window_end = None, rd_expected_cohort_size = 10,
     rd_accepted_cohort_size = 0, rd_cohort_merkle_root = None,
     rd_action_template_hash = Digest32 (replicate 32 2),
     rd_privacy_backend = MerkleCohort, rd_cancellation_reason = None,
     rd_final_metrics_hash = None\<rparr>"

theorem round_call_failure_atomic_witness:
  "fst (round_call (sample_config Digest32_default) (Seal Digest32_default) sample_round)
     = Err PrematureSeal
   \<and> snd (round_call (sample_config Digest32_default) (Seal Digest32_default) sample_round)
     = sample_round"
  using round_call_failure_atomic
    [of "sample_config Digest32_default" "Seal Digest32_default" sample_round PrematureSeal]
  by (simp add: Round_seal_def sample_round_def)

text \<open>The shape of a round as \<open>round open\<close> creates it.\<close>

definition opened :: "Round \<Rightarrow> bool" where
  "opened r \<longleftrightarrow> rd_state r \<in> {Draft, Registration} \<and> rd_accepted_cohort_size r = 0
   \<and> rd_release_slot r = None \<and> rd_execution_window_start r = None
   \<and> rd_execution_window_end r = None \<and> rd_cohort_merkle_root r = None"

text \<open>What the operations keep of a round under the policy \<open>c\<close>.\<close>

definition round_inv :: "PoolConfig \<Rightarrow> Round \<Rightarrow> bool" where
  "round_inv c r \<longleftrightarrow>
     rd_accepted_cohort_size r \<le> pc_max_participants c
   \<and> rd_execution_window_start r = rd_release_slot r
   \<and> (case rd_release_slot r of
        None \<Rightarrow> rd_execution_window_end r = None
      | Some s \<Rightarrow> 4 \<le> state_rank (rd_state r)
          \<and> (\<exists>w. rd_execution_window_end r = Some w
               \<and> unat w = unat s + unat (pc_execution_window_slots c)))
   \<and> (rd_cohort_merkle_root r \<noteq> None \<longrightarrow>
        3 \<le> state_rank (rd_state r) \<and> pc_min_participants c \<le> rd_accepted_cohort_size r)"

lemma round_inv_opened: "opened r \<Longrightarrow> round_inv c r"
  by (auto simp: opened_def round_inv_def)

lemma round_inv_call:
  assumes "round_inv c r"
  shows "round_inv c (snd (round_call c x r))"
proof (cases rule: round_call_cases [of c x r])
  case unchanged
  then show ?thesis using assms by simp
next
  case (ok r')
  then have "round_inv c r'"
    using assms
    by (cases x)
      (auto simp: round_inv_def result_simps checked_add_one_below(2)
        dest: can_transition_rank checked_add_unat split: option.splits)
  then show ?thesis using ok by simp
qed

lemma round_inv_calls: "round_inv c r \<Longrightarrow> round_inv c (round_calls c xs r)"
  by (induction xs arbitrary: r) (auto intro: round_inv_call)

text \<open>
  C5. Whatever sequence of operations is called on a freshly opened round: the cohort
  never exceeds the policy's maximum; a scheduled round has a window that starts at its
  release slot and lasts exactly the policy's window without wrap-around; and a round has a
  root only once its cohort has reached the policy's threshold and it is past registration.
  (The state alone does not show the threshold: \<open>transition\<close> follows the graph without a root.)
\<close>

theorem round_calls_invariant:
  assumes "opened r" and "r' = round_calls c xs r"
  shows "unat (rd_accepted_cohort_size r') \<le> unat (pc_max_participants c)
    \<and> (\<forall>s. rd_release_slot r' = Some s \<longrightarrow>
          rd_execution_window_start r' = Some s
        \<and> (\<exists>w. rd_execution_window_end r' = Some w
              \<and> unat w = unat s + unat (pc_execution_window_slots c))
        \<and> rd_state r' \<notin> {Draft, Registration, ThresholdReached, Sealed})
    \<and> (rd_cohort_merkle_root r' \<noteq> None
        \<longrightarrow> unat (pc_min_participants c) \<le> unat (rd_accepted_cohort_size r')
          \<and> rd_state r' \<notin> {Draft, Registration, ThresholdReached})"
proof -
  have "round_inv c r'"
    using assms round_inv_calls round_inv_opened by simp
  then show ?thesis
    by (auto simp: round_inv_def word_le_nat_alt)
qed

definition pair_config :: PoolConfig where
  "pair_config = (sample_config Digest32_default)\<lparr>pc_min_participants := 2\<rparr>"

definition pair_round :: Round where
  "pair_round = round_calls pair_config
     [Transition ThresholdReached, Register 20, Seal Digest32_default, Register 30,
      Seal Digest32_default, Schedule 200 210] sample_round"

text \<open>The first sealing is premature, the second one is not.\<close>

theorem round_calls_invariant_witness:
  "rd_cohort_merkle_root pair_round = Some Digest32_default
   \<and> unat (pc_min_participants pair_config) \<le> unat (rd_accepted_cohort_size pair_round)
   \<and> rd_release_slot pair_round = Some 210 \<and> rd_execution_window_start pair_round = Some 210"
proof -
  have fields: "rd_cohort_merkle_root pair_round = Some Digest32_default"
    "rd_release_slot pair_round = Some 210"
    by (simp_all add: pair_round_def Round_transition_def Round_register_def Round_seal_def
        Round_schedule_release_def Let_def sample_round_def can_transition_to_def
        pair_config_def sample_config_def checked_sub_def checked_add_def word_le_nat_alt)
  have op: "opened sample_round" by (simp add: opened_def sample_round_def)
  show ?thesis using fields round_calls_invariant [OF op pair_round_def] by auto
qed

text \<open>How a later value of a round relates to an earlier one.\<close>

definition round_advances :: "Round \<Rightarrow> Round \<Rightarrow> bool" where
  "round_advances r r' \<longleftrightarrow>
     (\<forall>d. rd_cohort_merkle_root r = Some d \<longrightarrow> rd_cohort_merkle_root r' = Some d)
   \<and> (\<forall>s. rd_release_slot r = Some s \<longrightarrow> rd_release_slot r' = Some s
        \<and> rd_execution_window_start r' = rd_execution_window_start r
        \<and> rd_execution_window_end r' = rd_execution_window_end r)
   \<and> can_transition_to\<^sup>*\<^sup>* (rd_state r) (rd_state r')
   \<and> rd_accepted_cohort_size r \<le> rd_accepted_cohort_size r'
   \<and> rd_pool_id r' = rd_pool_id r \<and> rd_round_id r' = rd_round_id r
   \<and> rd_action_template_hash r' = rd_action_template_hash r
   \<and> rd_registration_deadline_slot r' = rd_registration_deadline_slot r"

lemma round_advances_refl [simp]: "round_advances r r"
  by (simp add: round_advances_def)

lemma round_advances_trans:
  "round_advances r s \<Longrightarrow> round_advances s t \<Longrightarrow> round_advances r t"
  unfolding round_advances_def
  by (intro conjI; (elim conjE)?; auto intro: rtranclp_trans order_trans)

lemma accepted_increases:
  "rd_accepted_cohort_size r < m
    \<Longrightarrow> rd_accepted_cohort_size r \<le> rd_accepted_cohort_size r + (1 :: u32)"
  using checked_add_one_below(1) checked_add_ge by blast

lemma round_call_advances: "round_advances r (snd (round_call c x r))"
proof (cases rule: round_call_cases [of c x r])
  case unchanged
  then show ?thesis by simp
next
  case (ok r')
  then have "round_advances r r'"
    by (cases x)
      (auto simp: round_advances_def result_simps can_transition_to_def
        intro: accepted_increases r_into_rtranclp [of can_transition_to])
  then show ?thesis using ok by simp
qed

text \<open>
  C13. Once fixed, a round's root and its release window never change, its identity never
  changes, its cohort never shrinks, and its state only moves along permitted edges,
  under every sequence of operations from every state of the round.
\<close>

theorem round_calls_advance:
  "round_advances r (round_calls c xs r)"
  by (induction xs arbitrary: r)
    (auto intro: round_advances_trans round_call_advances)

end
