(* ===== verification/MP_Actions.thy ===== *)
theory MP_Actions
  imports MP_Core
begin

text \<open>
  The action crate (\<open>src/crates/mirror-pool-actions/src/lib.rs\<close>): the central safety
  policy and the four built-in templates. Text is a list of Unicode code points with its
  UTF-8 encoding written out; a URL is represented by what the crate reads of it, the host
  string its parser reports. The compile-time feature \<open>public-cluster-execution\<close> is a
  Boolean argument. The trait \<open>ActionTemplateDriver\<close> is the locale \<open>template_driver\<close>,
  interpreted on each of the four implementations.
\<close>

section \<open>Text\<close>

type_synonym code_point = nat

definition utf8_char :: "code_point \<Rightarrow> bytes" where
  "utf8_char c =
    (if c < 128 then [of_nat c]
     else if c < 2048 then [of_nat (192 + c div 64), of_nat (128 + c mod 64)]
     else if c < 65536 then
       [of_nat (224 + c div 4096), of_nat (128 + c div 64 mod 64), of_nat (128 + c mod 64)]
     else [of_nat (240 + c div 262144), of_nat (128 + c div 4096 mod 64),
           of_nat (128 + c div 64 mod 64), of_nat (128 + c mod 64)])"

definition utf8 :: "code_point list \<Rightarrow> bytes" where
  "utf8 cs = concat (map utf8_char cs)"

text \<open>\<open>char::is_control\<close>: the general category Cc.\<close>

definition is_control :: "code_point \<Rightarrow> bool" where
  "is_control c \<longleftrightarrow> c < 32 \<or> 127 \<le> c \<and> c < 160"

section \<open>Policy\<close>

record SafetyPolicy =
  sp_dry_run :: bool
  sp_sending_enabled :: bool
  sp_loopback_only :: bool
  sp_simulation_required :: bool
  sp_max_compute_units :: u32
  sp_max_priority_fee_micro_lamports :: u64
  sp_max_transaction_fee_lamports :: u64
  sp_max_local_value :: u64
  sp_max_concurrent_sends :: u16
  sp_max_sends_per_round :: u32
  sp_allowed_program_ids :: "bytes list"
  sp_allowed_templates :: "string list"
  sp_emergency_stop :: bool

definition SafetyPolicy_default :: SafetyPolicy where
  "SafetyPolicy_default = \<lparr>
     sp_dry_run = True, sp_sending_enabled = False, sp_loopback_only = True,
     sp_simulation_required = True, sp_max_compute_units = 200000,
     sp_max_priority_fee_micro_lamports = 1000, sp_max_transaction_fee_lamports = 20000,
     sp_max_local_value = 1000000, sp_max_concurrent_sends = 4, sp_max_sends_per_round = 50,
     sp_allowed_program_ids = [],
     sp_allowed_templates = [''memo-v1'', ''compute-budget-shape-v1''],
     sp_emergency_stop = False\<rparr>"

record PreparedAction =
  ac_template_id :: string
  ac_program_ids :: "bytes list"
  ac_instruction_count :: u8
  ac_payload :: bytes
  ac_compute_units :: u32
  ac_priority_fee_micro_lamports :: u64
  ac_value :: u64
  ac_estimated_size :: u16
  ac_safety :: SafetyClassification

datatype ActionParameters =
    Memo "code_point list"
  | ComputeBudget u32 u64
  | LocalTokenHousekeeping u64 bool
  | LocalStakeLifecycle u64 bool

record SimulationResult =
  sr_succeeded :: bool
  sr_estimated_fee_lamports :: u64
  sr_compute_units_consumed :: u32
  sr_redacted_error :: "string option"

datatype ActionError =
    EmergencyStop
  | TemplateNotAllowed
  | ProgramNotAllowed
  | ComputeLimitExceeded
  | PriorityFeeExceeded
  | TransactionFeeExceeded
  | ValueLimitExceeded
  | NonLoopbackRpc
  | SendingDisabled
  | SimulationRequired
  | ConfirmationRequired
  | PublicClusterCompileGuard
  | WrongParameters
  | InvalidMemo
  | SizeExceeded
  | InstructionShapeInvalid

type_synonym host = "string option"

definition is_loopback :: "host \<Rightarrow> bool" where
  "is_loopback url \<longleftrightarrow>
     url \<in> {Some ''localhost'', Some ''127.0.0.1'', Some ''[::1]'', Some ''::1''}"

definition SafetyPolicy_validate ::
  "bool \<Rightarrow> SafetyPolicy \<Rightarrow> PreparedAction \<Rightarrow> host \<Rightarrow> bool \<Rightarrow> bool \<Rightarrow> u64 \<Rightarrow> bool
     \<Rightarrow> (unit, ActionError) result" where
  "SafetyPolicy_validate public_cluster self action rpc_url sending simulation_succeeded
     estimated_fee explicit_confirmation =
    (if sp_emergency_stop self then Err EmergencyStop
     else if ac_template_id action \<notin> set (sp_allowed_templates self) then Err TemplateNotAllowed
     else if list_ex (\<lambda>program. program \<notin> set (sp_allowed_program_ids self))
               (ac_program_ids action)
     then Err ProgramNotAllowed
     else if ac_compute_units action > sp_max_compute_units self then Err ComputeLimitExceeded
     else if ac_priority_fee_micro_lamports action > sp_max_priority_fee_micro_lamports self
     then Err PriorityFeeExceeded
     else if ac_value action > sp_max_local_value self then Err ValueLimitExceeded
     else if ac_instruction_count action \<noteq> 1 \<or> length (ac_program_ids action) \<noteq> 1
     then Err InstructionShapeInvalid
     else if ac_estimated_size action > 1232 then Err SizeExceeded
     else if estimated_fee > sp_max_transaction_fee_lamports self then Err TransactionFeeExceeded
     else if sp_loopback_only self \<and> \<not> is_loopback rpc_url then Err NonLoopbackRpc
     else if sending then
       (if sp_dry_run self \<or> \<not> sp_sending_enabled self then Err SendingDisabled
        else if sp_simulation_required self \<and> \<not> simulation_succeeded then Err SimulationRequired
        else if \<not> explicit_confirmation then Err ConfirmationRequired
        else if \<not> public_cluster \<and> \<not> is_loopback rpc_url then Err PublicClusterCompileGuard
        else Ok ())
     else Ok ())"

section \<open>Templates\<close>

text \<open>The trait object: the methods every template provides.\<close>

record ActionTemplateDriver =
  dr_identifier :: string
  dr_version :: u16
  dr_category :: string
  dr_required_program_ids :: "bytes list"
  dr_safety_classification :: SafetyClassification
  dr_prepare :: "ActionParameters \<Rightarrow> (PreparedAction, ActionError) result"
  dr_simulate :: "PreparedAction \<Rightarrow> (SimulationResult, ActionError) result"
  dr_redacted_fingerprint :: "PreparedAction \<Rightarrow> Digest32"

text \<open>\<open>usize\<close> arithmetic on the length of a vector does not saturate in memory.\<close>

definition estimate_size :: "nat \<Rightarrow> u16" where
  "estimate_size n = (if 100 + n < 2 ^ 16 then of_nat (100 + n) else - 1)"

definition prepared ::
  "string \<Rightarrow> bytes list \<Rightarrow> bytes \<Rightarrow> u32 \<Rightarrow> u64 \<Rightarrow> u64 \<Rightarrow> SafetyClassification \<Rightarrow> PreparedAction" where
  "prepared template program_ids payload compute_units priority_fee value safety =
     \<lparr>ac_template_id = template, ac_program_ids = program_ids, ac_instruction_count = 1,
      ac_payload = payload, ac_compute_units = compute_units,
      ac_priority_fee_micro_lamports = priority_fee, ac_value = value,
      ac_estimated_size = estimate_size (length payload), ac_safety = safety\<rparr>"

definition bounded_simulation :: "PreparedAction \<Rightarrow> (SimulationResult, ActionError) result" where
  "bounded_simulation action =
    (if ac_estimated_size action > 1232 then Err SizeExceeded
     else Ok \<lparr>sr_succeeded = True, sr_estimated_fee_lamports = 5000,
              sr_compute_units_consumed = ac_compute_units action div 2,
              sr_redacted_error = None\<rparr>)"

subsection \<open>Memo\<close>

record MemoTemplate =
  mt_memo_program_id :: bytes

definition memo_bucket :: "nat \<Rightarrow> nat" where
  "memo_bucket n = (if n \<le> 16 then 16 else if n \<le> 32 then 32 else 64)"

definition MemoTemplate_prepare ::
  "MemoTemplate \<Rightarrow> ActionParameters \<Rightarrow> (PreparedAction, ActionError) result" where
  "MemoTemplate_prepare self parameters =
    (case parameters of
       Memo txt \<Rightarrow>
         if utf8 txt = [] \<or> length (utf8 txt) > 64 \<or> list_ex is_control txt then Err InvalidMemo
         else
           let bucket = memo_bucket (length (utf8 txt)) in
           Ok \<lparr>ac_template_id = ''memo-v1'', ac_program_ids = [mt_memo_program_id self],
              ac_instruction_count = 1,
              ac_payload = utf8 txt @ replicate (bucket - length (utf8 txt)) 32,
              ac_compute_units = 10000, ac_priority_fee_micro_lamports = 0, ac_value = 0,
              ac_estimated_size = of_nat (100 + bucket), ac_safety = LowRisk\<rparr>
     | _ \<Rightarrow> Err WrongParameters)"

definition MemoTemplate_simulate :: "PreparedAction \<Rightarrow> (SimulationResult, ActionError) result" where
  "MemoTemplate_simulate action =
     Ok \<lparr>sr_succeeded = ac_estimated_size action \<le> 1232, sr_estimated_fee_lamports = 5000,
         sr_compute_units_consumed = 4000, sr_redacted_error = None\<rparr>"

definition MemoTemplate_fingerprint :: "(bytes \<Rightarrow> bytes) \<Rightarrow> PreparedAction \<Rightarrow> Digest32" where
  "MemoTemplate_fingerprint blake3 action =
     Digest32_hash blake3 (ascii ''memo-shape'')
       [if length (ac_payload action) < 256 then of_nat (length (ac_payload action)) else - 1]"

definition MemoTemplate_driver :: "(bytes \<Rightarrow> bytes) \<Rightarrow> MemoTemplate \<Rightarrow> ActionTemplateDriver" where
  "MemoTemplate_driver blake3 self =
     \<lparr>dr_identifier = ''memo-v1'', dr_version = 1, dr_category = ''memo'',
      dr_required_program_ids = [mt_memo_program_id self],
      dr_safety_classification = LowRisk,
      dr_prepare = MemoTemplate_prepare self, dr_simulate = MemoTemplate_simulate,
      dr_redacted_fingerprint = MemoTemplate_fingerprint blake3\<rparr>"

subsection \<open>Compute budget\<close>

record ComputeBudgetShapeTemplate =
  cb_compute_budget_program_id :: bytes

definition ComputeBudget_prepare ::
  "ComputeBudgetShapeTemplate \<Rightarrow> ActionParameters \<Rightarrow> (PreparedAction, ActionError) result" where
  "ComputeBudget_prepare self parameters =
    (case parameters of
       ComputeBudget units priority_fee \<Rightarrow>
         if \<not> (10000 \<le> units \<and> units \<le> 200000) \<or> priority_fee > 1000
         then Err ComputeLimitExceeded
         else
           let canonical_units = div_ceil units 25000 * 25000 in
           Ok (prepared ''compute-budget-shape-v1'' [cb_compute_budget_program_id self]
                (le_bytes 4 (unat canonical_units) @ le_bytes 8 (unat priority_fee))
                canonical_units priority_fee 0 LowRisk)
     | _ \<Rightarrow> Err WrongParameters)"

definition ComputeBudget_fingerprint :: "(bytes \<Rightarrow> bytes) \<Rightarrow> PreparedAction \<Rightarrow> Digest32" where
  "ComputeBudget_fingerprint blake3 action =
     Digest32_hash blake3 (ascii ''compute-shape'') (ac_payload action)"

definition ComputeBudget_driver :: "(bytes \<Rightarrow> bytes) \<Rightarrow> ComputeBudgetShapeTemplate \<Rightarrow> ActionTemplateDriver" where
  "ComputeBudget_driver blake3 self =
     \<lparr>dr_identifier = ''compute-budget-shape-v1'', dr_version = 1, dr_category = ''compute_budget'',
      dr_required_program_ids = [cb_compute_budget_program_id self],
      dr_safety_classification = LowRisk,
      dr_prepare = ComputeBudget_prepare self, dr_simulate = bounded_simulation,
      dr_redacted_fingerprint = ComputeBudget_fingerprint blake3\<rparr>"

subsection \<open>Local token housekeeping\<close>

record LocalTokenHousekeepingTemplate =
  lt_token_program_id :: bytes

definition bool_byte :: "bool \<Rightarrow> u8" where
  "bool_byte b = (if b then 1 else 0)"

definition LocalToken_prepare ::
  "LocalTokenHousekeepingTemplate \<Rightarrow> ActionParameters \<Rightarrow> (PreparedAction, ActionError) result" where
  "LocalToken_prepare self parameters =
    (case parameters of
       LocalTokenHousekeeping amount close_account \<Rightarrow>
         if amount > 1000000 then Err ValueLimitExceeded
         else Ok (prepared ''local-token-housekeeping-v1'' [lt_token_program_id self]
                   (le_bytes 8 (unat amount) @ [bool_byte close_account]) 50000 0 amount LocalOnly)
     | _ \<Rightarrow> Err WrongParameters)"

definition last_byte :: "bytes \<Rightarrow> u8" where
  "last_byte bs = (if bs = [] then 0 else last bs)"

definition LocalToken_fingerprint :: "(bytes \<Rightarrow> bytes) \<Rightarrow> PreparedAction \<Rightarrow> Digest32" where
  "LocalToken_fingerprint blake3 action =
     Digest32_hash blake3 (ascii ''token-housekeeping-shape'') [last_byte (ac_payload action)]"

definition LocalToken_driver :: "(bytes \<Rightarrow> bytes) \<Rightarrow> LocalTokenHousekeepingTemplate \<Rightarrow> ActionTemplateDriver" where
  "LocalToken_driver blake3 self =
     \<lparr>dr_identifier = ''local-token-housekeeping-v1'', dr_version = 1, dr_category = ''local_test_token'',
      dr_required_program_ids = [lt_token_program_id self],
      dr_safety_classification = LocalOnly,
      dr_prepare = LocalToken_prepare self, dr_simulate = bounded_simulation,
      dr_redacted_fingerprint = LocalToken_fingerprint blake3\<rparr>"

subsection \<open>Local stake lifecycle\<close>

record LocalStakeLifecycleTemplate =
  ls_stake_program_id :: bytes

definition LocalStake_prepare ::
  "LocalStakeLifecycleTemplate \<Rightarrow> ActionParameters \<Rightarrow> (PreparedAction, ActionError) result" where
  "LocalStake_prepare self parameters =
    (case parameters of
       LocalStakeLifecycle lamports deactivate \<Rightarrow>
         if lamports = 0 \<or> lamports > 1000000 then Err ValueLimitExceeded
         else Ok (prepared ''local-stake-lifecycle-v1'' [ls_stake_program_id self]
                   (le_bytes 8 (unat lamports) @ [bool_byte deactivate]) 100000 0 lamports LocalOnly)
     | _ \<Rightarrow> Err WrongParameters)"

definition LocalStake_fingerprint :: "(bytes \<Rightarrow> bytes) \<Rightarrow> PreparedAction \<Rightarrow> Digest32" where
  "LocalStake_fingerprint blake3 action =
     Digest32_hash blake3 (ascii ''stake-lifecycle-shape'') [last_byte (ac_payload action)]"

definition LocalStake_driver :: "(bytes \<Rightarrow> bytes) \<Rightarrow> LocalStakeLifecycleTemplate \<Rightarrow> ActionTemplateDriver" where
  "LocalStake_driver blake3 self =
     \<lparr>dr_identifier = ''local-stake-lifecycle-v1'', dr_version = 1, dr_category = ''local_native_stake'',
      dr_required_program_ids = [ls_stake_program_id self],
      dr_safety_classification = LocalOnly,
      dr_prepare = LocalStake_prepare self, dr_simulate = bounded_simulation,
      dr_redacted_fingerprint = LocalStake_fingerprint blake3\<rparr>"

definition built_in_template_names :: "string list" where
  "built_in_template_names = [''memo-v1'', ''compute-budget-shape-v1'',
     ''local-token-housekeeping-v1'', ''local-stake-lifecycle-v1'']"

section \<open>The contract of a template\<close>

text \<open>
  The limits every prepared action must stay within for the default policy's ceilings, and
  what a policy has to list for a template to be usable at all.
\<close>

definition within_default_limits :: "PreparedAction \<Rightarrow> bool" where
  "within_default_limits a \<longleftrightarrow>
     ac_instruction_count a = 1 \<and> ac_estimated_size a \<le> 1232 \<and>
     ac_compute_units a \<le> 200000 \<and> ac_priority_fee_micro_lamports a \<le> 1000 \<and>
     ac_value a \<le> 1000000"

definition policy_lists :: "SafetyPolicy \<Rightarrow> ActionTemplateDriver \<Rightarrow> bool" where
  "policy_lists policy driver \<longleftrightarrow>
     dr_identifier driver \<in> set (sp_allowed_templates policy) \<and>
     set (dr_required_program_ids driver) \<subseteq> set (sp_allowed_program_ids policy)"

definition default_ceilings :: "SafetyPolicy \<Rightarrow> bool" where
  "default_ceilings policy \<longleftrightarrow>
     sp_max_compute_units policy = 200000 \<and>
     sp_max_priority_fee_micro_lamports policy = 1000 \<and>
     sp_max_transaction_fee_lamports policy = 20000 \<and>
     sp_max_local_value policy = 1000000"

lemma validate_Ok_iff [result_simps]:
  "SafetyPolicy_validate public_cluster p a url sending simulated fee confirmed = Ok () \<longleftrightarrow>
     \<not> sp_emergency_stop p \<and> ac_template_id a \<in> set (sp_allowed_templates p) \<and>
     set (ac_program_ids a) \<subseteq> set (sp_allowed_program_ids p) \<and>
     ac_compute_units a \<le> sp_max_compute_units p \<and>
     ac_priority_fee_micro_lamports a \<le> sp_max_priority_fee_micro_lamports p \<and>
     ac_value a \<le> sp_max_local_value p \<and>
     ac_instruction_count a = 1 \<and> length (ac_program_ids a) = 1 \<and>
     ac_estimated_size a \<le> 1232 \<and> fee \<le> sp_max_transaction_fee_lamports p \<and>
     (sp_loopback_only p \<longrightarrow> is_loopback url) \<and>
     (sending \<longrightarrow> \<not> sp_dry_run p \<and> sp_sending_enabled p \<and>
        (sp_simulation_required p \<longrightarrow> simulated) \<and> confirmed \<and>
        (public_cluster \<or> is_loopback url))"
proof -
  have "list_ex (\<lambda>program. program \<notin> set (sp_allowed_program_ids p)) (ac_program_ids a)
      \<longleftrightarrow> \<not> set (ac_program_ids a) \<subseteq> set (sp_allowed_program_ids p)"
    by (auto simp: list_ex_iff)
  then show ?thesis
    unfolding SafetyPolicy_validate_def
    by (cases sending)
      (simp_all only: if_Err_Ok_iff not_less de_Morgan_disj not_not de_Morgan_conj
        imp_conv_disj if_True if_False conj_assoc simp_thms)
qed

locale template_driver =
  fixes driver :: ActionTemplateDriver
  assumes one_program: "length (dr_required_program_ids driver) = 1"
    and identity: "dr_prepare driver ps = Ok a \<Longrightarrow>
      ac_template_id a = dr_identifier driver \<and>
      ac_program_ids a = dr_required_program_ids driver \<and>
      ac_safety a = dr_safety_classification driver"
    and limits: "dr_prepare driver ps = Ok a \<Longrightarrow> within_default_limits a"
    and simulates: "dr_prepare driver ps = Ok a \<Longrightarrow>
      \<exists>s. dr_simulate driver a = Ok s \<and> sr_succeeded s \<and> sr_estimated_fee_lamports s = 5000"
begin

lemma dry_run_accepted:
  assumes "dr_prepare driver ps = Ok a" "policy_lists p driver" "default_ceilings p"
    and "\<not> sp_emergency_stop p" "is_loopback url" "fee \<le> 20000"
  shows "SafetyPolicy_validate public_cluster p a url False simulated fee confirmed = Ok ()"
  using assms identity [OF assms(1)] limits [OF assms(1)] one_program
  by (simp add: validate_Ok_iff policy_lists_def default_ceilings_def within_default_limits_def)

lemma send_iff:
  assumes "dr_prepare driver ps = Ok a" "policy_lists p driver" "default_ceilings p"
    and "\<not> sp_emergency_stop p" "is_loopback url" "fee \<le> 20000"
  shows "SafetyPolicy_validate public_cluster p a url True simulated fee confirmed = Ok ()
    \<longleftrightarrow> \<not> sp_dry_run p \<and> sp_sending_enabled p \<and>
        (sp_simulation_required p \<longrightarrow> simulated) \<and> confirmed"
  using assms identity [OF assms(1)] limits [OF assms(1)] one_program
  by (auto simp: validate_Ok_iff policy_lists_def default_ceilings_def within_default_limits_def)

lemma unlisted_rejected:
  assumes "dr_prepare driver ps = Ok a" "\<not> policy_lists p driver"
  shows "SafetyPolicy_validate public_cluster p a url sending simulated fee confirmed \<noteq> Ok ()"
  using assms identity [OF assms(1)] by (auto simp: validate_Ok_iff policy_lists_def)

end

subsection \<open>The four templates keep it\<close>

lemma memo_prepare_Ok_iff:
  "MemoTemplate_prepare self ps = Ok a \<longleftrightarrow>
     (\<exists>txt. ps = Memo txt \<and> utf8 txt \<noteq> [] \<and> length (utf8 txt) \<le> 64 \<and>
        \<not> list_ex is_control txt \<and>
        a = \<lparr>ac_template_id = ''memo-v1'', ac_program_ids = [mt_memo_program_id self],
              ac_instruction_count = 1,
              ac_payload = utf8 txt @
                replicate (memo_bucket (length (utf8 txt)) - length (utf8 txt)) 32,
              ac_compute_units = 10000, ac_priority_fee_micro_lamports = 0, ac_value = 0,
              ac_estimated_size = of_nat (100 + memo_bucket (length (utf8 txt))),
              ac_safety = LowRisk\<rparr>)"
  by (auto simp: MemoTemplate_prepare_def Let_def split: ActionParameters.splits)

lemma memo_bucket_cases: "memo_bucket n = 16 \<or> memo_bucket n = 32 \<or> memo_bucket n = 64"
  by (simp add: memo_bucket_def)

lemma memo_bucket_ge: "n \<le> 64 \<Longrightarrow> n \<le> memo_bucket n"
  by (simp add: memo_bucket_def)

lemma canonical_units:
  assumes "10000 \<le> units" "units \<le> (200000 :: u32)"
  shows "unat (div_ceil units 25000 * 25000) = (unat units + 24999) div 25000 * 25000"
proof -
  define n where "n = unat units"
  have n: "10000 \<le> n" "n \<le> 200000"
    using assms unfolding n_def word_le_nat_alt by simp_all
  have u: "units = of_nat n" by (simp add: n_def)
  have ceil: "(n + 24999) div 25000 = (if n mod 25000 = 0 then n div 25000 else n div 25000 + 1)"
  proof -
    have "n + 24999 = n div 25000 * 25000 + (n mod 25000 + 24999)" by simp
    then have "(n + 24999) div 25000 = n div 25000 + (n mod 25000 + 24999) div 25000"
      by (metis add.commute div_mult_self3 zero_neq_numeral)
    moreover have "(n mod 25000 + 24999) div 25000 = (if n mod 25000 = 0 then 0 else 1)"
      using mod_less_divisor [of 25000 n] by (auto simp: div_eq_dividend_iff intro!: div_nat_eqI)
    ultimately show ?thesis by simp
  qed
  have d: "unat (units div 25000) = n div 25000" and m: "unat (units mod 25000) = n mod 25000"
    by (simp_all add: n_def unat_div unat_mod)
  have q: "n div 25000 \<le> 8" using n by simp
  have "units mod 25000 = 0 \<longleftrightarrow> n mod 25000 = 0" using m by (simp add: unat_eq_0 [symmetric])
  then have "unat (div_ceil units 25000) = (n + 24999) div 25000"
    using d q unfolding div_ceil_def Let_def ceil
    by (auto simp: unat_word_ariths)
  moreover have "(n + 24999) div 25000 \<le> 8" using n by simp
  ultimately show ?thesis unfolding n_def [symmetric] by (simp add: unat_word_ariths)
qed

lemma canonical_units_le:
  assumes "10000 \<le> units" "units \<le> (200000 :: u32)"
  shows "div_ceil units 25000 * 25000 \<le> 200000"
proof -
  have "unat units \<le> 200000" using assms(2) unfolding word_le_nat_alt by simp
  then have "(unat units + 24999) div 25000 * 25000 \<le> 200000" by simp
  then show ?thesis using canonical_units [OF assms] unfolding word_le_nat_alt by simp
qed

lemma compute_prepare_Ok_iff:
  "ComputeBudget_prepare self ps = Ok a \<longleftrightarrow>
     (\<exists>units fee. ps = ComputeBudget units fee \<and> 10000 \<le> units \<and> units \<le> 200000 \<and>
        fee \<le> 1000 \<and>
        a = prepared ''compute-budget-shape-v1'' [cb_compute_budget_program_id self]
              (le_bytes 4 (unat (div_ceil units 25000 * 25000)) @ le_bytes 8 (unat fee))
              (div_ceil units 25000 * 25000) fee 0 LowRisk)"
  by (auto simp: ComputeBudget_prepare_def Let_def not_less split: ActionParameters.splits)

lemma token_prepare_Ok_iff:
  "LocalToken_prepare self ps = Ok a \<longleftrightarrow>
     (\<exists>amount close. ps = LocalTokenHousekeeping amount close \<and> amount \<le> 1000000 \<and>
        a = prepared ''local-token-housekeeping-v1'' [lt_token_program_id self]
              (le_bytes 8 (unat amount) @ [bool_byte close]) 50000 0 amount LocalOnly)"
  by (auto simp: LocalToken_prepare_def not_less split: ActionParameters.splits)

lemma stake_prepare_Ok_iff:
  "LocalStake_prepare self ps = Ok a \<longleftrightarrow>
     (\<exists>lamports off. ps = LocalStakeLifecycle lamports off \<and> lamports \<noteq> 0 \<and>
        lamports \<le> 1000000 \<and>
        a = prepared ''local-stake-lifecycle-v1'' [ls_stake_program_id self]
              (le_bytes 8 (unat lamports) @ [bool_byte off]) 100000 0 lamports LocalOnly)"
  by (auto simp: LocalStake_prepare_def not_less split: ActionParameters.splits)

lemmas prepare_Ok_iffs =
  memo_prepare_Ok_iff compute_prepare_Ok_iff token_prepare_Ok_iff stake_prepare_Ok_iff

lemma estimate_size_small: "n \<le> 1000 \<Longrightarrow> estimate_size n \<le> 1232"
proof -
  assume "n \<le> 1000"
  then have "unat (of_nat (100 + n) :: u16) = 100 + n" unfolding unat_of_nat by simp
  with \<open>n \<le> 1000\<close> show ?thesis unfolding estimate_size_def word_le_nat_alt by simp
qed

lemma memo_size_small: "(of_nat (100 + memo_bucket n) :: u16) \<le> 1232"
  using memo_bucket_cases [of n] by auto

lemma prepared_simps [simp]:
  "ac_template_id (prepared t ps b c f v k) = t"
  "ac_program_ids (prepared t ps b c f v k) = ps"
  "ac_instruction_count (prepared t ps b c f v k) = 1"
  "ac_payload (prepared t ps b c f v k) = b"
  "ac_compute_units (prepared t ps b c f v k) = c"
  "ac_priority_fee_micro_lamports (prepared t ps b c f v k) = f"
  "ac_value (prepared t ps b c f v k) = v"
  "ac_estimated_size (prepared t ps b c f v k) = estimate_size (length b)"
  "ac_safety (prepared t ps b c f v k) = k"
  by (simp_all add: prepared_def)

interpretation memo: template_driver "MemoTemplate_driver blake3 self" for blake3 self
  by unfold_locales
    (auto simp: MemoTemplate_driver_def memo_prepare_Ok_iff within_default_limits_def
      MemoTemplate_simulate_def memo_size_small [simplified])

interpretation compute: template_driver "ComputeBudget_driver blake3 self" for blake3 self
  by unfold_locales
    (auto simp: ComputeBudget_driver_def compute_prepare_Ok_iff within_default_limits_def
      bounded_simulation_def canonical_units_le estimate_size_small leD)

interpretation token: template_driver "LocalToken_driver blake3 self" for blake3 self
  by unfold_locales
    (auto simp: LocalToken_driver_def token_prepare_Ok_iff within_default_limits_def
      bounded_simulation_def estimate_size_small leD)

interpretation stake: template_driver "LocalStake_driver blake3 self" for blake3 self
  by unfold_locales
    (auto simp: LocalStake_driver_def stake_prepare_Ok_iff within_default_limits_def
      bounded_simulation_def estimate_size_small leD)

section \<open>Properties\<close>

definition built_in_drivers ::
  "(bytes \<Rightarrow> bytes) \<Rightarrow> bytes \<Rightarrow> bytes \<Rightarrow> bytes \<Rightarrow> bytes \<Rightarrow> ActionTemplateDriver list" where
  "built_in_drivers blake3 memo_id compute_id token_id stake_id =
     [MemoTemplate_driver blake3 \<lparr>mt_memo_program_id = memo_id\<rparr>,
      ComputeBudget_driver blake3 \<lparr>cb_compute_budget_program_id = compute_id\<rparr>,
      LocalToken_driver blake3 \<lparr>lt_token_program_id = token_id\<rparr>,
      LocalStake_driver blake3 \<lparr>ls_stake_program_id = stake_id\<rparr>]"

lemma built_in_driver:
  "d \<in> set (built_in_drivers blake3 m c t s) \<Longrightarrow> template_driver d"
  by (auto simp: built_in_drivers_def memo.template_driver_axioms compute.template_driver_axioms
      token.template_driver_axioms stake.template_driver_axioms)

lemma built_in_identifiers:
  "map dr_identifier (built_in_drivers blake3 m c t s) = built_in_template_names"
  by (simp add: built_in_drivers_def built_in_template_names_def MemoTemplate_driver_def
      ComputeBudget_driver_def LocalToken_driver_def LocalStake_driver_def)

lemma default_policy_loopback:
  "default_ceilings (SafetyPolicy_default\<lparr>sp_allowed_program_ids := ps, sp_allowed_templates := ts,
     sp_dry_run := b, sp_sending_enabled := e\<rparr>)"
  by (simp add: default_ceilings_def SafetyPolicy_default_def)

text \<open>
  C29. Every action a built-in template prepares can be used under the default ceilings: its
  own simulation succeeds, and a policy with the default ceilings that lists the template and
  its program admits it for simulation against a loopback endpoint at the simulated fee, and
  for sending exactly when sending is switched on, the dry run is off, a required simulation
  has succeeded and the participant has confirmed.
\<close>

theorem built_in_actions_usable:
  assumes "d \<in> set (built_in_drivers blake3 m c t s)" "dr_prepare d ps = Ok a"
    and "policy_lists p d" "default_ceilings p" "\<not> sp_emergency_stop p" "is_loopback url"
  shows "\<exists>sim. dr_simulate d a = Ok sim \<and> sr_succeeded sim \<and>
      SafetyPolicy_validate pc p a url False False (sr_estimated_fee_lamports sim) False = Ok () \<and>
      (\<forall>simulated confirmed.
        SafetyPolicy_validate pc p a url True simulated (sr_estimated_fee_lamports sim) confirmed
          = Ok ()
        \<longleftrightarrow> \<not> sp_dry_run p \<and> sp_sending_enabled p \<and>
            (sp_simulation_required p \<longrightarrow> simulated) \<and> confirmed)"
proof -
  note d = built_in_driver [OF assms(1)]
  obtain sim where "dr_simulate d a = Ok sim" "sr_succeeded sim"
      "sr_estimated_fee_lamports sim = 5000"
    using template_driver.simulates [OF d assms(2)] by blast
  then show ?thesis
    using template_driver.dry_run_accepted [OF d assms(2-6), of 5000]
      template_driver.send_iff [OF d assms(2-6), of 5000]
    by simp
qed

theorem built_in_actions_usable_witness:
  "\<exists>sim. dr_simulate (LocalStake_driver id \<lparr>ls_stake_program_id = [7]\<rparr>)
        (prepared ''local-stake-lifecycle-v1'' [[7]] (le_bytes 8 5 @ [0]) 100000 0 5 LocalOnly)
      = Ok sim \<and> sr_succeeded sim"
proof -
  let ?d = "LocalStake_driver id \<lparr>ls_stake_program_id = [7]\<rparr>"
  let ?a = "prepared ''local-stake-lifecycle-v1'' [[7]] (le_bytes 8 5 @ [0]) 100000 0 5 LocalOnly"
  let ?p = "SafetyPolicy_default\<lparr>sp_allowed_program_ids := [[7]],
      sp_allowed_templates := [''local-stake-lifecycle-v1'']\<rparr>"
  have "?d \<in> set (built_in_drivers id [4] [5] [6] [7])" by (simp add: built_in_drivers_def)
  moreover have "dr_prepare ?d (LocalStakeLifecycle 5 False) = Ok ?a"
    by (simp add: LocalStake_driver_def LocalStake_prepare_def bool_byte_def)
  moreover have "policy_lists ?p ?d" "default_ceilings ?p" "\<not> sp_emergency_stop ?p"
      "is_loopback (Some ''127.0.0.1'')"
    by (simp_all add: policy_lists_def default_ceilings_def SafetyPolicy_default_def
        LocalStake_driver_def is_loopback_def)
  ultimately show ?thesis using built_in_actions_usable [of ?d id "[4]" "[5]" "[6]" "[7]"] by blast
qed

text \<open>
  The default policy fails closed: whatever the action, the endpoint, the flags, the fee
  and the build feature, it validates nothing, because it allows no program and an action
  without a program has the wrong shape.
\<close>

theorem default_policy_rejects_everything:
  "SafetyPolicy_validate pc SafetyPolicy_default a url sending simulated fee confirmed \<noteq> Ok ()"
  by (auto simp: validate_Ok_iff SafetyPolicy_default_def)

text \<open>
  The memo template publishes only a size class: the payload is the memo followed by
  spaces, its length is 16, 32 or 64 bytes, and two memos of the same class give actions that
  agree in everything but the payload, with the same length and the same fingerprint.
\<close>

theorem memo_publishes_size_class:
  assumes "MemoTemplate_prepare self (Memo x) = Ok a" "MemoTemplate_prepare self (Memo y) = Ok b"
    and "memo_bucket (length (utf8 x)) = memo_bucket (length (utf8 y))"
  shows "(\<exists>k. ac_payload a = utf8 x @ replicate k 32) \<and>
    length (ac_payload a) = memo_bucket (length (utf8 x)) \<and>
    length (ac_payload a) \<in> {16, 32, 64} \<and>
    b = a\<lparr>ac_payload := ac_payload b\<rparr> \<and>
    length (ac_payload b) = length (ac_payload a) \<and>
    MemoTemplate_fingerprint blake3 b = MemoTemplate_fingerprint blake3 a"
  using assms memo_bucket_cases [of "length (utf8 x)"]
    memo_bucket_ge [of "length (utf8 x)"] memo_bucket_ge [of "length (utf8 y)"]
  by (auto simp: memo_prepare_Ok_iff MemoTemplate_fingerprint_def)

theorem memo_publishes_size_class_witness:
  "MemoTemplate_fingerprint id
     \<lparr>ac_template_id = ''memo-v1'', ac_program_ids = [[4]], ac_instruction_count = 1,
      ac_payload = [104, 105] @ replicate 14 32, ac_compute_units = 10000,
      ac_priority_fee_micro_lamports = 0, ac_value = 0, ac_estimated_size = 116,
      ac_safety = LowRisk\<rparr> =
   MemoTemplate_fingerprint id
     \<lparr>ac_template_id = ''memo-v1'', ac_program_ids = [[4]], ac_instruction_count = 1,
      ac_payload = [195, 169] @ replicate 14 32, ac_compute_units = 10000,
      ac_priority_fee_micro_lamports = 0, ac_value = 0, ac_estimated_size = 116,
      ac_safety = LowRisk\<rparr>"
proof -
  have "MemoTemplate_prepare \<lparr>mt_memo_program_id = [4]\<rparr> (Memo [233]) = Ok
     \<lparr>ac_template_id = ''memo-v1'', ac_program_ids = [[4]], ac_instruction_count = 1,
      ac_payload = [195, 169] @ replicate 14 32, ac_compute_units = 10000,
      ac_priority_fee_micro_lamports = 0, ac_value = 0, ac_estimated_size = 116,
      ac_safety = LowRisk\<rparr>" by code_simp
  moreover have "MemoTemplate_prepare \<lparr>mt_memo_program_id = [4]\<rparr> (Memo [104, 105]) = Ok
     \<lparr>ac_template_id = ''memo-v1'', ac_program_ids = [[4]], ac_instruction_count = 1,
      ac_payload = [104, 105] @ replicate 14 32, ac_compute_units = 10000,
      ac_priority_fee_micro_lamports = 0, ac_value = 0, ac_estimated_size = 116,
      ac_safety = LowRisk\<rparr>" by code_simp
  moreover have "memo_bucket (length (utf8 [233])) = memo_bucket (length (utf8 [104, 105]))"
    by code_simp
  ultimately show ?thesis using memo_publishes_size_class by blast
qed

text \<open>
  The compute-budget template rounds the requested units up to the next multiple of
  25000 without overflow: the published figure is at least the request, less than one step
  above it and at most 200000, and requests of the same step with the same fee give the same
  action.
\<close>

theorem compute_units_canonical:
  assumes "ComputeBudget_prepare self (ComputeBudget units fee) = Ok a"
  shows "25000 dvd unat (ac_compute_units a) \<and>
    unat units \<le> unat (ac_compute_units a) \<and>
    unat (ac_compute_units a) < unat units + 25000 \<and>
    unat (ac_compute_units a) \<le> 200000 \<and>
    (\<forall>v. 10000 \<le> v \<and> v \<le> 200000 \<and> (unat v + 24999) div 25000 = (unat units + 24999) div 25000
       \<longrightarrow> ComputeBudget_prepare self (ComputeBudget v fee) = Ok a)"
proof -
  have u: "10000 \<le> units" "units \<le> 200000" "fee \<le> 1000"
    and a: "ac_compute_units a = div_ceil units 25000 * 25000"
    using assms by (auto simp: compute_prepare_Ok_iff)
  have c: "unat (ac_compute_units a) = (unat units + 24999) div 25000 * 25000"
    using canonical_units u a by simp
  have "unat units \<le> 200000" using u unfolding word_le_nat_alt by simp
  then have le: "unat (ac_compute_units a) \<le> 200000" unfolding c by simp
  have "ComputeBudget_prepare self (ComputeBudget v fee) = Ok a"
    if "10000 \<le> v" "v \<le> 200000" "(unat v + 24999) div 25000 = (unat units + 24999) div 25000"
    for v
  proof -
    have "div_ceil v 25000 * 25000 = div_ceil units 25000 * 25000"
      using canonical_units [OF that(1,2)] canonical_units [OF u(1,2)] that(3)
      by (simp add: word_unat_eq_iff)
    then show ?thesis using assms that u by (auto simp: compute_prepare_Ok_iff)
  qed
  moreover have "unat units \<le> (unat units + 24999) div 25000 * 25000"
      "(unat units + 24999) div 25000 * 25000 < unat units + 25000" by linarith+
  ultimately show ?thesis using le unfolding c by auto
qed

theorem compute_units_canonical_witness:
  "25000 dvd unat (50000 :: u32) \<and>
   ComputeBudget_prepare \<lparr>cb_compute_budget_program_id = [5]\<rparr> (ComputeBudget 26000 7) =
   Ok (prepared ''compute-budget-shape-v1'' [[5]] (le_bytes 4 50000 @ le_bytes 8 7)
        50000 7 0 LowRisk)"
proof -
  have "ComputeBudget_prepare \<lparr>cb_compute_budget_program_id = [5]\<rparr> (ComputeBudget 30000 7) =
   Ok (prepared ''compute-budget-shape-v1'' [[5]] (le_bytes 4 50000 @ le_bytes 8 7)
        50000 7 0 LowRisk)"
    by (simp add: ComputeBudget_prepare_def div_ceil_def)
  from compute_units_canonical [OF this] show ?thesis by simp
qed

end
