(* ===== verification/MP_Merkle.thy ===== *)
theory MP_Merkle
  imports MP_Core
begin

text \<open>
  The Merkle cohort crate (\<open>src/crates/mirror-pool-merkle/src/lib.rs\<close>): construction of
  the level table from sorted leaves, inclusion proofs and their verification. The hash is
  \<open>Digest32_hash blake3\<close> under the domain \<open>merkle-node\<close>, for an arbitrary \<open>blake3\<close>.
\<close>

section \<open>Data\<close>

definition MAX_LEAVES :: nat where
  "MAX_LEAVES = 100000"

record CohortProof =
  cp_leaf_hash :: Digest32
  cp_leaf_index :: u32
  cp_sibling_hashes :: "Digest32 list"
  cp_merkle_root :: Digest32
  cp_round_id :: u64

record MerkleCohort =
  mc_leaves :: "Digest32 list"
  mc_levels :: "Digest32 list list"

datatype MerkleError =
    EmptyTree
  | TooManyLeaves
  | DuplicateLeaf
  | LeafNotFound
  | WrongRound
  | WrongRoot
  | InvalidProof

section \<open>Operations\<close>

definition parent :: "(bytes \<Rightarrow> bytes) \<Rightarrow> Digest32 \<Rightarrow> Digest32 \<Rightarrow> Digest32" where
  "parent blake3 left right =
     Digest32_hash blake3 (ascii ''merkle-node'') (digest_bytes left @ digest_bytes right)"

text \<open>One pass of the inner loop: chunks of two, an odd last node paired with itself.\<close>

fun next_level :: "(bytes \<Rightarrow> bytes) \<Rightarrow> Digest32 list \<Rightarrow> Digest32 list" where
  "next_level blake3 [] = []"
| "next_level blake3 [a] = [parent blake3 a a]"
| "next_level blake3 (a # b # rest) = parent blake3 a b # next_level blake3 rest"

lemma length_next_level [simp]: "length (next_level blake3 xs) = (length xs + 1) div 2"
  by (induction blake3 xs rule: next_level.induct) auto

lemma next_level_eq_Nil [simp]: "next_level blake3 xs = [] \<longleftrightarrow> xs = []"
  by (cases "(blake3, xs)" rule: next_level.cases) auto

text \<open>The loop \<open>while levels.last().map_or(0, Vec::len) > 1\<close>.\<close>

definition last_len :: "'a list list \<Rightarrow> nat" where
  "last_len levels = (if levels = [] then 0 else length (last levels))"

function extend_levels :: "(bytes \<Rightarrow> bytes) \<Rightarrow> Digest32 list list \<Rightarrow> Digest32 list list" where
  "extend_levels blake3 levels =
     (if last_len levels > 1
      then extend_levels blake3 (levels @ [next_level blake3 (last levels)])
      else levels)"
  by pat_completeness auto
termination
  by (relation "measure (\<lambda>(blake3, levels). last_len levels)")
    (auto simp: last_len_def split: if_splits)

declare extend_levels.simps [simp del]

text \<open>\<open>leaves.windows(2).any(|pair| pair[0] == pair[1])\<close>\<close>

definition adjacent_equal :: "'a list \<Rightarrow> bool" where
  "adjacent_equal xs = list_ex (\<lambda>(a, b). a = b) (zip xs (tl xs))"

definition MerkleCohort_build ::
  "(bytes \<Rightarrow> bytes) \<Rightarrow> Digest32 list \<Rightarrow> (MerkleCohort, MerkleError) result" where
  "MerkleCohort_build blake3 leaves =
    (if leaves = [] then Err EmptyTree
     else if length leaves > MAX_LEAVES then Err TooManyLeaves
     else let leaves = sort leaves in
       if adjacent_equal leaves then Err DuplicateLeaf
       else Ok \<lparr>mc_leaves = leaves, mc_levels = extend_levels blake3 [leaves]\<rparr>)"

definition MerkleCohort_root :: "MerkleCohort \<Rightarrow> (Digest32, MerkleError) result" where
  "MerkleCohort_root self =
    (if mc_levels self = [] then Err EmptyTree
     else case last (mc_levels self) of [] \<Rightarrow> Err EmptyTree | d # _ \<Rightarrow> Ok d)"

text \<open>
  The loop that collects siblings. \<open>unwrap_or(level[index])\<close> evaluates \<open>level[index]\<close>
  whether or not the sibling exists, so an index out of bounds panics.
\<close>

fun collect_siblings :: "Digest32 list list \<Rightarrow> nat \<Rightarrow> (Digest32 list, MerkleError) result" where
  "collect_siblings [] index = Ok []"
| "collect_siblings (level # levels) index =
     (let sibling_index = if index mod 2 = 0 then index + 1 else index - 1 in
      and_then (index_slice level index) (\<lambda>own.
      let sibling = case get_slice level sibling_index of Some d \<Rightarrow> d | None \<Rightarrow> own in
      and_then (collect_siblings levels (index div 2)) (\<lambda>siblings.
      Ok (sibling # siblings))))"

definition MerkleCohort_proof ::
  "MerkleCohort \<Rightarrow> Digest32 \<Rightarrow> u64 \<Rightarrow> (CohortProof, MerkleError) result" where
  "MerkleCohort_proof self leaf round_id =
    and_then (ok_or (binary_search (mc_leaves self) leaf) LeafNotFound) (\<lambda>index.
    and_then (ensure (index < 2 ^ 32) TooManyLeaves) (\<lambda>_.
    and_then (collect_siblings (take (length (mc_levels self) - 1) (mc_levels self)) index)
      (\<lambda>siblings.
    and_then (MerkleCohort_root self) (\<lambda>root.
    Ok \<lparr>cp_leaf_hash = leaf, cp_leaf_index = of_nat index, cp_sibling_hashes = siblings,
        cp_merkle_root = root, cp_round_id = round_id\<rparr>))))"

text \<open>The loop of \<open>verify\<close>. A \<open>u32\<close> always fits a \<open>usize\<close> on the supported targets.\<close>

fun fold_path :: "(bytes \<Rightarrow> bytes) \<Rightarrow> Digest32 \<Rightarrow> nat \<Rightarrow> Digest32 list \<Rightarrow> Digest32" where
  "fold_path blake3 node index [] = node"
| "fold_path blake3 node index (sibling # siblings) =
     fold_path blake3
       (if index mod 2 = 0 then parent blake3 node sibling else parent blake3 sibling node)
       (index div 2) siblings"

definition CohortProof_verify ::
  "(bytes \<Rightarrow> bytes) \<Rightarrow> CohortProof \<Rightarrow> Digest32 \<Rightarrow> u64 \<Rightarrow> (unit, MerkleError) result" where
  "CohortProof_verify blake3 self expected_root expected_round =
    (if cp_round_id self \<noteq> expected_round then Err WrongRound
     else if cp_merkle_root self \<noteq> expected_root then Err WrongRoot
     else if fold_path blake3 (cp_leaf_hash self) (unat (cp_leaf_index self))
               (cp_sibling_hashes self) \<noteq> expected_root
     then Err InvalidProof
     else Ok ())"

section \<open>The level table\<close>

text \<open>The levels above and including \<open>xs\<close>, as a recursion on the current level.\<close>

function tower :: "(bytes \<Rightarrow> bytes) \<Rightarrow> Digest32 list \<Rightarrow> Digest32 list list" where
  "tower blake3 xs =
     (if length xs > 1 then xs # tower blake3 (next_level blake3 xs) else [xs])"
  by pat_completeness auto
termination
  by (relation "measure (\<lambda>(blake3, xs). length xs)") auto

declare tower.simps [simp del]

lemma tower_small: "length xs \<le> 1 \<Longrightarrow> tower blake3 xs = [xs]"
  by (simp add: tower.simps)

lemma tower_step:
  "1 < length xs \<Longrightarrow> tower blake3 xs = xs # tower blake3 (next_level blake3 xs)"
  by (subst tower.simps) simp

lemma tower_nonempty [simp]: "tower blake3 xs \<noteq> []"
  by (subst tower.simps) simp

lemma extend_levels_tower:
  "extend_levels blake3 (pre @ [xs]) = pre @ tower blake3 xs"
proof (induction blake3 xs arbitrary: pre rule: tower.induct)
  case (1 blake3 xs)
  show ?case
  proof (cases "1 < length xs")
    case True
    then have "extend_levels blake3 (pre @ [xs])
        = extend_levels blake3 ((pre @ [xs]) @ [next_level blake3 xs])"
      by (simp add: extend_levels.simps [of blake3 "pre @ [xs]"] last_len_def)
    also have "\<dots> = (pre @ [xs]) @ tower blake3 (next_level blake3 xs)"
      using "1.IH" [OF True] by blast
    finally show ?thesis using True by (simp add: tower_step)
  next
    case False
    then show ?thesis
      by (simp add: extend_levels.simps [of blake3 "pre @ [xs]"] last_len_def tower_small)
  qed
qed

lemma extend_levels_singleton: "extend_levels blake3 [xs] = tower blake3 xs"
  using extend_levels_tower [of blake3 "[]" xs] by simp

lemma last_tower_length: "xs \<noteq> [] \<Longrightarrow> length (last (tower blake3 xs)) = 1"
proof (induction blake3 xs rule: tower.induct)
  case (1 blake3 xs)
  show ?case
  proof (cases "1 < length xs")
    case True
    then show ?thesis using "1.IH" [OF True] "1.prems" by (simp add: tower_step)
  next
    case False
    then show ?thesis using "1.prems" by (cases xs) (simp_all add: tower_small)
  qed
qed

lemma next_level_nth:
  assumes "i < length xs"
  shows "next_level blake3 xs ! (i div 2) =
    (if i mod 2 = 0
     then parent blake3 (xs ! i) (if i + 1 < length xs then xs ! (i + 1) else xs ! i)
     else parent blake3 (xs ! (i - 1)) (xs ! i))"
  using assms
proof (induction blake3 xs arbitrary: i rule: next_level.induct)
  case (3 blake3 a b rest)
  show ?case
  proof (cases "i < 2")
    case True
    then consider "i = 0" | "i = 1" by linarith
    then show ?thesis by cases simp_all
  next
    case False
    then obtain j where j: "i = j + 2" by (metis add.commute le_Suc_ex not_less)
    then have "j < length rest" using "3.prems" by simp
    from "3.IH" [OF this] show ?thesis
      using j by (cases "j mod 2 = 0") (auto simp: mod2_eq_if nth_Cons' split: if_splits)
  qed
qed auto

lemma half_less_next_level: "i < length xs \<Longrightarrow> i div 2 < length (next_level blake3 xs)"
  by simp

text \<open>The path collected below the root folds back to the root.\<close>

lemma collect_fold_tower:
  assumes "i < length xs"
  shows "\<exists>siblings. collect_siblings (butlast (tower blake3 xs)) i = Ok siblings
       \<and> length siblings = length (tower blake3 xs) - 1
       \<and> fold_path blake3 (xs ! i) i siblings = hd (last (tower blake3 xs))"
  using assms
proof (induction blake3 xs arbitrary: i rule: tower.induct)
  case (1 blake3 xs)
  show ?case
  proof (cases "1 < length xs")
    case True
    let ?up = "next_level blake3 xs"
    let ?sib = "if i mod 2 = 0 then (if i + 1 < length xs then xs ! (i + 1) else xs ! i)
                else xs ! (i - 1)"
    obtain siblings where sib:
      "collect_siblings (butlast (tower blake3 ?up)) (i div 2) = Ok siblings"
      "length siblings = length (tower blake3 ?up) - 1"
      "fold_path blake3 (?up ! (i div 2)) (i div 2) siblings = hd (last (tower blake3 ?up))"
      using "1.IH" [OF True half_less_next_level [OF "1.prems"]] by blast
    have "collect_siblings (butlast (tower blake3 xs)) i = Ok (?sib # siblings)"
      using True "1.prems" sib(1)
      by (auto simp: tower_step index_slice_def get_slice_def Let_def)
    moreover have "fold_path blake3 (xs ! i) i (?sib # siblings)
        = hd (last (tower blake3 xs))"
      using True sib(3) next_level_nth [OF "1.prems", of blake3]
      by (cases "i mod 2 = 0") (simp_all add: tower_step)
    moreover have "length (?sib # siblings) = length (tower blake3 xs) - 1"
      using True sib(2) by (simp add: tower_step)
    ultimately show ?thesis by blast
  next
    case False
    then have "xs = [xs ! 0]" "i = 0" using "1.prems" by (cases xs; simp)+
    then show ?thesis using False by (auto simp: tower_small) (metis list.sel(1))
  qed
qed

section \<open>Construction\<close>

lemma adjacent_equal_iff:
  "adjacent_equal xs \<longleftrightarrow> (\<exists>i. Suc i < length xs \<and> xs ! i = xs ! Suc i)"
  by (auto simp: adjacent_equal_def list_ex_length nth_tl less_diff_conv)

lemma adjacent_equal_sort [simp]: "adjacent_equal (sort xs) \<longleftrightarrow> \<not> distinct (xs :: 'a::linorder list)"
  using sorted_adjacent_distinct [of "sort xs"] by (simp add: adjacent_equal_iff)

lemma build_Ok_iff [result_simps]:
  "MerkleCohort_build blake3 leaves = Ok t \<longleftrightarrow>
     leaves \<noteq> [] \<and> length leaves \<le> MAX_LEAVES \<and> distinct leaves
   \<and> t = \<lparr>mc_leaves = sort leaves, mc_levels = tower blake3 (sort leaves)\<rparr>"
  by (auto simp: MerkleCohort_build_def Let_def extend_levels_singleton)

lemma root_tower:
  "xs \<noteq> [] \<Longrightarrow>
   MerkleCohort_root \<lparr>mc_leaves = ys, mc_levels = tower blake3 xs\<rparr>
     = Ok (hd (last (tower blake3 xs)))"
  using last_tower_length [of xs blake3]
  by (auto simp: MerkleCohort_root_def split: list.splits)

text \<open>
  Building a cohort fails exactly on an empty leaf list, on more than 100000 leaves
  and on duplicate leaves, in this order of precedence; otherwise it succeeds, and the
  construction never panics.
\<close>

theorem build_outcomes:
  "MerkleCohort_build blake3 leaves =
    (if leaves = [] then Err EmptyTree
     else if 100000 < length leaves then Err TooManyLeaves
     else if \<not> distinct leaves then Err DuplicateLeaf
     else Ok \<lparr>mc_leaves = sort leaves, mc_levels = tower blake3 (sort leaves)\<rparr>)"
  by (simp add: MerkleCohort_build_def Let_def extend_levels_singleton MAX_LEAVES_def)

lemma build_perm_eq:
  assumes "mset leaves = mset leaves'"
  shows "MerkleCohort_build blake3 leaves = MerkleCohort_build blake3 leaves'"
proof -
  have "length leaves = length leaves'" using assms by (rule mset_eq_length)
  moreover have "leaves = [] \<longleftrightarrow> leaves' = []" using assms by auto
  moreover have "sort leaves = sort leaves'" using assms by (rule sort_perm_eq)
  ultimately show ?thesis by (simp add: MerkleCohort_build_def)
qed

text \<open>
  The cohort does not depend on the order in which leaves arrive: permuted leaf lists
  build the same tree, hence the same root and the same proofs.
\<close>

theorem build_order_independent:
  assumes "mset leaves = mset leaves'"
  shows "MerkleCohort_build blake3 leaves = MerkleCohort_build blake3 leaves'"
  using assms by (rule build_perm_eq)

theorem build_order_independent_witness:
  "MerkleCohort_build (\<lambda>_. []) [Digest32 [1], Digest32 [2]]
     = MerkleCohort_build (\<lambda>_. []) [Digest32 [2], Digest32 [1]]"
  using build_order_independent [of "[Digest32 [1], Digest32 [2]]" "[Digest32 [2], Digest32 [1]]"]
  by simp

section \<open>Completeness of proofs\<close>

lemma proof_of_member:
  assumes "MerkleCohort_build blake3 leaves = Ok t" "leaf \<in> set leaves"
  obtains p root i where
    "MerkleCohort_proof t leaf rid = Ok p" "MerkleCohort_root t = Ok root"
    "i < length leaves" "sort leaves ! i = leaf"
    "cp_leaf_hash p = leaf" "cp_merkle_root p = root" "cp_round_id p = rid"
    "cp_leaf_index p = of_nat i" "unat (cp_leaf_index p) = i"
    "length (cp_sibling_hashes p) = length (mc_levels t) - 1"
    "fold_path blake3 leaf i (cp_sibling_hashes p) = root"
proof -
  from assms(1) have leaves: "leaves \<noteq> []" "length leaves \<le> MAX_LEAVES" "distinct leaves"
    and t: "t = \<lparr>mc_leaves = sort leaves, mc_levels = tower blake3 (sort leaves)\<rparr>"
    by (auto simp: build_Ok_iff)
  from assms(2) obtain i where i: "i < length (sort leaves)" "sort leaves ! i = leaf"
    by (metis in_set_conv_nth set_sort)
  then have search: "binary_search (sort leaves) leaf = Some i"
    using leaves(3) by (simp add: binary_search_iff)
  have small: "i < 2 ^ 32"
    using i(1) leaves(2) by (simp add: MAX_LEAVES_def)
  obtain siblings where sib:
    "collect_siblings (butlast (tower blake3 (sort leaves))) i = Ok siblings"
    "length siblings = length (tower blake3 (sort leaves)) - 1"
    "fold_path blake3 (sort leaves ! i) i siblings = hd (last (tower blake3 (sort leaves)))"
    using collect_fold_tower [OF i(1), of blake3] by blast
  have root: "MerkleCohort_root t = Ok (hd (last (tower blake3 (sort leaves))))"
    using leaves(1) t by (simp add: root_tower)
  let ?p = "\<lparr>cp_leaf_hash = leaf, cp_leaf_index = of_nat i, cp_sibling_hashes = siblings,
      cp_merkle_root = hd (last (tower blake3 (sort leaves))), cp_round_id = rid\<rparr>"
  have "MerkleCohort_proof t leaf rid = Ok ?p"
    using search small sib(1) root t
    by (simp add: MerkleCohort_proof_def butlast_conv_take)
  moreover have "unat (cp_leaf_index ?p) = i"
    using small by (simp add: unat_of_nat)
  ultimately show ?thesis using that [OF _ root] i sib(2,3) t by simp
qed

lemma member_proof_verifies:
  assumes "MerkleCohort_build blake3 leaves = Ok t" "leaf \<in> set leaves"
  shows "\<exists>p root. MerkleCohort_proof t leaf rid = Ok p \<and> MerkleCohort_root t = Ok root
     \<and> unat (cp_leaf_index p) < length leaves
     \<and> sort leaves ! unat (cp_leaf_index p) = leaf
     \<and> cp_leaf_hash p = leaf
     \<and> length (cp_sibling_hashes p) = length (mc_levels t) - 1
     \<and> CohortProof_verify blake3 p root rid = Ok ()"
  using assms
  by (rule proof_of_member [where rid = rid])
    (auto simp: CohortProof_verify_def simp del: unat_of_nat)

text \<open>
  C4. Every member of a cohort can prove its membership: for a built cohort and one of
  its leaves, proof generation succeeds without panicking, the proof carries the leaf's
  position in sorted order, and verification accepts it against the cohort's root and
  round. A digest that is not a leaf gets no proof.
\<close>

theorem proofs_complete:
  assumes "MerkleCohort_build blake3 leaves = Ok t"
  shows "(leaf \<in> set leaves \<longrightarrow>
       (\<exists>p root. MerkleCohort_proof t leaf rid = Ok p \<and> MerkleCohort_root t = Ok root
          \<and> cp_leaf_hash p = leaf
          \<and> sort leaves ! unat (cp_leaf_index p) = leaf
          \<and> CohortProof_verify blake3 p root rid = Ok ()))
     \<and> (leaf \<notin> set leaves \<longrightarrow> MerkleCohort_proof t leaf rid = Err LeafNotFound)"
proof (intro conjI impI)
  assume "leaf \<in> set leaves"
  from member_proof_verifies [OF assms this, of rid]
  show "\<exists>p root. MerkleCohort_proof t leaf rid = Ok p \<and> MerkleCohort_root t = Ok root
      \<and> cp_leaf_hash p = leaf \<and> sort leaves ! unat (cp_leaf_index p) = leaf
      \<and> CohortProof_verify blake3 p root rid = Ok ()"
    by blast
next
  assume "leaf \<notin> set leaves"
  then have "binary_search (mc_leaves t) leaf = None"
    using assms by (auto simp: build_Ok_iff binary_search_None_iff)
  then show "MerkleCohort_proof t leaf rid = Err LeafNotFound"
    by (simp add: MerkleCohort_proof_def)
qed

theorem proofs_complete_witness:
  "\<exists>t p root. MerkleCohort_build (\<lambda>_. [7]) [Digest32 [1], Digest32 [2]] = Ok t
     \<and> MerkleCohort_proof t (Digest32 [2]) 3 = Ok p \<and> MerkleCohort_root t = Ok root
     \<and> CohortProof_verify (\<lambda>_. [7]) p root 3 = Ok ()
     \<and> MerkleCohort_proof t (Digest32 [5]) 3 = Err LeafNotFound"
proof -
  obtain t where t: "MerkleCohort_build (\<lambda>_. [7]) [Digest32 [1], Digest32 [2]] = Ok t"
    by (simp add: build_Ok_iff MAX_LEAVES_def)
  show ?thesis
    using t proofs_complete [OF t, of "Digest32 [2]" 3]
      proofs_complete [OF t, of "Digest32 [5]" 3] by auto
qed

section \<open>Depth\<close>

lemma tower_length_bound: "length xs \<le> 2 ^ k \<Longrightarrow> length (tower blake3 xs) \<le> Suc k"
proof (induction blake3 xs arbitrary: k rule: tower.induct)
  case (1 blake3 xs)
  show ?case
  proof (cases "1 < length xs")
    case True
    then obtain j where j: "k = Suc j"
      using "1.prems" by (cases k) auto
    then have "length (next_level blake3 xs) \<le> 2 ^ j" using "1.prems" by simp
    then have "length (tower blake3 (next_level blake3 xs)) \<le> Suc j"
      by (rule "1.IH" [OF True])
    then show ?thesis using True j by (simp add: tower_step)
  next
    case False
    then show ?thesis by (simp add: tower_small)
  qed
qed

lemma tower_length_lower: "2 ^ k < length xs \<Longrightarrow> Suc k < length (tower blake3 xs)"
proof (induction k arbitrary: xs)
  case 0
  then have "0 < length (tower blake3 (next_level blake3 xs))" by simp
  then show ?case using 0 by (simp add: tower_step)
next
  case (Suc k)
  then have "1 < length xs" using one_le_power [of "2 :: nat" "Suc k"] by linarith
  moreover have "2 ^ k < length (next_level blake3 xs)" using Suc.prems by simp
  then have "Suc k < length (tower blake3 (next_level blake3 xs))" by (rule Suc.IH)
  ultimately show ?case by (simp add: tower_step)
qed

text \<open>
  C15. A proof is logarithmic in the cohort: the number of its siblings is the least \<open>j\<close> such
  that the cohort has at most \<open>2 ^ j\<close> leaves (none for a single leaf, and \<open>k + 1\<close> for more than
  \<open>2 ^ k\<close> and at most \<open>2 ^ (k + 1)\<close> leaves), so no proof of the program has more than 17.
\<close>

theorem proof_depth:
  assumes "MerkleCohort_build blake3 leaves = Ok t" "MerkleCohort_proof t leaf rid = Ok p"
  shows "length (cp_sibling_hashes p) \<le> 17
    \<and> (\<forall>j. length leaves \<le> 2 ^ j \<longleftrightarrow> length (cp_sibling_hashes p) \<le> j)"
proof -
  have t: "mc_levels t = tower blake3 (sort leaves)" "length leaves \<le> 2 ^ 17"
    using assms(1) by (auto simp: build_Ok_iff MAX_LEAVES_def)
  have "leaf \<in> set leaves"
    using assms by (auto simp: build_Ok_iff MerkleCohort_proof_def result_simps
        binary_search_iff) (metis nth_mem length_sort set_sort)
  then have len: "length (cp_sibling_hashes p) = length (tower blake3 (sort leaves)) - 1"
    using proof_of_member [OF assms(1), of leaf rid] assms(2) t(1) by (metis result.inject(1))
  have "length leaves \<le> 2 ^ j \<longleftrightarrow> length (cp_sibling_hashes p) \<le> j" for j
    using len tower_length_bound [of "sort leaves" j blake3]
      tower_length_lower [of j "sort leaves" blake3] by fastforce
  then show ?thesis using t(2) by blast
qed

theorem proof_depth_witness:
  "(\<exists>t p. MerkleCohort_build (\<lambda>_. [7]) [Digest32 [1], Digest32 [2], Digest32 [3]] = Ok t
     \<and> MerkleCohort_proof t (Digest32 [3]) 0 = Ok p \<and> length (cp_sibling_hashes p) = 2)
   \<and> (\<exists>t p. MerkleCohort_build (\<lambda>_. [7]) [Digest32 [1]] = Ok t
     \<and> MerkleCohort_proof t (Digest32 [1]) 0 = Ok p \<and> cp_sibling_hashes p = [])"
proof -
  let ?ls = "[Digest32 [1], Digest32 [2], Digest32 [3]]"
  obtain t where t: "MerkleCohort_build (\<lambda>_. [7]) ?ls = Ok t"
    by (simp add: build_Ok_iff MAX_LEAVES_def)
  obtain p where p: "MerkleCohort_proof t (Digest32 [3]) 0 = Ok p"
    using proof_of_member [OF t, of "Digest32 [3]" 0] by auto
  obtain t1 where t1: "MerkleCohort_build (\<lambda>_. [7]) [Digest32 [1]] = Ok t1"
    by (simp add: build_Ok_iff MAX_LEAVES_def)
  obtain p1 where p1: "MerkleCohort_proof t1 (Digest32 [1]) 0 = Ok p1"
    using proof_of_member [OF t1, of "Digest32 [1]" 0] by auto
  have least: "\<forall>j. length ?ls \<le> 2 ^ j \<longleftrightarrow> length (cp_sibling_hashes p) \<le> j"
    using proof_depth [OF t p] by blast
  have "length (cp_sibling_hashes p) = 2"
    using least [rule_format, of 1] least [rule_format, of 2] by simp
  moreover have "length [Digest32 [1]] \<le> 2 ^ 0 \<longleftrightarrow> length (cp_sibling_hashes p1) \<le> 0"
    using proof_depth [OF t1 p1] by blast
  ultimately show ?thesis using t p t1 p1 by auto
qed

section \<open>Soundness of verification\<close>

text \<open>The two arguments of \<open>parent\<close> at a step of a path, and at all its steps.\<close>

definition step_pair :: "Digest32 \<Rightarrow> nat \<Rightarrow> Digest32 \<Rightarrow> Digest32 \<times> Digest32" where
  "step_pair node index sibling =
     (if index mod 2 = 0 then (node, sibling) else (sibling, node))"

fun path_pairs ::
  "(bytes \<Rightarrow> bytes) \<Rightarrow> Digest32 \<Rightarrow> nat \<Rightarrow> Digest32 list \<Rightarrow> (Digest32 \<times> Digest32) list" where
  "path_pairs blake3 n i [] = []"
| "path_pairs blake3 n i (s # ss) = step_pair n i s
     # path_pairs blake3 (case_prod (parent blake3) (step_pair n i s)) (i div 2) ss"

text \<open>The pairs that are hashed into the next level, and into all levels of a cohort.\<close>

fun level_pairs :: "Digest32 list \<Rightarrow> (Digest32 \<times> Digest32) list" where
  "level_pairs [] = []"
| "level_pairs [a] = [(a, a)]"
| "level_pairs (a # b # rest) = (a, b) # level_pairs rest"

definition tree_pairs :: "Digest32 list list \<Rightarrow> (Digest32 \<times> Digest32) list" where
  "tree_pairs levels = concat (map level_pairs (butlast levels))"

lemma next_level_pairs: "next_level blake3 xs = map (case_prod (parent blake3)) (level_pairs xs)"
  by (induction xs rule: level_pairs.induct) simp_all

lemma level_pairs_members: "(l, r) \<in> set (level_pairs xs) \<Longrightarrow> l \<in> set xs \<and> r \<in> set xs"
  by (induction xs rule: level_pairs.induct) auto

lemma level_pairs_nth:
  assumes "i < length xs"
  shows "level_pairs xs ! (i div 2) =
    (if i mod 2 = 0 then (xs ! i, if i + 1 < length xs then xs ! (i + 1) else xs ! i)
     else (xs ! (i - 1), xs ! i))"
  using assms
proof (induction xs arbitrary: i rule: level_pairs.induct)
  case (3 a b rest)
  show ?case
  proof (cases "i < 2")
    case True
    then consider "i = 0" | "i = 1" by linarith
    then show ?thesis by cases simp_all
  next
    case False
    then obtain j where j: "i = j + 2" by (metis add.commute le_Suc_ex not_less)
    then have "j < length rest" using "3.prems" by simp
    from "3.IH" [OF this] show ?thesis
      using j by (cases "j mod 2 = 0") (auto simp: mod2_eq_if nth_Cons' split: if_splits)
  qed
qed auto

lemma tree_pairs_step:
  "1 < length xs \<Longrightarrow> tree_pairs (tower blake3 xs)
     = level_pairs xs @ tree_pairs (tower blake3 (next_level blake3 xs))"
  by (simp add: tree_pairs_def tower_step)

lemma fold_path_step:
  "fold_path blake3 n i (s # ss)
     = fold_path blake3 (case_prod (parent blake3) (step_pair n i s)) (i div 2) ss"
  by (simp add: step_pair_def)

lemma fold_path_last:
  "ss \<noteq> [] \<Longrightarrow> \<exists>c \<in> set (path_pairs blake3 n i ss). case_prod (parent blake3) c = fold_path blake3 n i ss"
proof (induction ss arbitrary: n i)
  case (Cons s ss)
  then show ?case
    by (cases "ss = []") (auto simp: fold_path_step simp del: fold_path.simps(2) intro: fold_path.simps(1) [symmetric])
qed simp

lemma path_pair_node:
  "c \<in> set (path_pairs blake3 n i ss) \<Longrightarrow>
    \<exists>m j s. c = step_pair m j s \<and> s \<in> set ss
      \<and> (m = n \<or> m \<in> case_prod (parent blake3) ` set (path_pairs blake3 n i ss))"
proof (induction ss arbitrary: n i)
  case (Cons s ss)
  then show ?case by fastforce
qed simp

text \<open>
  Follow an accepted path down from the root: as long as no pair of the path and a different
  pair of the cohort have the same parent, they agree. So either the path starts at the leaf of
  its position, or it is shorter and starts at an inner node, or it is longer and a leaf of the
  cohort is itself the parent of a pair.
\<close>

lemma path_in_tower:
  assumes "xs \<noteq> []" "fold_path blake3 n i ss = hd (last (tower blake3 xs))"
    and "\<forall>c \<in> set (path_pairs blake3 n i ss). \<forall>c' \<in> set (tree_pairs (tower blake3 xs)).
      case_prod (parent blake3) c = case_prod (parent blake3) c' \<longrightarrow> c = c'"
  shows "length ss = length (tower blake3 xs) - 1 \<and> n \<in> set xs \<and> (i < length xs \<longrightarrow> n = xs ! i)
    \<or> length ss < length (tower blake3 xs) - 1
        \<and> n \<in> case_prod (parent blake3) ` set (tree_pairs (tower blake3 xs))
    \<or> length ss > length (tower blake3 xs) - 1
        \<and> (\<exists>c \<in> set (path_pairs blake3 n i ss). case_prod (parent blake3) c \<in> set xs)"
  using assms
proof (induction blake3 xs arbitrary: n i ss rule: tower.induct)
  case (1 blake3 xs)
  let ?up = "next_level blake3 xs" and ?p = "case_prod (parent blake3)"
  show ?case
  proof (cases "1 < length xs")
    case False
    then obtain x where x: "xs = [x]" using "1.prems"(1) by (cases xs) auto
    then have root: "fold_path blake3 n i ss = x" using "1.prems"(2) by (simp add: tower_small)
    show ?thesis
    proof (cases "ss = []")
      case False
      then show ?thesis using fold_path_last [OF False, of blake3 n i] x root
        by (auto simp: tower_small)
    qed (use x root in \<open>simp add: tower_small\<close>)
  next
    case True
    have up: "?up \<noteq> []" using True by (metis list.size(3) next_level_eq_Nil not_less_zero)
    have tw: "length (tower blake3 xs) = Suc (length (tower blake3 ?up))"
      "last (tower blake3 xs) = last (tower blake3 ?up)"
      using True by (simp_all add: tower_step)
    have pos: "length (tower blake3 ?up) > 0" by simp
    note pairs = tree_pairs_step [OF True, of blake3]
    show ?thesis
    proof (cases "length ss < length (tower blake3 ?up)")
      case short: True
      have "length ss = length (tower blake3 ?up) - 1 \<and> n \<in> set ?up
        \<or> n \<in> ?p ` set (tree_pairs (tower blake3 ?up))"
        using "1.IH" [OF True up, of n i ss] "1.prems"(2,3) short by (auto simp: tw pairs)
      then have "n \<in> ?p ` set (tree_pairs (tower blake3 xs))"
        by (auto simp: pairs next_level_pairs)
      then show ?thesis using short by (simp add: tw)
    next
      case False
      then obtain s ss' where ss: "ss = s # ss'" using pos by (cases ss) auto
      let ?c = "step_pair n i s" and ?j = "i div 2"
      have inner: "c = c'" if "c \<in> set (path_pairs blake3 n i ss)" "c' \<in> set (level_pairs xs)"
        "?p c = ?p c'" for c c' using "1.prems"(3) that by (auto simp: pairs)
      have "length ss' = length (tower blake3 ?up) - 1 \<and> ?p ?c \<in> set ?up
            \<and> (?j < length ?up \<longrightarrow> ?p ?c = ?up ! ?j)
        \<or> length ss' > length (tower blake3 ?up) - 1
            \<and> (\<exists>c \<in> set (path_pairs blake3 (?p ?c) ?j ss'). ?p c \<in> set ?up)"
        using "1.IH" [OF True up, of "?p ?c" ?j ss'] "1.prems"(2,3) False pos
        unfolding ss by (auto simp: tw pairs fold_path_step simp del: fold_path.simps(2))
      then show ?thesis
      proof (elim disjE conjE bexE)
        assume len: "length ss' = length (tower blake3 ?up) - 1" and mem: "?p ?c \<in> set ?up"
          and at: "?j < length ?up \<longrightarrow> ?p ?c = ?up ! ?j"
        have first: "?c \<in> set (path_pairs blake3 n i ss)" by (simp add: ss)
        obtain c' where "c' \<in> set (level_pairs xs)" "?p ?c = ?p c'"
          using mem by (auto simp: next_level_pairs)
        then have "?c \<in> set (level_pairs xs)" using inner [OF first] by simp
        then have "n \<in> set xs" using level_pairs_members
          by (cases "i mod 2 = 0") (auto simp: step_pair_def dest: level_pairs_members)
        moreover have "n = xs ! i" if "i < length xs"
        proof -
          have small: "?j < length (level_pairs xs)"
            using half_less_next_level [OF that, of blake3] by (simp add: next_level_pairs)
          then have "?p ?c = ?p (level_pairs xs ! ?j)" using at by (simp add: next_level_pairs)
          then have "?c = level_pairs xs ! ?j" using inner [OF first nth_mem [OF small]] by simp
          then show ?thesis using level_pairs_nth [OF that]
            by (auto simp: step_pair_def split: if_splits)
        qed
        ultimately show ?thesis using len pos by (auto simp: ss tw)
      next
        fix c assume len: "length ss' > length (tower blake3 ?up) - 1"
          and c: "c \<in> set (path_pairs blake3 (?p ?c) ?j ss')" and mem: "?p c \<in> set ?up"
        obtain c' where "c' \<in> set (level_pairs xs)" "?p c = ?p c'"
          using mem by (auto simp: next_level_pairs)
        then have lvl: "c \<in> set (level_pairs xs)" using inner [of c c'] c by (simp add: ss)
        obtain m k s' where m: "c = step_pair m k s'"
          "m = ?p ?c \<or> m \<in> ?p ` set (path_pairs blake3 (?p ?c) ?j ss')"
          using path_pair_node [OF c] by blast
        have "m \<in> set xs" using lvl m(1)
          by (cases "k mod 2 = 0") (auto simp: step_pair_def dest: level_pairs_members)
        moreover have "m \<in> ?p ` set (path_pairs blake3 n i ss)" using m(2) by (auto simp: ss)
        ultimately show ?thesis using len by (auto simp: ss tw)
      qed
    qed
  qed
qed

lemma verify_Ok_iff [result_simps]:
  "CohortProof_verify blake3 p root rid = Ok u \<longleftrightarrow>
     cp_round_id p = rid \<and> cp_merkle_root p = root
   \<and> fold_path blake3 (cp_leaf_hash p) (unat (cp_leaf_index p)) (cp_sibling_hashes p) = root"
  by (auto simp: CohortProof_verify_def)

text \<open>The type \<open>[u8; 32]\<close> of a digest.\<close>

definition digest32 :: "Digest32 \<Rightarrow> bool" where
  "digest32 d \<longleftrightarrow> length (digest_bytes d) = 32"

lemma next_level_digest32:
  assumes "\<forall>bs. length (blake3 bs) = 32"
  shows "\<forall>d \<in> set (next_level blake3 ds). digest32 d"
  using assms
  by (induction blake3 ds rule: next_level.induct)
    (auto simp: parent_def Digest32_hash_def digest32_def)

lemma tower_digest32:
  assumes "\<forall>bs. length (blake3 bs) = 32" "\<forall>d \<in> set ds. digest32 d"
  shows "\<forall>level \<in> set (tower blake3 ds). \<forall>d \<in> set level. digest32 d"
  using assms
proof (induction blake3 ds rule: tower.induct)
  case (1 blake3 ds)
  show ?case
  proof (cases "1 < length ds")
    case True
    have "\<forall>level \<in> set (tower blake3 (next_level blake3 ds)). \<forall>d \<in> set level. digest32 d"
      using "1.IH" [OF True] "1.prems"(1) next_level_digest32 by blast
    then show ?thesis using "1.prems"(2) by (simp add: tower_step [OF True])
  next
    case False
    then show ?thesis using "1.prems"(2) by (simp add: tower_small)
  qed
qed

lemma path_pairs_digest32:
  assumes "\<forall>bs. length (blake3 bs) = 32" "digest32 n" "\<forall>s \<in> set ss. digest32 s"
  shows "\<forall>c \<in> set (path_pairs blake3 n i ss). digest32 (fst c) \<and> digest32 (snd c)"
  using assms(2,3)
proof (induction ss arbitrary: n i)
  case (Cons s ss)
  have "digest32 (case_prod (parent blake3) (step_pair n i s))"
    using assms(1) by (simp add: step_pair_def parent_def Digest32_hash_def digest32_def)
  then show ?case using Cons by (auto simp: step_pair_def)
qed simp

lemma tree_pairs_digest32:
  assumes "\<forall>bs. length (blake3 bs) = 32" "\<forall>d \<in> set xs. digest32 d"
  shows "\<forall>c \<in> set (tree_pairs (tower blake3 xs)). digest32 (fst c) \<and> digest32 (snd c)"
  using tower_digest32 [OF assms]
  by (fastforce simp: tree_pairs_def dest: level_pairs_members in_set_butlastD)

lemma collect_siblings_members:
  "collect_siblings levels i = Ok ss \<Longrightarrow> s \<in> set ss \<Longrightarrow> \<exists>level \<in> set levels. s \<in> set level"
proof (induction levels i arbitrary: ss rule: collect_siblings.induct)
  case (2 level levels index)
  then show ?case
    by (fastforce simp: Let_def result_simps index_slice_def get_slice_def split: if_splits option.splits)
qed simp

lemma proof_digest32:
  assumes "\<forall>bs. length (blake3 bs) = 32" "MerkleCohort_build blake3 leaves = Ok t"
    and "\<forall>d \<in> set leaves. digest32 d" "MerkleCohort_proof t leaf rid = Ok p"
  shows "\<forall>s \<in> set (cp_sibling_hashes p). digest32 s"
proof -
  have "\<forall>level \<in> set (mc_levels t). \<forall>d \<in> set level. digest32 d"
    using tower_digest32 [OF assms(1), of "sort leaves"] assms(2,3) by (auto simp: build_Ok_iff)
  then show ?thesis using assms(4) collect_siblings_members
    by (fastforce simp: MerkleCohort_proof_def result_simps dest: in_set_takeD)
qed

text \<open>
  The inputs of BLAKE3: for the commitment of the ticket with the canonical bytes \<open>m\<close>, for a
  node, and all those that verifying a proof or building a cohort of tickets computes.
\<close>

definition ticket_input :: "bytes \<Rightarrow> bytes" where
  "ticket_input m = hash_input (ascii ''join-ticket'') m"

definition node_input :: "Digest32 \<times> Digest32 \<Rightarrow> bytes" where
  "node_input c = hash_input (ascii ''merkle-node'') (digest_bytes (fst c) @ digest_bytes (snd c))"

definition verified_inputs :: "(bytes \<Rightarrow> bytes) \<Rightarrow> CohortProof \<Rightarrow> bytes \<Rightarrow> bytes list" where
  "verified_inputs blake3 p m = ticket_input m # map node_input
     (path_pairs blake3 (cp_leaf_hash p) (unat (cp_leaf_index p)) (cp_sibling_hashes p))"

definition cohort_inputs :: "MerkleCohort \<Rightarrow> bytes list \<Rightarrow> bytes list" where
  "cohort_inputs t ms = map ticket_input ms @ map node_input (tree_pairs (mc_levels t))"

lemma parent_input: "digest_bytes (case_prod (parent blake3) c) = blake3 (node_input c)"
  by (simp add: parent_def Digest32_hash_def node_input_def case_prod_beta)

lemma ticket_hash_input:
  "digest_bytes (Digest32_hash blake3 (ascii ''join-ticket'') m) = blake3 (ticket_input m)"
  by (simp add: Digest32_hash_def ticket_input_def)

lemma labels_no_NUL: "0 \<notin> set (ascii ''join-ticket'')" "0 \<notin> set (ascii ''merkle-node'')"
  by (simp_all add: ascii_def)

lemma ticket_input_inj: "ticket_input m = ticket_input m' \<Longrightarrow> m = m'"
  using hash_input_inj [OF labels_no_NUL(1,1)] by (simp add: ticket_input_def)

lemma ticket_node_differ: "ticket_input m \<noteq> node_input c"
proof
  assume "ticket_input m = node_input c"
  then have "ascii ''join-ticket'' = ascii ''merkle-node''"
    using hash_input_inj [OF labels_no_NUL] by (simp add: ticket_input_def node_input_def)
  then show False by (simp add: ascii_def)
qed

lemma node_input_inj:
  assumes "node_input c = node_input c'" "digest32 (fst c)" "digest32 (fst c')"
  shows "c = c'"
proof -
  have "digest_bytes (fst c) @ digest_bytes (snd c) = digest_bytes (fst c') @ digest_bytes (snd c')"
    using assms(1) hash_input_inj [OF labels_no_NUL(2,2)] by (simp add: node_input_def)
  then show ?thesis using assms(2,3) by (simp add: digest32_def prod_eq_iff Digest32.expand)
qed

text \<open>
  C6. Verification is sound for commitments, up to collisions of BLAKE3: if the root is that of
  a cohort of ticket commitments, and a proof for the commitment of a ticket is accepted against
  it, whatever its index and its number of siblings, then the ticket is in the cohort, the proof has
  the cohort's depth, and an index inside the cohort is the commitment's position; otherwise one
  of the inputs hashed in the verification and a different one hashed for the cohort have the
  same hash. (The digests are 32 bytes, as their type says.)
\<close>

theorem proofs_sound:
  assumes "\<forall>bs. length (blake3 bs) = 32"
    and "leaves = map (Digest32_hash blake3 (ascii ''join-ticket'')) tickets"
    and "MerkleCohort_build blake3 leaves = Ok t" "MerkleCohort_root t = Ok root"
    and "cp_leaf_hash p = Digest32_hash blake3 (ascii ''join-ticket'') ticket"
    and "\<forall>s \<in> set (cp_sibling_hashes p). length (digest_bytes s) = 32"
    and "CohortProof_verify blake3 p root rid = Ok ()"
  shows "ticket \<in> set tickets
      \<and> length (cp_sibling_hashes p) = length (mc_levels t) - 1
      \<and> (unat (cp_leaf_index p) < length leaves \<longrightarrow>
           sort leaves ! unat (cp_leaf_index p) = cp_leaf_hash p)
    \<or> (\<exists>x \<in> set (verified_inputs blake3 p ticket). \<exists>y \<in> set (cohort_inputs t tickets).
         x \<noteq> y \<and> blake3 x = blake3 y)"
proof (rule ccontr)
  assume neg: "\<not> ?thesis"
  let ?H = "Digest32_hash blake3 (ascii ''join-ticket'')" and ?up = "case_prod (parent blake3)"
  let ?path = "path_pairs blake3 (cp_leaf_hash p) (unat (cp_leaf_index p)) (cp_sibling_hashes p)"
  let ?tree = "tree_pairs (tower blake3 (sort leaves))"
  have t: "leaves \<noteq> []" "t = \<lparr>mc_leaves = sort leaves, mc_levels = tower blake3 (sort leaves)\<rparr>"
    using assms(3) by (auto simp: build_Ok_iff)
  have root: "root = hd (last (tower blake3 (sort leaves)))"
    using assms(4) t root_tower [of "sort leaves" "sort leaves" blake3] by simp
  have free: "x = y" if "x \<in> set (verified_inputs blake3 p ticket)" "y \<in> set (cohort_inputs t tickets)"
    "blake3 x = blake3 y" for x y using neg that by blast
  have wide: "digest32 (?H m)" for m using assms(1) by (simp add: Digest32_hash_def digest32_def)
  have path32: "\<forall>c \<in> set ?path. digest32 (fst c) \<and> digest32 (snd c)"
    using assms(1,5,6) wide by (intro path_pairs_digest32) (simp_all add: digest32_def)
  have tree32: "\<forall>c \<in> set ?tree. digest32 (fst c) \<and> digest32 (snd c)"
    using assms(1,2) wide by (intro tree_pairs_digest32) auto
  have same: "\<forall>c \<in> set ?path. \<forall>c' \<in> set ?tree. ?up c = ?up c' \<longrightarrow> c = c'"
  proof (intro ballI impI)
    fix c c' assume c: "c \<in> set ?path" "c' \<in> set ?tree" "?up c = ?up c'"
    have "blake3 (node_input c) = blake3 (node_input c')" using c(3) parent_input by metis
    then have "node_input c = node_input c'"
      using free [of "node_input c" "node_input c'"] c(1,2) t(2)
      by (simp add: verified_inputs_def cohort_inputs_def)
    then show "c = c'" using node_input_inj path32 tree32 c(1,2) by blast
  qed
  have no_leaf: "?H m \<noteq> ?up c"
    if "ticket_input m \<in> set (verified_inputs blake3 p ticket) \<and> node_input c \<in> set (cohort_inputs t tickets)
      \<or> node_input c \<in> set (verified_inputs blake3 p ticket) \<and> ticket_input m \<in> set (cohort_inputs t tickets)"
    for m c using free that ticket_node_differ parent_input ticket_hash_input by metis
  have "fold_path blake3 (cp_leaf_hash p) (unat (cp_leaf_index p)) (cp_sibling_hashes p)
      = hd (last (tower blake3 (sort leaves)))"
    using assms(7) root by (simp add: verify_Ok_iff)
  moreover have "sort leaves \<noteq> []" using t(1) by (metis set_empty set_sort)
  ultimately consider "length (cp_sibling_hashes p) = length (tower blake3 (sort leaves)) - 1
      \<and> cp_leaf_hash p \<in> set (sort leaves) \<and> (unat (cp_leaf_index p) < length (sort leaves) \<longrightarrow>
        cp_leaf_hash p = sort leaves ! unat (cp_leaf_index p))"
    | "cp_leaf_hash p \<in> ?up ` set ?tree" | "\<exists>c \<in> set ?path. ?up c \<in> set (sort leaves)"
    using path_in_tower [OF _ _ same] by blast
  then show False
  proof (cases, elim conjE)
    assume len: "length (cp_sibling_hashes p) = length (tower blake3 (sort leaves)) - 1"
      and mem: "cp_leaf_hash p \<in> set (sort leaves)"
      and pos: "unat (cp_leaf_index p) < length (sort leaves) \<longrightarrow>
        cp_leaf_hash p = sort leaves ! unat (cp_leaf_index p)"
    obtain m where m: "m \<in> set tickets" "?H ticket = ?H m"
      using mem assms(2,5) by auto
    then have "ticket = m"
      using free [of "ticket_input ticket" "ticket_input m"] ticket_hash_input ticket_input_inj
      by (metis (no_types, lifting) cohort_inputs_def image_eqI list.set_map list.set_intros(1)
          UnCI set_append verified_inputs_def)
    then show False using neg len pos m(1) t(2) by simp
  next
    assume "cp_leaf_hash p \<in> ?up ` set ?tree"
    then obtain c where "c \<in> set ?tree" "?H ticket = ?up c" using assms(5) by auto
    then show False using no_leaf t(2) by (auto simp: verified_inputs_def cohort_inputs_def)
  next
    assume "\<exists>c \<in> set ?path. ?up c \<in> set (sort leaves)"
    then obtain c m where "c \<in> set ?path" "m \<in> set tickets" "?H m = ?up c"
      using assms(2) by auto
    then show False using no_leaf by (auto simp: verified_inputs_def cohort_inputs_def)
  qed
qed

text \<open>A hash that keeps the end of its input, so that two short tickets do not collide.\<close>

definition tail_hash :: "bytes \<Rightarrow> bytes" where
  "tail_hash bs = take 32 (rev bs @ replicate 32 0)"

theorem proofs_sound_witness:
  "\<exists>t root p. MerkleCohort_build tail_hash
        (map (Digest32_hash tail_hash (ascii ''join-ticket'')) [[1], [2]]) = Ok t
     \<and> MerkleCohort_root t = Ok root \<and> CohortProof_verify tail_hash p root 0 = Ok ()
     \<and> cp_leaf_hash p = Digest32_hash tail_hash (ascii ''join-ticket'') [2]
     \<and> ([2 :: u8] \<in> set [[1], [2]] \<and> length (cp_sibling_hashes p) = length (mc_levels t) - 1
         \<and> (unat (cp_leaf_index p) < length (map (Digest32_hash tail_hash (ascii ''join-ticket'')) [[1], [2]]) \<longrightarrow>
              sort (map (Digest32_hash tail_hash (ascii ''join-ticket'')) [[1], [2]])
                ! unat (cp_leaf_index p) = cp_leaf_hash p)
       \<or> (\<exists>x \<in> set (verified_inputs tail_hash p [2]). \<exists>y \<in> set (cohort_inputs t [[1], [2]]).
            x \<noteq> y \<and> tail_hash x = tail_hash y))"
proof -
  let ?H = "Digest32_hash tail_hash (ascii ''join-ticket'')"
  let ?ls = "map ?H [[1], [2]]"
  have wide: "\<forall>bs. length (tail_hash bs) = 32" by (simp add: tail_hash_def min_def)
  have "?H [1] \<noteq> ?H [2]"
    by (simp add: Digest32_hash_def hash_input_def tail_hash_def ascii_def)
  then obtain t where t: "MerkleCohort_build tail_hash ?ls = Ok t"
    by (simp add: build_Ok_iff MAX_LEAVES_def)
  have "?H [2] \<in> set ?ls" by simp
  from member_proof_verifies [OF t this, of 0]
  obtain p root where p: "MerkleCohort_root t = Ok root" "cp_leaf_hash p = ?H [2]"
    "MerkleCohort_proof t (?H [2]) 0 = Ok p" "CohortProof_verify tail_hash p root 0 = Ok ()" by blast
  have "\<forall>s \<in> set (cp_sibling_hashes p). length (digest_bytes s) = 32"
    using proof_digest32 [OF wide t _ p(3)] wide by (simp add: Digest32_hash_def digest32_def)
  note sound = proofs_sound [OF wide refl t p(1,2) this p(4)]
  show ?thesis
    by (intro exI [of _ t] exI [of _ root] exI [of _ p] conjI) (rule t p(1,4,2) sound)+
qed

text \<open>
  For values that are no commitments it is not sound: \<open>verify\<close> checks neither the number of
  siblings nor what the leaf is a hash of, so the root itself is accepted as a leaf, and so is
  every inner node on a path.
\<close>

theorem root_verifies_as_leaf:
  assumes "MerkleCohort_root t = Ok root"
  shows "CohortProof_verify blake3 \<lparr>cp_leaf_hash = root, cp_leaf_index = 0, cp_sibling_hashes = [],
    cp_merkle_root = root, cp_round_id = rid\<rparr> root rid = Ok ()"
  by (simp add: CohortProof_verify_def)

section \<open>What a proof does not bind\<close>

lemma fold_path_index_mod:
  "i mod 2 ^ length ss = j mod 2 ^ length ss
     \<Longrightarrow> fold_path blake3 n i ss = fold_path blake3 n j ss"
proof (induction ss arbitrary: n i j)
  case Nil
  then show ?case by simp
next
  case (Cons s ss)
  have "2 * (i div 2 mod 2 ^ length ss) + i mod 2 = 2 * (j div 2 mod 2 ^ length ss) + j mod 2"
    using Cons.prems by (simp add: mod_mult2_eq)
  then have "i div 2 mod 2 ^ length ss = j div 2 mod 2 ^ length ss \<and> i mod 2 = j mod 2"
    by (rule double_add_inj) simp_all
  then show ?case using Cons.IH [where i = "i div 2" and j = "j div 2"] by simp
qed

text \<open>
  A proof's leaf index counts only modulo its depth: two proofs that agree except in
  index bits above the number of siblings are accepted or rejected alike.
\<close>

theorem verify_index_modulo_depth:
  assumes "unat i mod 2 ^ length (cp_sibling_hashes p)
         = unat j mod 2 ^ length (cp_sibling_hashes p)"
  shows "CohortProof_verify blake3 (p\<lparr>cp_leaf_index := i\<rparr>) root rid
       = CohortProof_verify blake3 (p\<lparr>cp_leaf_index := j\<rparr>) root rid"
  using fold_path_index_mod [OF assms, of blake3 "cp_leaf_hash p"]
  by (simp add: CohortProof_verify_def)

theorem verify_index_modulo_depth_witness:
  "CohortProof_verify (\<lambda>_. [7])
     \<lparr>cp_leaf_hash = Digest32 [1], cp_leaf_index = 5, cp_sibling_hashes = [Digest32 [2]],
      cp_merkle_root = Digest32 [7], cp_round_id = 0\<rparr> (Digest32 [7]) 0
   = CohortProof_verify (\<lambda>_. [7])
     \<lparr>cp_leaf_hash = Digest32 [1], cp_leaf_index = 1, cp_sibling_hashes = [Digest32 [2]],
      cp_merkle_root = Digest32 [7], cp_round_id = 0\<rparr> (Digest32 [7]) 0"
  using verify_index_modulo_depth
    [of 5 "\<lparr>cp_leaf_hash = Digest32 [1], cp_leaf_index = 0, cp_sibling_hashes = [Digest32 [2]],
      cp_merkle_root = Digest32 [7], cp_round_id = 0\<rparr>" 1 "\<lambda>_. [7]" "Digest32 [7]" 0]
  by simp

text \<open>
  In a cohort with an odd number of at least three leaves the last leaf is its own
  sibling, so its proof is accepted with its index and also with the next index, which no
  leaf has.
\<close>

theorem odd_last_leaf_index_flip:
  assumes "MerkleCohort_build blake3 leaves = Ok t" "odd (length leaves)" "3 \<le> length leaves"
  shows "\<exists>p root. MerkleCohort_proof t (last (sort leaves)) rid = Ok p
       \<and> MerkleCohort_root t = Ok root
       \<and> unat (cp_leaf_index p) = length leaves - 1
       \<and> CohortProof_verify blake3 p root rid = Ok ()
       \<and> CohortProof_verify blake3 (p\<lparr>cp_leaf_index := cp_leaf_index p + 1\<rparr>) root rid = Ok ()"
proof -
  let ?n = "length leaves - 1" and ?xs = "sort leaves"
  have ls: "leaves \<noteq> []" "length leaves \<le> MAX_LEAVES" "distinct leaves"
    and t: "t = \<lparr>mc_leaves = ?xs, mc_levels = tower blake3 ?xs\<rparr>"
    using assms(1) by (auto simp: build_Ok_iff)
  have last: "last ?xs = ?xs ! ?n" using ls(1) by (simp add: last_conv_nth)
  have "last ?xs \<in> set leaves" using ls(1) by (metis last_in_set set_sort sort_eq_Nil)
  from member_proof_verifies [OF assms(1) this, of rid] obtain p root where
    p: "MerkleCohort_proof t (last ?xs) rid = Ok p" "MerkleCohort_root t = Ok root"
    and idx: "unat (cp_leaf_index p) < length leaves" "?xs ! unat (cp_leaf_index p) = last ?xs"
    and leaf: "cp_leaf_hash p = last ?xs"
    and v: "CohortProof_verify blake3 p root rid = Ok ()"
    by blast
  have i: "unat (cp_leaf_index p) = ?n"
    using idx ls(1,3) last by (simp add: nth_eq_iff_index_eq)
  have "binary_search ?xs (last ?xs) = Some ?n"
    using ls last by (simp add: binary_search_iff)
  then have sib: "collect_siblings (butlast (tower blake3 ?xs)) ?n = Ok (cp_sibling_hashes p)"
    using p(1) t by (auto simp: MerkleCohort_proof_def result_simps butlast_conv_take)
  have tw: "tower blake3 ?xs = ?xs # tower blake3 (next_level blake3 ?xs)"
    using assms(3) by (simp add: tower_step)
  have own: "index_slice ?xs ?n = Ok (last ?xs)" "?n mod 2 = 0"
    using ls(1) last assms(2) by (auto simp: index_slice_def)
  have "\<exists>ss. last ?xs # ss = cp_sibling_hashes p"
    using sib ls(1) unfolding tw
    by (auto simp: own(1) [simplified] own(2) [simplified] get_slice_def Let_def result_simps
        split: if_splits)
  then obtain ss where ss: "cp_sibling_hashes p = last ?xs # ss" by metis
  have next_idx: "unat (cp_leaf_index p + 1) = ?n + 1"
    using i ls(2) by (simp add: unat_word_ariths MAX_LEAVES_def)
  have half: "(?n + 1) div 2 = ?n div 2" using assms(2) by (auto elim!: oddE)
  have "fold_path blake3 (last ?xs) (?n + 1) (last ?xs # ss)
      = fold_path blake3 (last ?xs) ?n (last ?xs # ss)"
    using half by (simp add: mod2_eq_if del: last_conv_nth)
  then have "CohortProof_verify blake3 (p\<lparr>cp_leaf_index := cp_leaf_index p + 1\<rparr>) root rid = Ok ()"
    using v i ss leaf next_idx by (simp add: verify_Ok_iff)
  then show ?thesis using p i v by blast
qed

theorem odd_last_leaf_index_flip_witness:
  "\<exists>t p root. MerkleCohort_build (\<lambda>_. [7]) [Digest32 [1], Digest32 [2], Digest32 [3]] = Ok t
     \<and> MerkleCohort_root t = Ok root \<and> unat (cp_leaf_index p) = 2
     \<and> CohortProof_verify (\<lambda>_. [7]) (p\<lparr>cp_leaf_index := cp_leaf_index p + 1\<rparr>) root 9 = Ok ()"
proof -
  obtain t where t: "MerkleCohort_build (\<lambda>_. [7]) [Digest32 [1], Digest32 [2], Digest32 [3]] = Ok t"
    by (simp add: build_Ok_iff MAX_LEAVES_def)
  have "odd (length [Digest32 [1], Digest32 [2], Digest32 [3]])"
    "3 \<le> length [Digest32 [1], Digest32 [2], Digest32 [3]]"
    "length [Digest32 [1], Digest32 [2], Digest32 [3]] - 1 = 2" by simp_all
  then show ?thesis using odd_last_leaf_index_flip [OF t, of 9] t by metis
qed

section \<open>The interface the store relies on\<close>

text \<open>
  A cohort scheme: building from a multiset of commitments, a root for every built
  cohort, and an accepted proof for every commitment that went in.
\<close>

locale cohort_scheme =
  fixes build :: "'d list \<Rightarrow> ('t, 'e) result"
    and root :: "'t \<Rightarrow> ('d, 'e) result"
    and prove :: "'t \<Rightarrow> 'd \<Rightarrow> u64 \<Rightarrow> ('p, 'e) result"
    and verify :: "'p \<Rightarrow> 'd \<Rightarrow> u64 \<Rightarrow> (unit, 'e) result"
  assumes root_total: "build ds = Ok t \<Longrightarrow> \<exists>r. root t = Ok r"
    and prove_complete: "build ds = Ok t \<Longrightarrow> root t = Ok r \<Longrightarrow> d \<in> set ds
      \<Longrightarrow> \<exists>p. prove t d rid = Ok p \<and> verify p r rid = Ok ()"
    and build_perm: "mset ds = mset ds' \<Longrightarrow> build ds = build ds'"
begin

text \<open>One root serves every member, whatever order the commitments were read in.\<close>

lemma cohort_proofs:
  assumes "build ds = Ok t" "mset ds = mset ds'"
  obtains r where "root t = Ok r"
    "\<And>d rid. d \<in> set ds' \<Longrightarrow> \<exists>p. prove t d rid = Ok p \<and> verify p r rid = Ok ()"
proof -
  have b: "build ds' = Ok t" using assms build_perm by metis
  obtain r where r: "root t = Ok r" using root_total [OF b] by blast
  show ?thesis using that [OF r] prove_complete [OF b r] by blast
qed

end

interpretation merkle: cohort_scheme
  "MerkleCohort_build blake3" MerkleCohort_root MerkleCohort_proof "CohortProof_verify blake3"
  for blake3
proof unfold_locales
  show "\<exists>r. MerkleCohort_root t = Ok r" if "MerkleCohort_build blake3 ds = Ok t" for ds t
    using that root_tower [of "sort ds"] by (auto simp: build_Ok_iff)
  show "\<exists>p. MerkleCohort_proof t d rid = Ok p \<and> CohortProof_verify blake3 p r rid = Ok ()"
    if "MerkleCohort_build blake3 ds = Ok t" "MerkleCohort_root t = Ok r" "d \<in> set ds"
    for ds t r d rid
    using member_proof_verifies [OF that(1,3), of rid] that(2) by auto
  show "MerkleCohort_build blake3 ds = MerkleCohort_build blake3 ds'"
    if "mset ds = mset ds'" for ds ds'
    using that by (rule build_perm_eq)
qed

end
