(* ===== verification/MP_Crypto.thy ===== *)
theory MP_Crypto
  imports MP_Core
begin

text \<open>
  The ticket crate (\<open>src/crates/mirror-pool-crypto/src/lib.rs\<close>): creation, verification
  and commitment of signed join tickets.

  Ed25519 (\<open>ed25519_dalek\<close>), BLAKE3, \<open>serde_json\<close>, \<open>hex\<close> and the random generator are
  other packages. They are the fields of the record \<open>crypto\<close>, an argument of every
  definition here; \<open>ed25519_correct\<close> states the one law the program relies on, that
  a signature made with a key verifies under that key.
\<close>

section \<open>Data\<close>

record JoinTicket =
  jt_schema_version :: u16
  jt_pool_id :: Digest32
  jt_round_id :: u64
  jt_action_template_hash :: Digest32
  jt_coordination_public_key :: bytes
  jt_nonce_commitment :: Digest32
  jt_expiry_slot :: u64
  jt_signature :: bytes

record UnsignedTicket =
  ut_schema_version :: u16
  ut_pool_id :: Digest32
  ut_round_id :: u64
  ut_action_template_hash :: Digest32
  ut_coordination_public_key :: bytes
  ut_nonce_commitment :: Digest32
  ut_expiry_slot :: u64

record TicketBinding =
  tb_pool_id :: Digest32
  tb_round_id :: u64
  tb_action_template_hash :: Digest32

datatype SecretNonce = SecretNonce (nonce_bytes: bytes)

datatype CoordinationSecret = CoordinationSecret (secret_bytes: bytes)

datatype TicketError =
    UnsupportedVersion
  | WrongPool
  | WrongRound
  | WrongTemplate
  | Expired
  | InvalidPublicKey
  | InvalidSignature
  | Serialization

text \<open>
  The packages the crate calls: \<open>'sk\<close> is \<open>SigningKey\<close>, \<open>'vk\<close> is \<open>VerifyingKey\<close>.
\<close>

record ('sk, 'vk) crypto =
  cr_blake3 :: "bytes \<Rightarrow> bytes"
  cr_hex_encode :: "bytes \<Rightarrow> string"
  cr_unsigned_to_vec :: "UnsignedTicket \<Rightarrow> bytes option"
  cr_ticket_to_vec :: "JoinTicket \<Rightarrow> bytes option"
  cr_signing_key_from_bytes :: "bytes \<Rightarrow> 'sk"
  cr_verifying_key_bytes :: "'sk \<Rightarrow> bytes"
  cr_sign :: "'sk \<Rightarrow> bytes \<Rightarrow> bytes"
  cr_verifying_key_from_bytes :: "bytes \<Rightarrow> 'vk option"
  cr_verify :: "'vk \<Rightarrow> bytes \<Rightarrow> bytes \<Rightarrow> bool"

section \<open>Operations\<close>

definition unsigned_ticket :: "JoinTicket \<Rightarrow> UnsignedTicket" where
  "unsigned_ticket self = \<lparr>
     ut_schema_version = jt_schema_version self,
     ut_pool_id = jt_pool_id self,
     ut_round_id = jt_round_id self,
     ut_action_template_hash = jt_action_template_hash self,
     ut_coordination_public_key = jt_coordination_public_key self,
     ut_nonce_commitment = jt_nonce_commitment self,
     ut_expiry_slot = jt_expiry_slot self\<rparr>"

definition signing_bytes ::
  "('sk, 'vk) crypto \<Rightarrow> JoinTicket \<Rightarrow> (bytes, TicketError) result" where
  "signing_bytes cr self =
     ok_or (cr_unsigned_to_vec cr (unsigned_ticket self)) TicketError.Serialization"

definition canonical_bytes ::
  "('sk, 'vk) crypto \<Rightarrow> JoinTicket \<Rightarrow> (bytes, TicketError) result" where
  "canonical_bytes cr self = ok_or (cr_ticket_to_vec cr self) TicketError.Serialization"

text \<open>\<open>nonce\<close> is the 32 bytes the generator filled in.\<close>

definition JoinTicket_create ::
  "('sk, 'vk) crypto \<Rightarrow> bytes \<Rightarrow> 'sk \<Rightarrow> Digest32 \<Rightarrow> u64 \<Rightarrow> Digest32 \<Rightarrow> u64
     \<Rightarrow> (JoinTicket \<times> SecretNonce, TicketError) result" where
  "JoinTicket_create cr nonce signing_key pool_id round_id template_hash expiry_slot =
    (let ticket = \<lparr>
           jt_schema_version = SCHEMA_VERSION,
           jt_pool_id = pool_id,
           jt_round_id = round_id,
           jt_action_template_hash = template_hash,
           jt_coordination_public_key = cr_verifying_key_bytes cr signing_key,
           jt_nonce_commitment = Digest32_hash (cr_blake3 cr) (ascii ''ticket-nonce'') nonce,
           jt_expiry_slot = expiry_slot,
           jt_signature = []\<rparr> in
     and_then (signing_bytes cr ticket) (\<lambda>msg.
     Ok (ticket\<lparr>jt_signature := cr_sign cr signing_key msg\<rparr>, SecretNonce nonce)))"

definition JoinTicket_verify ::
  "('sk, 'vk) crypto \<Rightarrow> JoinTicket \<Rightarrow> u64 \<Rightarrow> TicketBinding \<Rightarrow> (unit, TicketError) result" where
  "JoinTicket_verify cr self current_slot expected =
    (if jt_schema_version self \<noteq> SCHEMA_VERSION then Err TicketError.UnsupportedVersion
     else if jt_pool_id self \<noteq> tb_pool_id expected then Err WrongPool
     else if jt_round_id self \<noteq> tb_round_id expected then Err TicketError.WrongRound
     else if jt_action_template_hash self \<noteq> tb_action_template_hash expected
     then Err WrongTemplate
     else if current_slot \<ge> jt_expiry_slot self then Err TicketError.Expired
     else and_then (ok_or (cr_verifying_key_from_bytes cr (jt_coordination_public_key self))
                      InvalidPublicKey) (\<lambda>public_key.
          and_then (ensure (length (jt_signature self) = 64) InvalidSignature) (\<lambda>_.
          and_then (signing_bytes cr self) (\<lambda>msg.
          ensure (cr_verify cr public_key msg (jt_signature self)) InvalidSignature))))"

definition JoinTicket_commitment ::
  "('sk, 'vk) crypto \<Rightarrow> JoinTicket \<Rightarrow> (Digest32, TicketError) result" where
  "JoinTicket_commitment cr self =
     and_then (canonical_bytes cr self) (\<lambda>bs.
     Ok (Digest32_hash (cr_blake3 cr) (ascii ''join-ticket'') bs))"

text \<open>\<open>digest.to_hex()[..12]\<close> panics on a shorter string.\<close>

definition key_id :: "('sk, 'vk) crypto \<Rightarrow> JoinTicket \<Rightarrow> (string, TicketError) result" where
  "key_id cr self =
    (let digest = Digest32_hash (cr_blake3 cr) (ascii ''coordination-key-id'')
                    (jt_coordination_public_key self);
         hex = to_hex (cr_hex_encode cr) digest
     in if length hex < 12 then Panic else Ok (take 12 hex))"

definition CoordinationSecret_signing_key :: "('sk, 'vk) crypto \<Rightarrow> CoordinationSecret \<Rightarrow> 'sk" where
  "CoordinationSecret_signing_key cr self = cr_signing_key_from_bytes cr (secret_bytes self)"

section \<open>Correctness\<close>

text \<open>Signatures are 64 bytes and verify under the key that made them.\<close>

definition ed25519_correct :: "('sk, 'vk) crypto \<Rightarrow> bool" where
  "ed25519_correct cr \<longleftrightarrow>
     (\<forall>sk msg. length (cr_sign cr sk msg) = 64
       \<and> (\<exists>vk. cr_verifying_key_from_bytes cr (cr_verifying_key_bytes cr sk) = Some vk
            \<and> cr_verify cr vk msg (cr_sign cr sk msg)))"

lemma unsigned_ticket_signature [simp]:
  "unsigned_ticket (t\<lparr>jt_signature := s\<rparr>) = unsigned_ticket t"
  by (simp add: unsigned_ticket_def)

lemma signing_bytes_signature [simp]:
  "signing_bytes cr (t\<lparr>jt_signature := s\<rparr>) = signing_bytes cr t"
  by (simp add: signing_bytes_def)

lemma verify_ticket_Ok_iff [result_simps]:
  "JoinTicket_verify cr t slot b = Ok () \<longleftrightarrow>
     jt_schema_version t = 1
   \<and> jt_pool_id t = tb_pool_id b \<and> jt_round_id t = tb_round_id b
   \<and> jt_action_template_hash t = tb_action_template_hash b
   \<and> slot < jt_expiry_slot t
   \<and> length (jt_signature t) = 64
   \<and> (\<exists>vk msg. cr_verifying_key_from_bytes cr (jt_coordination_public_key t) = Some vk
        \<and> cr_unsigned_to_vec cr (unsigned_ticket t) = Some msg
        \<and> cr_verify cr vk msg (jt_signature t))"
  by (auto simp: JoinTicket_verify_def result_simps signing_bytes_def SCHEMA_VERSION_def not_le)

lemma created_ticket_outcome:
  assumes "ed25519_correct cr"
    and "JoinTicket_create cr nonce sk pool rid template expiry = Ok (t, n)"
    and "b = \<lparr>tb_pool_id = pool, tb_round_id = rid, tb_action_template_hash = template\<rparr>"
  shows "JoinTicket_verify cr t slot b = (if slot < expiry then Ok () else Err TicketError.Expired)"
proof -
  from assms(2) obtain msg where t0: "cr_unsigned_to_vec cr (unsigned_ticket t) = Some msg"
    and t: "jt_schema_version t = 1" "jt_pool_id t = pool" "jt_round_id t = rid"
      "jt_action_template_hash t = template" "jt_expiry_slot t = expiry"
      "jt_coordination_public_key t = cr_verifying_key_bytes cr sk"
      "jt_signature t = cr_sign cr sk msg"
    by (auto simp: JoinTicket_create_def Let_def result_simps signing_bytes_def
        SCHEMA_VERSION_def unsigned_ticket_def)
  obtain vk where "cr_verifying_key_from_bytes cr (cr_verifying_key_bytes cr sk) = Some vk"
    "cr_verify cr vk msg (cr_sign cr sk msg)" "length (cr_sign cr sk msg) = 64"
    using assms(1) unfolding ed25519_correct_def by blast
  then show ?thesis
    using t t0 assms(3)
    by (auto simp: JoinTicket_verify_def signing_bytes_def SCHEMA_VERSION_def)
qed

text \<open>
  C12. A created ticket is accepted exactly until its expiry slot: with signatures that
  verify under their own key, a ticket made for a pool, round and template passes
  verification against that binding at every slot before its expiry, and is rejected as
  expired from the expiry slot on.
\<close>

theorem created_ticket_verifies:
  assumes "ed25519_correct cr"
    and "JoinTicket_create cr nonce sk pool rid template expiry = Ok (t, n)"
    and "b = \<lparr>tb_pool_id = pool, tb_round_id = rid, tb_action_template_hash = template\<rparr>"
  shows "JoinTicket_verify cr t slot b = (if slot < expiry then Ok () else Err TicketError.Expired)"
  using assms by (rule created_ticket_outcome)

text \<open>
  A stand-in for the packages, used to instantiate hypotheses: keys are byte strings and
  a signature is the key's first byte repeated.
\<close>

definition base16_digits :: string where
  "base16_digits = ''0123456789abcdef''"

definition base16_encode :: "bytes \<Rightarrow> string" where
  "base16_encode bs =
     concat (map (\<lambda>b. [base16_digits ! (unat b div 16), base16_digits ! (unat b mod 16)]) bs)"

definition base16_value :: "char \<Rightarrow> nat option" where
  "base16_value c = map_of (zip base16_digits [0..<16]) c"

fun base16_decode :: "string \<Rightarrow> bytes option" where
  "base16_decode [] = Some []"
| "base16_decode [_] = None"
| "base16_decode (x # y # cs) =
     (case (base16_value x, base16_value y, base16_decode cs) of
        (Some h, Some l, Some bs) \<Rightarrow> Some (of_nat (16 * h + l) # bs)
      | _ \<Rightarrow> None)"

lemma base16_value_digit: "n < 16 \<Longrightarrow> base16_value (base16_digits ! n) = Some n"
proof -
  have "\<forall>n \<in> set [0..<16]. base16_value (base16_digits ! n) = Some n" by code_simp
  then show "n < 16 \<Longrightarrow> base16_value (base16_digits ! n) = Some n" by simp
qed

lemma base16_decode_encode: "base16_decode (base16_encode bs) = Some bs"
proof (induction bs)
  case Nil
  then show ?case by (simp add: base16_encode_def)
next
  case (Cons b bs)
  have "unat b < 2 ^ LENGTH(8)" by (rule unsigned_less)
  then have "unat b div 16 < 16" by simp
  then show ?case using Cons by (simp add: base16_encode_def base16_value_digit)
qed

definition sample_crypto :: "(bytes, bytes) crypto" where
  "sample_crypto = \<lparr>
     cr_blake3 = (\<lambda>bs. take 32 (bs @ replicate 32 0)),
     cr_hex_encode = base16_encode,
     cr_unsigned_to_vec = (\<lambda>u. Some (digest_bytes (ut_pool_id u))),
     cr_ticket_to_vec = (\<lambda>t. Some (jt_coordination_public_key t @ jt_signature t)),
     cr_signing_key_from_bytes = (\<lambda>bs. bs),
     cr_verifying_key_bytes = (\<lambda>sk. sk),
     cr_sign = (\<lambda>sk msg. replicate 64 (hd (sk @ [0]))),
     cr_verifying_key_from_bytes = (\<lambda>bs. Some bs),
     cr_verify = (\<lambda>vk msg sig. sig = replicate 64 (hd (vk @ [0])))\<rparr>"

lemma sample_crypto_correct: "ed25519_correct sample_crypto"
  by (simp add: ed25519_correct_def sample_crypto_def)

definition sample_ticket :: "u8 \<Rightarrow> JoinTicket" where
  "sample_ticket k = \<lparr>
     jt_schema_version = 1, jt_pool_id = Digest32 (replicate 32 1), jt_round_id = 7,
     jt_action_template_hash = Digest32 (replicate 32 2),
     jt_coordination_public_key = replicate 32 k,
     jt_nonce_commitment = Digest32_hash (cr_blake3 sample_crypto) (ascii ''ticket-nonce'') [k],
     jt_expiry_slot = 100, jt_signature = replicate 64 k\<rparr>"

definition sample_binding :: TicketBinding where
  "sample_binding = \<lparr>tb_pool_id = Digest32 (replicate 32 1), tb_round_id = 7,
     tb_action_template_hash = Digest32 (replicate 32 2)\<rparr>"

lemma sample_ticket_created:
  "JoinTicket_create sample_crypto [k] (replicate 32 k) (Digest32 (replicate 32 1)) 7
     (Digest32 (replicate 32 2)) 100 = Ok (sample_ticket k, SecretNonce [k])"
  by (simp add: JoinTicket_create_def sample_ticket_def signing_bytes_def Let_def
      SCHEMA_VERSION_def) (simp add: sample_crypto_def)

theorem created_ticket_verifies_witness:
  "JoinTicket_verify sample_crypto (sample_ticket 9) 99 sample_binding = Ok ()
   \<and> JoinTicket_verify sample_crypto (sample_ticket 9) 100 sample_binding
       = Err TicketError.Expired"
  using created_ticket_verifies [OF sample_crypto_correct sample_ticket_created
      sample_binding_def, of 9 99]
    created_ticket_verifies [OF sample_crypto_correct sample_ticket_created
      sample_binding_def, of 9 100]
  by simp

text \<open>
  A ticket is bound to its context: an accepted ticket carries exactly the schema,
  pool, round and template the verifier expects, has not expired, and its signature is a
  64-byte signature of its own key over the serialisation of all its other fields. A
  ticket with another signed content is accepted under the same key and signature only if
  the serialiser maps both contents to the same bytes or the signature verifies for two
  different messages.
\<close>

theorem accepted_ticket_binds:
  assumes "JoinTicket_verify cr t slot b = Ok ()"
  shows "jt_schema_version t = 1 \<and> jt_pool_id t = tb_pool_id b
     \<and> jt_round_id t = tb_round_id b
     \<and> jt_action_template_hash t = tb_action_template_hash b \<and> slot < jt_expiry_slot t
     \<and> (\<exists>vk msg. cr_verifying_key_from_bytes cr (jt_coordination_public_key t) = Some vk
          \<and> cr_unsigned_to_vec cr (unsigned_ticket t) = Some msg
          \<and> cr_verify cr vk msg (jt_signature t)
          \<and> (\<forall>t' slot' b'. JoinTicket_verify cr t' slot' b' = Ok ()
               \<and> jt_coordination_public_key t' = jt_coordination_public_key t
               \<and> jt_signature t' = jt_signature t
               \<and> unsigned_ticket t' \<noteq> unsigned_ticket t \<longrightarrow>
               cr_unsigned_to_vec cr (unsigned_ticket t') = Some msg
             \<or> (\<exists>msg'. msg' \<noteq> msg \<and> cr_unsigned_to_vec cr (unsigned_ticket t') = Some msg'
                  \<and> cr_verify cr vk msg' (jt_signature t))))"
  using assms by (auto simp: verify_ticket_Ok_iff)

lemma sample_ticket_accepted:
  "JoinTicket_verify sample_crypto (sample_ticket k) 99 sample_binding = Ok ()"
  by (simp add: verify_ticket_Ok_iff sample_ticket_def sample_binding_def)
    (simp add: sample_crypto_def)

theorem accepted_ticket_binds_witness:
  "jt_round_id (sample_ticket 9) = tb_round_id sample_binding
   \<and> (\<exists>vk msg. cr_verify sample_crypto vk msg (jt_signature (sample_ticket 9)))"
  using accepted_ticket_binds [OF sample_ticket_accepted, of 9] by blast

text \<open>
  The commitment identifies the ticket: two different tickets with the same
  commitment have the same JSON bytes, or their JSON bytes are different inputs on which
  BLAKE3 collides.
\<close>

theorem commitment_binds_ticket:
  assumes "JoinTicket_commitment cr t = Ok c" "JoinTicket_commitment cr t' = Ok c" "t \<noteq> t'"
  shows "\<exists>b b'. cr_ticket_to_vec cr t = Some b \<and> cr_ticket_to_vec cr t' = Some b'
    \<and> (b = b' \<or>
       hash_input (ascii ''join-ticket'') b \<noteq> hash_input (ascii ''join-ticket'') b'
     \<and> cr_blake3 cr (hash_input (ascii ''join-ticket'') b)
       = cr_blake3 cr (hash_input (ascii ''join-ticket'') b'))"
  using assms
  by (auto simp: JoinTicket_commitment_def canonical_bytes_def result_simps hash_input_def
      Digest32_hash_def)

theorem commitment_binds_ticket_witness:
  "\<exists>b b'. cr_ticket_to_vec sample_crypto (sample_ticket 9) = Some b
     \<and> cr_ticket_to_vec sample_crypto ((sample_ticket 9)\<lparr>jt_expiry_slot := 5\<rparr>) = Some b'"
proof -
  let ?c = "Digest32_hash (cr_blake3 sample_crypto) (ascii ''join-ticket'')
      (replicate 32 9 @ replicate 64 9)"
  have "JoinTicket_commitment sample_crypto (sample_ticket 9) = Ok ?c"
    "JoinTicket_commitment sample_crypto ((sample_ticket 9)\<lparr>jt_expiry_slot := 5\<rparr>) = Ok ?c"
    by (simp_all add: JoinTicket_commitment_def canonical_bytes_def sample_ticket_def
        sample_crypto_def)
  moreover have "sample_ticket 9 \<noteq> (sample_ticket 9)\<lparr>jt_expiry_slot := 5\<rparr>"
    by (simp add: sample_ticket_def)
  ultimately show ?thesis using commitment_binds_ticket by blast
qed

lemma key_id_length:
  assumes "\<And>bs. length (cr_hex_encode cr bs) = 2 * length bs"
    and "\<And>bs. length (cr_blake3 cr bs) = 32"
  shows "\<exists>s. key_id cr t = Ok s \<and> length s = 12"
  using assms by (simp add: key_id_def Let_def to_hex_def Digest32_hash_def)

end
