(* ===== verification/MP_Program.thy ===== *)
theory MP_Program
  imports MP_Lifecycle
begin

text \<open>
  The native Solana program (\<open>src/programs/mirror-pool-program/src/lib.rs\<close>): its accounts,
  its ten instructions and their dispatch.

  A ledger maps an address to the lamports, data and owner of its account. \<open>AccountInfo\<close>
  values that name the same address share these, as the runtime's do, so passing one
  account twice is modelled. A handler takes the ledger and returns the new one or an
  error; the runtime discards every change of a failed instruction, so no ledger comes
  with an error. A \<open>RefCell\<close> borrow never fails here: no handler holds one borrow across
  another.

  The Solana runtime and Borsh are other packages. The record \<open>runtime\<close> holds what the
  program calls of them: the clock and rent sysvars, program-address derivation, the
  System Program's \<open>create_account\<close> through \<open>invoke_signed\<close>, and the Borsh codecs of
  the four derived types. \<open>runtime_ok\<close> states the documented behaviour used in proofs.
\<close>

section \<open>Accounts and instructions\<close>

type_synonym pubkey = bytes

definition MAX_COHORT_SIZE :: u32 where
  "MAX_COHORT_SIZE = 100000"

definition POOL_ACCOUNT_SIZE :: nat where
  "POOL_ACCOUNT_SIZE = 256"

definition ROUND_ACCOUNT_SIZE :: nat where
  "ROUND_ACCOUNT_SIZE = 256"

datatype Backend = TransparentRegistry | MerkleCohort

datatype State =
    Registration | ThresholdReached | Sealed | ReleaseScheduled | ExecutionWindow
  | Finalizing | Completed | Cancelled | Expired

record PoolAccount =
  pa_version :: u8
  pa_bump :: u8
  pa_authority :: pubkey
  pa_pool_id :: bytes
  pa_template_hash :: bytes
  pa_min_participants :: u32
  pa_max_participants :: u32
  pa_min_release_delay :: u64
  pa_max_release_delay :: u64
  pa_execution_window :: u64
  pa_backend :: Backend
  pa_next_round :: u64
  pa_paused :: bool

record RoundAccount =
  ra_version :: u8
  ra_bump :: u8
  ra_pool :: pubkey
  ra_round_id :: u64
  ra_state :: State
  ra_registration_deadline :: u64
  ra_template_hash :: bytes
  ra_accepted_count :: u32
  ra_cohort_root :: bytes
  ra_release_slot :: u64
  ra_window_end_slot :: u64
  ra_metrics_hash :: bytes

record ParticipantRecord =
  pr_version :: u8
  pr_bump :: u8
  pr_round :: pubkey
  pr_coordination_key :: bytes

datatype CoordinationInstruction =
    InitializePool bytes bytes u32 u32 u64 u64 u64 Backend u8
  | OpenRound u64 u64 bytes u8
  | RegisterTransparent bytes u8
  | PublishCohortRoot bytes u32
  | SealRound
  | ScheduleRelease u64
  | BeginExecutionWindow
  | FinalizeRound bytes
  | CancelRound
  | CloseRound

datatype CoordinationError =
    InvalidPolicy | InvalidPda | Unauthorized | InvalidTiming | InvalidState | Overflow

text \<open>The variants of \<open>ProgramError\<close> the program names; \<open>OtherError\<close> is any other one.\<close>

datatype ProgramError =
    Custom u32
  | InvalidInstructionData
  | NotEnoughAccountKeys
  | MissingRequiredSignature
  | IllegalOwner
  | AccountAlreadyInitialized
  | InvalidAccountData
  | AccountDataTooSmall
  | OtherError u64

text \<open>\<open>impl From<CoordinationError> for ProgramError\<close>: the discriminants start at 1.\<close>

fun error_code :: "CoordinationError \<Rightarrow> u32" where
  "error_code InvalidPolicy = 1"
| "error_code InvalidPda = 2"
| "error_code Unauthorized = 3"
| "error_code InvalidTiming = 4"
| "error_code InvalidState = 5"
| "error_code Overflow = 6"

definition into_program_error :: "CoordinationError \<Rightarrow> ProgramError" where
  "into_program_error e = Custom (error_code e)"

section \<open>The ledger and the runtime\<close>

record Account =
  ac_lamports :: u64
  ac_data :: bytes
  ac_owner :: pubkey

type_synonym ledger = "pubkey \<Rightarrow> Account"

record AccountInfo =
  ai_key :: pubkey
  ai_is_signer :: bool
  ai_is_writable :: bool

record runtime =
  rt_clock_slot :: "(u64, ProgramError) result"
  rt_minimum_balance :: "nat \<Rightarrow> (u64, ProgramError) result"
  rt_create_program_address :: "bytes list \<Rightarrow> pubkey \<Rightarrow> pubkey option"
  rt_system_program :: pubkey
  rt_create_account ::
    "AccountInfo \<Rightarrow> AccountInfo \<Rightarrow> u64 \<Rightarrow> u64 \<Rightarrow> pubkey \<Rightarrow> bytes list \<Rightarrow> ledger
       \<Rightarrow> (ledger, ProgramError) result"
  rt_try_instruction :: "bytes \<Rightarrow> CoordinationInstruction option"
  rt_pool_to_vec :: "PoolAccount \<Rightarrow> bytes option"
  rt_pool_deserialize :: "bytes \<Rightarrow> PoolAccount option"
  rt_round_to_vec :: "RoundAccount \<Rightarrow> bytes option"
  rt_round_deserialize :: "bytes \<Rightarrow> RoundAccount option"
  rt_record_to_vec :: "ParticipantRecord \<Rightarrow> bytes option"

type_synonym 'a program_result = "('a, ProgramError) result"

definition zero32 :: bytes where
  "zero32 = replicate 32 0"

section \<open>Helpers\<close>

fun next_account_info :: "AccountInfo list \<Rightarrow> (AccountInfo \<times> AccountInfo list) program_result" where
  "next_account_info [] = Err NotEnoughAccountKeys"
| "next_account_info (info # rest) = Ok (info, rest)"

definition require_signer :: "AccountInfo \<Rightarrow> unit program_result" where
  "require_signer info = (if ai_is_signer info then Ok () else Err MissingRequiredSignature)"

definition require_owned :: "ledger \<Rightarrow> AccountInfo \<Rightarrow> pubkey \<Rightarrow> unit program_result" where
  "require_owned L info program_id =
     (if ac_owner (L (ai_key info)) = program_id then Ok () else Err IllegalOwner)"

definition admin_accounts ::
  "ledger \<Rightarrow> pubkey \<Rightarrow> AccountInfo list
     \<Rightarrow> (AccountInfo \<times> AccountInfo \<times> AccountInfo) program_result" where
  "admin_accounts L program_id accounts =
    and_then (next_account_info accounts) (\<lambda>(authority, iter).
    and_then (next_account_info iter) (\<lambda>(pool, iter).
    and_then (next_account_info iter) (\<lambda>(round, iter).
    and_then (require_signer authority) (\<lambda>_.
    and_then (require_owned L pool program_id) (\<lambda>_.
    and_then (require_owned L round program_id) (\<lambda>_.
    Ok (pool, round, authority)))))))"

definition read_account ::
  "(bytes \<Rightarrow> 'a option) \<Rightarrow> ledger \<Rightarrow> AccountInfo \<Rightarrow> 'a program_result" where
  "read_account deserialize L info =
     ok_or (deserialize (ac_data (L (ai_key info)))) InvalidAccountData"

definition set_data :: "pubkey \<Rightarrow> bytes \<Rightarrow> ledger \<Rightarrow> ledger" where
  "set_data k bs L = L(k := (L k)\<lparr>ac_data := bs\<rparr>)"

definition set_lamports :: "pubkey \<Rightarrow> u64 \<Rightarrow> ledger \<Rightarrow> ledger" where
  "set_lamports k n L = L(k := (L k)\<lparr>ac_lamports := n\<rparr>)"

definition write_account ::
  "('a \<Rightarrow> bytes option) \<Rightarrow> AccountInfo \<Rightarrow> 'a \<Rightarrow> ledger \<Rightarrow> ledger program_result" where
  "write_account to_vec info value L =
    and_then (ok_or (to_vec value) InvalidAccountData) (\<lambda>bs.
    let data = ac_data (L (ai_key info)) in
    if length bs > length data then Err AccountDataTooSmall
    else Ok (set_data (ai_key info) (bs @ replicate (length data - length bs) 0) L))"

definition create_pda_account ::
  "runtime \<Rightarrow> AccountInfo \<Rightarrow> AccountInfo \<Rightarrow> AccountInfo \<Rightarrow> pubkey \<Rightarrow> nat \<Rightarrow> bytes list
     \<Rightarrow> ledger \<Rightarrow> ledger program_result" where
  "create_pda_account rt payer account system program_id space signer_seeds L =
    (let acc = L (ai_key account) in
     if ac_owner acc = program_id then
       (if (case ac_data acc of [] \<Rightarrow> 0 | b # _ \<Rightarrow> b) \<noteq> 0 then Err AccountAlreadyInitialized
        else Ok L)
     else if ai_key system \<noteq> rt_system_program rt
          \<or> ac_owner acc \<noteq> rt_system_program rt
          \<or> ac_data acc \<noteq> []
     then Err IllegalOwner
     else and_then (rt_minimum_balance rt space) (\<lambda>lamports.
       rt_create_account rt payer account lamports (of_nat space) program_id signer_seeds L))"

definition derive_pda ::
  "runtime \<Rightarrow> bytes list \<Rightarrow> pubkey \<Rightarrow> pubkey program_result" where
  "derive_pda rt seeds program_id =
     ok_or (rt_create_program_address rt seeds program_id) (into_program_error InvalidPda)"

section \<open>Instruction handlers\<close>

definition initialize ::
  "runtime \<Rightarrow> pubkey \<Rightarrow> AccountInfo list \<Rightarrow> bytes \<Rightarrow> bytes \<Rightarrow> u32 \<Rightarrow> u32 \<Rightarrow> u64 \<Rightarrow> u64 \<Rightarrow> u64
     \<Rightarrow> Backend \<Rightarrow> u8 \<Rightarrow> ledger \<Rightarrow> ledger program_result" where
  "initialize rt program_id accounts pool_id template_hash mn mx min_delay max_delay window
     backend bump L =
    (if mn < 2 \<or> mn > mx \<or> mx > MAX_COHORT_SIZE \<or> window = 0 \<or> min_delay > max_delay
     then Err (into_program_error InvalidPolicy)
     else
       and_then (next_account_info accounts) (\<lambda>(authority, iter).
       and_then (next_account_info iter) (\<lambda>(pool_info, iter).
       and_then (next_account_info iter) (\<lambda>(system_info, iter).
       and_then (require_signer authority) (\<lambda>_.
       and_then (derive_pda rt [ascii ''pool'', pool_id, [bump]] program_id) (\<lambda>expected.
       if expected \<noteq> ai_key pool_info then Err (into_program_error InvalidPda)
       else
       and_then (create_pda_account rt authority pool_info system_info program_id
                   POOL_ACCOUNT_SIZE [ascii ''pool'', pool_id, [bump]] L) (\<lambda>L1.
       let pool = \<lparr>pa_version = 1, pa_bump = bump, pa_authority = ai_key authority,
             pa_pool_id = pool_id, pa_template_hash = template_hash,
             pa_min_participants = mn, pa_max_participants = mx,
             pa_min_release_delay = min_delay, pa_max_release_delay = max_delay,
             pa_execution_window = window, pa_backend = backend,
             pa_next_round = 0, pa_paused = False\<rparr>
       in write_account (rt_pool_to_vec rt) pool_info pool L1)))))))"

definition round_seeds :: "pubkey \<Rightarrow> u64 \<Rightarrow> u8 \<Rightarrow> bytes list" where
  "round_seeds pool_key round_id bump =
     [ascii ''round'', pool_key, le_bytes 8 (unat round_id), [bump]]"

definition open_round ::
  "runtime \<Rightarrow> pubkey \<Rightarrow> AccountInfo list \<Rightarrow> u64 \<Rightarrow> u64 \<Rightarrow> bytes \<Rightarrow> u8 \<Rightarrow> ledger
     \<Rightarrow> ledger program_result" where
  "open_round rt program_id accounts round_id deadline template bump L =
    and_then (next_account_info accounts) (\<lambda>(authority, iter).
    and_then (next_account_info iter) (\<lambda>(pool_info, iter).
    and_then (next_account_info iter) (\<lambda>(round_info, iter).
    and_then (next_account_info iter) (\<lambda>(system_info, iter).
    and_then (require_signer authority) (\<lambda>_.
    and_then (require_owned L pool_info program_id) (\<lambda>_.
    and_then (read_account (rt_pool_deserialize rt) L pool_info) (\<lambda>pool.
    if pa_authority pool \<noteq> ai_key authority \<or> pa_paused pool
       \<or> pa_next_round pool \<noteq> round_id \<or> pa_template_hash pool \<noteq> template
    then Err (into_program_error Unauthorized)
    else
    and_then (rt_clock_slot rt) (\<lambda>slot.
    if deadline \<le> slot then Err (into_program_error InvalidTiming)
    else
    and_then (derive_pda rt (round_seeds (ai_key pool_info) round_id bump) program_id)
      (\<lambda>expected.
    if expected \<noteq> ai_key round_info then Err (into_program_error InvalidPda)
    else
    and_then (create_pda_account rt authority round_info system_info program_id
                ROUND_ACCOUNT_SIZE (round_seeds (ai_key pool_info) round_id bump) L) (\<lambda>L1.
    let round = \<lparr>ra_version = 1, ra_bump = bump, ra_pool = ai_key pool_info,
          ra_round_id = round_id, ra_state = State.Registration,
          ra_registration_deadline = deadline, ra_template_hash = template,
          ra_accepted_count = 0, ra_cohort_root = zero32, ra_release_slot = 0,
          ra_window_end_slot = 0, ra_metrics_hash = zero32\<rparr>
    in
    and_then (ok_or (checked_add (pa_next_round pool) 1) (into_program_error Overflow)) (\<lambda>nr.
    and_then (write_account (rt_pool_to_vec rt) pool_info (pool\<lparr>pa_next_round := nr\<rparr>) L1) (\<lambda>L2.
    write_account (rt_round_to_vec rt) round_info round L2))))))))))))"

definition participant_seeds :: "pubkey \<Rightarrow> bytes \<Rightarrow> u8 \<Rightarrow> bytes list" where
  "participant_seeds round_key key bump = [ascii ''participant'', round_key, key, [bump]]"

definition register_transparent ::
  "runtime \<Rightarrow> pubkey \<Rightarrow> AccountInfo list \<Rightarrow> bytes \<Rightarrow> u8 \<Rightarrow> ledger \<Rightarrow> ledger program_result" where
  "register_transparent rt program_id accounts key bump L =
    and_then (next_account_info accounts) (\<lambda>(payer, iter).
    and_then (next_account_info iter) (\<lambda>(pool_info, iter).
    and_then (next_account_info iter) (\<lambda>(round_info, iter).
    and_then (next_account_info iter) (\<lambda>(record_info, iter).
    and_then (next_account_info iter) (\<lambda>(system_info, iter).
    and_then (require_signer payer) (\<lambda>_.
    and_then (require_owned L pool_info program_id) (\<lambda>_.
    and_then (require_owned L round_info program_id) (\<lambda>_.
    and_then (read_account (rt_pool_deserialize rt) L pool_info) (\<lambda>pool.
    and_then (read_account (rt_round_deserialize rt) L round_info) (\<lambda>round.
    and_then (rt_clock_slot rt) (\<lambda>slot.
    if pa_backend pool \<noteq> Backend.TransparentRegistry
       \<or> ra_pool round \<noteq> ai_key pool_info
       \<or> \<not> (ra_state round = State.Registration \<or> ra_state round = State.ThresholdReached)
       \<or> slot \<ge> ra_registration_deadline round
       \<or> ra_accepted_count round \<ge> pa_max_participants pool
    then Err (into_program_error InvalidState)
    else
    and_then (derive_pda rt (participant_seeds (ai_key round_info) key bump) program_id)
      (\<lambda>expected.
    if expected \<noteq> ai_key record_info then Err (into_program_error InvalidPda)
    else
    and_then (create_pda_account rt payer record_info system_info program_id 96
                (participant_seeds (ai_key round_info) key bump) L) (\<lambda>L1.
    and_then (ok_or (checked_add (ra_accepted_count round) 1) (into_program_error Overflow))
      (\<lambda>cnt.
    let round1 = round\<lparr>ra_accepted_count := cnt\<rparr>;
        round2 = if cnt \<ge> pa_min_participants pool
                 then round1\<lparr>ra_state := State.ThresholdReached\<rparr> else round1
    in
    and_then (write_account (rt_record_to_vec rt) record_info
                \<lparr>pr_version = 1, pr_bump = bump, pr_round = ai_key round_info,
                 pr_coordination_key = key\<rparr> L1) (\<lambda>L2.
    write_account (rt_round_to_vec rt) round_info round2 L2)))))))))))))))"

definition publish_root ::
  "runtime \<Rightarrow> pubkey \<Rightarrow> AccountInfo list \<Rightarrow> bytes \<Rightarrow> u32 \<Rightarrow> ledger \<Rightarrow> ledger program_result" where
  "publish_root rt program_id accounts root cnt L =
    and_then (admin_accounts L program_id accounts) (\<lambda>(pool_info, round_info, authority).
    and_then (read_account (rt_pool_deserialize rt) L pool_info) (\<lambda>pool.
    and_then (read_account (rt_round_deserialize rt) L round_info) (\<lambda>round.
    if pa_backend pool \<noteq> Backend.MerkleCohort
       \<or> ra_pool round \<noteq> ai_key pool_info
       \<or> ra_state round \<noteq> State.Registration
       \<or> cnt < pa_min_participants pool
       \<or> cnt > pa_max_participants pool
       \<or> root = zero32
       \<or> ra_cohort_root round \<noteq> zero32
       \<or> pa_authority pool \<noteq> ai_key authority
    then Err (into_program_error InvalidState)
    else write_account (rt_round_to_vec rt) round_info
           (round\<lparr>ra_cohort_root := root, ra_accepted_count := cnt,
                  ra_state := State.ThresholdReached\<rparr>) L)))"

definition seal ::
  "runtime \<Rightarrow> pubkey \<Rightarrow> AccountInfo list \<Rightarrow> ledger \<Rightarrow> ledger program_result" where
  "seal rt program_id accounts L =
    and_then (admin_accounts L program_id accounts) (\<lambda>(pool_info, round_info, authority).
    and_then (read_account (rt_pool_deserialize rt) L pool_info) (\<lambda>pool.
    and_then (read_account (rt_round_deserialize rt) L round_info) (\<lambda>round.
    if pa_authority pool \<noteq> ai_key authority
       \<or> ra_pool round \<noteq> ai_key pool_info
       \<or> ra_state round \<noteq> State.ThresholdReached
       \<or> ra_accepted_count round < pa_min_participants pool
    then Err (into_program_error InvalidState)
    else write_account (rt_round_to_vec rt) round_info
           (round\<lparr>ra_state := State.Sealed\<rparr>) L)))"

definition schedule ::
  "runtime \<Rightarrow> pubkey \<Rightarrow> AccountInfo list \<Rightarrow> u64 \<Rightarrow> ledger \<Rightarrow> ledger program_result" where
  "schedule rt program_id accounts release L =
    and_then (admin_accounts L program_id accounts) (\<lambda>(pool_info, round_info, authority).
    and_then (read_account (rt_pool_deserialize rt) L pool_info) (\<lambda>pool.
    and_then (read_account (rt_round_deserialize rt) L round_info) (\<lambda>round.
    and_then (rt_clock_slot rt) (\<lambda>slot.
    and_then (ok_or (checked_sub release slot) (into_program_error InvalidTiming)) (\<lambda>delay.
    if pa_authority pool \<noteq> ai_key authority
       \<or> ra_state round \<noteq> State.Sealed
       \<or> ra_release_slot round \<noteq> 0
       \<or> delay < pa_min_release_delay pool
       \<or> delay > pa_max_release_delay pool
    then Err (into_program_error InvalidTiming)
    else
    and_then (ok_or (checked_add release (pa_execution_window pool))
                (into_program_error Overflow)) (\<lambda>window_end.
    write_account (rt_round_to_vec rt) round_info
      (round\<lparr>ra_release_slot := release, ra_window_end_slot := window_end,
             ra_state := State.ReleaseScheduled\<rparr>) L))))))"

definition begin_window ::
  "runtime \<Rightarrow> pubkey \<Rightarrow> AccountInfo list \<Rightarrow> ledger \<Rightarrow> ledger program_result" where
  "begin_window rt program_id accounts L =
    and_then (case accounts of [] \<Rightarrow> Err NotEnoughAccountKeys | info # _ \<Rightarrow> Ok info)
      (\<lambda>round_info.
    and_then (require_owned L round_info program_id) (\<lambda>_.
    and_then (read_account (rt_round_deserialize rt) L round_info) (\<lambda>round.
    and_then (rt_clock_slot rt) (\<lambda>slot.
    if ra_state round \<noteq> State.ReleaseScheduled
       \<or> slot < ra_release_slot round
       \<or> slot > ra_window_end_slot round
    then Err (into_program_error InvalidTiming)
    else write_account (rt_round_to_vec rt) round_info
           (round\<lparr>ra_state := State.ExecutionWindow\<rparr>) L))))"

definition finalize ::
  "runtime \<Rightarrow> pubkey \<Rightarrow> AccountInfo list \<Rightarrow> bytes \<Rightarrow> ledger \<Rightarrow> ledger program_result" where
  "finalize rt program_id accounts metrics L =
    and_then (admin_accounts L program_id accounts) (\<lambda>(pool_info, round_info, authority).
    and_then (read_account (rt_pool_deserialize rt) L pool_info) (\<lambda>pool.
    and_then (read_account (rt_round_deserialize rt) L round_info) (\<lambda>round.
    if pa_authority pool \<noteq> ai_key authority \<or> ra_state round \<noteq> State.ExecutionWindow
    then Err (into_program_error InvalidState)
    else
    and_then (rt_clock_slot rt) (\<lambda>slot.
    if slot \<le> ra_window_end_slot round \<or> metrics = zero32
    then Err (into_program_error InvalidState)
    else write_account (rt_round_to_vec rt) round_info
           (round\<lparr>ra_metrics_hash := metrics, ra_state := State.Completed\<rparr>) L))))"

definition cancel ::
  "runtime \<Rightarrow> pubkey \<Rightarrow> AccountInfo list \<Rightarrow> ledger \<Rightarrow> ledger program_result" where
  "cancel rt program_id accounts L =
    and_then (admin_accounts L program_id accounts) (\<lambda>(pool_info, round_info, authority).
    and_then (read_account (rt_pool_deserialize rt) L pool_info) (\<lambda>pool.
    and_then (read_account (rt_round_deserialize rt) L round_info) (\<lambda>round.
    if pa_authority pool \<noteq> ai_key authority
       \<or> ra_state round \<in> {State.Completed, State.Cancelled, State.Expired}
    then Err (into_program_error InvalidState)
    else write_account (rt_round_to_vec rt) round_info
           (round\<lparr>ra_state := State.Cancelled\<rparr>) L)))"

definition close ::
  "runtime \<Rightarrow> pubkey \<Rightarrow> AccountInfo list \<Rightarrow> ledger \<Rightarrow> ledger program_result" where
  "close rt program_id accounts L =
    and_then (admin_accounts L program_id accounts) (\<lambda>(pool_info, round_info, authority).
    and_then (read_account (rt_pool_deserialize rt) L pool_info) (\<lambda>pool.
    and_then (read_account (rt_round_deserialize rt) L round_info) (\<lambda>round.
    if pa_authority pool \<noteq> ai_key authority
       \<or> \<not> ra_state round \<in> {State.Completed, State.Cancelled, State.Expired}
       \<or> \<not> ai_is_writable authority
    then Err (into_program_error InvalidState)
    else
    let rent = ac_lamports (L (ai_key round_info)) in
    and_then (ok_or (checked_add (ac_lamports (L (ai_key authority))) rent)
                (into_program_error Overflow)) (\<lambda>total.
    let L1 = set_lamports (ai_key authority) total L;
        L2 = set_lamports (ai_key round_info) 0 L1;
        data = ac_data (L2 (ai_key round_info))
    in Ok (set_data (ai_key round_info) (replicate (length data) 0) L2)))))"

fun dispatch ::
  "runtime \<Rightarrow> pubkey \<Rightarrow> AccountInfo list \<Rightarrow> CoordinationInstruction \<Rightarrow> ledger
     \<Rightarrow> ledger program_result" where
  "dispatch rt program_id accounts
     (InitializePool pool_id template_hash mn mx min_delay max_delay window backend bump) L =
     initialize rt program_id accounts pool_id template_hash mn mx min_delay max_delay window
       backend bump L"
| "dispatch rt program_id accounts (OpenRound round_id deadline template bump) L =
     open_round rt program_id accounts round_id deadline template bump L"
| "dispatch rt program_id accounts (RegisterTransparent key bump) L =
     register_transparent rt program_id accounts key bump L"
| "dispatch rt program_id accounts (PublishCohortRoot root cnt) L =
     publish_root rt program_id accounts root cnt L"
| "dispatch rt program_id accounts SealRound L = seal rt program_id accounts L"
| "dispatch rt program_id accounts (ScheduleRelease release) L =
     schedule rt program_id accounts release L"
| "dispatch rt program_id accounts BeginExecutionWindow L = begin_window rt program_id accounts L"
| "dispatch rt program_id accounts (FinalizeRound metrics) L =
     finalize rt program_id accounts metrics L"
| "dispatch rt program_id accounts CancelRound L = cancel rt program_id accounts L"
| "dispatch rt program_id accounts CloseRound L = close rt program_id accounts L"

definition process_instruction ::
  "runtime \<Rightarrow> pubkey \<Rightarrow> AccountInfo list \<Rightarrow> bytes \<Rightarrow> ledger \<Rightarrow> ledger program_result" where
  "process_instruction rt program_id accounts data L =
    and_then (ok_or (rt_try_instruction rt data) InvalidInstructionData) (\<lambda>instruction.
    dispatch rt program_id accounts instruction L)"

section \<open>Reading what was written\<close>

text \<open>
  The contract of a Borsh codec the program relies on: \<open>deserialize\<close> reads back what
  \<open>to_vec\<close> wrote and ignores what follows it (\<open>T::deserialize\<close> does not require the
  slice to be used up).
\<close>

locale account_codec =
  fixes to_vec :: "'a \<Rightarrow> bytes option"
    and deserialize :: "bytes \<Rightarrow> 'a option"
  assumes decode_encode: "to_vec x = Some bs \<Longrightarrow> deserialize (bs @ rest) = Some x"
begin

lemma read_after_write:
  assumes "write_account to_vec info x L = Ok L'"
  shows "read_account deserialize L' info = Ok x"
  using assms
  by (auto simp: write_account_def read_account_def set_data_def Let_def decode_encode
      result_simps split: if_splits)

lemma encode_inj:
  assumes "to_vec x = Some bs" "to_vec y = Some bs"
  shows "x = y"
  using decode_encode [OF assms(1), of "[]"] decode_encode [OF assms(2), of "[]"] by simp

end

lemma set_lamports_simps [simp]:
  "ac_data (set_lamports k n L k') = ac_data (L k')"
  "ac_owner (set_lamports k n L k') = ac_owner (L k')"
  "ac_lamports (set_lamports k n L k') = (if k' = k then n else ac_lamports (L k'))"
  by (simp_all add: set_lamports_def)

lemma set_data_simps [simp]:
  "ac_lamports (set_data k bs L k') = ac_lamports (L k')"
  "ac_owner (set_data k bs L k') = ac_owner (L k')"
  "ac_data (set_data k bs L k') = (if k' = k then bs else ac_data (L k'))"
  by (simp_all add: set_data_def)

lemma write_account_Ok_iff:
  "write_account to_vec info x L = Ok L' \<longleftrightarrow>
    (\<exists>bs. to_vec x = Some bs \<and> length bs \<le> length (ac_data (L (ai_key info)))
      \<and> L' = set_data (ai_key info)
               (bs @ replicate (length (ac_data (L (ai_key info))) - length bs) 0) L)"
  by (cases "to_vec x") (auto simp: write_account_def Let_def)

lemma write_account_frame:
  assumes "write_account to_vec info x L = Ok L'"
  shows "k \<noteq> ai_key info \<Longrightarrow> L' k = L k"
    and "ac_owner (L' k) = ac_owner (L k)"
    and "ac_lamports (L' k) = ac_lamports (L k)"
    and "length (ac_data (L' k)) = length (ac_data (L k))"
  using assms by (auto simp: write_account_Ok_iff set_data_def)

lemma next_account_info_Ok_iff:
  "next_account_info accounts = Ok p \<longleftrightarrow> accounts = fst p # snd p"
  by (cases accounts; cases p) auto

lemma require_signer_Ok_iff: "require_signer info = Ok u \<longleftrightarrow> ai_is_signer info"
  by (simp add: require_signer_def)

lemma require_owned_Ok_iff:
  "require_owned L info program_id = Ok u \<longleftrightarrow> ac_owner (L (ai_key info)) = program_id"
  by (simp add: require_owned_def)

lemma admin_accounts_Ok_iff:
  "admin_accounts L program_id accounts = Ok t \<longleftrightarrow>
    (\<exists>pool round authority rest. t = (pool, round, authority)
      \<and> accounts = authority # pool # round # rest
      \<and> ai_is_signer authority
      \<and> ac_owner (L (ai_key pool)) = program_id \<and> ac_owner (L (ai_key round)) = program_id)"
  by (auto simp: admin_accounts_def result_simps next_account_info_Ok_iff require_signer_Ok_iff
      require_owned_Ok_iff)

lemma read_account_Ok_iff:
  "read_account deserialize L info = Ok x \<longleftrightarrow> deserialize (ac_data (L (ai_key info))) = Some x"
  by (simp add: read_account_def ok_or_Ok_iff)

lemma create_pda_account_Ok_iff:
  "create_pda_account rt payer account system program_id space seeds L = Ok L' \<longleftrightarrow>
    (ac_owner (L (ai_key account)) = program_id
      \<and> (ac_data (L (ai_key account)) = [] \<or> hd (ac_data (L (ai_key account))) = 0) \<and> L' = L)
    \<or> (ac_owner (L (ai_key account)) \<noteq> program_id
      \<and> ai_key system = rt_system_program rt
      \<and> ac_owner (L (ai_key account)) = rt_system_program rt
      \<and> ac_data (L (ai_key account)) = []
      \<and> (\<exists>lamports. rt_minimum_balance rt space = Ok lamports
           \<and> rt_create_account rt payer account lamports (of_nat space) program_id seeds L = Ok L'))"
  by (auto simp: create_pda_account_def Let_def result_simps split: list.splits if_splits)

lemmas handler_simps =
  result_simps next_account_info_Ok_iff require_signer_Ok_iff require_owned_Ok_iff
  admin_accounts_Ok_iff read_account_Ok_iff

end
