(* ===== verification/MP_Client.thy ===== *)
theory MP_Client
  imports MP_Actions MP_Merkle MP_Crypto MP_Program
begin

text \<open>
  The participant SDK (\<open>src/crates/mirror-pool-client/src/lib.rs\<close>): ticket and cohort
  wrappers, the configuration check, the guarded execution of a memo action and the builders
  of the program's instructions.

  The RPC client, the wallet file, transaction signing, base-58 parsing, program-address
  search and Borsh are other packages and are arguments. \<open>execute_local_memo\<close> also returns
  the calls it made to them, in order, so that what was sent and what was checked before can
  be stated.
\<close>

section \<open>Errors and wrappers\<close>

datatype ClientError =
    Ticket
  | Merkle
  | Configuration
  | ExecutionDisabled
  | UnsupportedAction
  | InvalidProgram
  | OutsideExecutionWindow
  | SafetyPolicy
  | Wallet
  | Rpc
  | Serialization

type_synonym 'a client_result = "('a, ClientError) result"

record RpcInspection =
  ri_identity :: string
  ri_genesis_hash :: string
  ri_software_version :: string
  ri_slot :: u64

text \<open>The arguments are the answers of the endpoint, \<open>None\<close> when a request fails.\<close>

definition inspect_rpc ::
  "string option \<Rightarrow> string option \<Rightarrow> string option \<Rightarrow> u64 option \<Rightarrow> RpcInspection client_result" where
  "inspect_rpc get_version get_identity get_genesis_hash get_slot =
    and_then (ok_or get_version Rpc) (\<lambda>version.
    and_then (ok_or get_identity Rpc) (\<lambda>identity.
    and_then (ok_or get_genesis_hash Rpc) (\<lambda>genesis_hash.
    and_then (ok_or get_slot Rpc) (\<lambda>slot.
    Ok \<lparr>ri_identity = identity, ri_genesis_hash = genesis_hash,
        ri_software_version = version, ri_slot = slot\<rparr>))))"

definition create_join_ticket ::
  "('sk, 'vk) crypto \<Rightarrow> bytes \<Rightarrow> 'sk \<Rightarrow> TicketBinding \<Rightarrow> u64
     \<Rightarrow> (JoinTicket \<times> SecretNonce) client_result" where
  "create_join_ticket cr nonce signing_key binding expiry_slot =
     map_err (\<lambda>_. Ticket)
       (JoinTicket_create cr nonce signing_key (tb_pool_id binding) (tb_round_id binding)
          (tb_action_template_hash binding) expiry_slot)"

definition verify_join_ticket ::
  "('sk, 'vk) crypto \<Rightarrow> JoinTicket \<Rightarrow> u64 \<Rightarrow> TicketBinding \<Rightarrow> unit client_result" where
  "verify_join_ticket cr ticket slot binding =
     map_err (\<lambda>_. Ticket) (JoinTicket_verify cr ticket slot binding)"

definition build_merkle_cohort ::
  "('sk, 'vk) crypto \<Rightarrow> JoinTicket list \<Rightarrow> MP_Merkle.MerkleCohort client_result" where
  "build_merkle_cohort cr tickets =
    and_then (map_err (\<lambda>_. Ticket) (traverse (JoinTicket_commitment cr) tickets)) (\<lambda>leaves.
    map_err (\<lambda>_. Merkle) (MerkleCohort_build (cr_blake3 cr) leaves))"

definition generate_cohort_proof ::
  "('sk, 'vk) crypto \<Rightarrow> MP_Merkle.MerkleCohort \<Rightarrow> JoinTicket \<Rightarrow> u64 \<Rightarrow> CohortProof client_result" where
  "generate_cohort_proof cr cohort ticket round =
    and_then (map_err (\<lambda>_. Ticket) (JoinTicket_commitment cr ticket)) (\<lambda>leaf.
    map_err (\<lambda>_. Merkle) (MerkleCohort_proof cohort leaf round))"

definition verify_cohort_proof ::
  "(bytes \<Rightarrow> bytes) \<Rightarrow> CohortProof \<Rightarrow> Digest32 \<Rightarrow> u64 \<Rightarrow> unit client_result" where
  "verify_cohort_proof blake3 prf root round =
     map_err (\<lambda>_. Merkle) (CohortProof_verify blake3 prf root round)"

definition verify_round_configuration ::
  "(bytes \<Rightarrow> bytes) \<Rightarrow> (PoolConfig \<Rightarrow> bytes option) \<Rightarrow> PoolConfig \<Rightarrow> Round \<Rightarrow> unit client_result" where
  "verify_round_configuration blake3 to_vec pool round =
    and_then (map_err (\<lambda>_. Configuration) (PoolConfig_validate blake3 to_vec pool)) (\<lambda>_.
    if pc_pool_id pool \<noteq> rd_pool_id round
       \<or> pc_action_template_hash pool \<noteq> rd_action_template_hash round
       \<or> pc_privacy_backend pool \<noteq> rd_privacy_backend round
    then Err Configuration
    else Ok ())"

section \<open>Guarded execution\<close>

record LocalExecutionReceipt =
  lr_signature :: string
  lr_observed_slot :: u64
  lr_estimated_fee_lamports :: u64

record Instruction =
  in_program_id :: pubkey
  in_accounts :: "AccountInfo list"
  in_data :: bytes

text \<open>Calls to the endpoint and the wallet, in the order they are made.\<close>

datatype 'tx call = GetSlot | ReadKeypair | GetLatestBlockhash | Simulate 'tx | GetFee 'tx | Send 'tx

record ('kp, 'tx) endpoint =
  ep_get_slot :: "u64 option"
  ep_read_keypair_file :: "'kp option"
  ep_get_latest_blockhash :: "bytes option"
  ep_new_signed_with_payer :: "Instruction list \<Rightarrow> 'kp \<Rightarrow> bytes \<Rightarrow> 'tx"
  ep_simulate_transaction :: "'tx \<Rightarrow> bool option"
  ep_get_fee_for_message :: "'tx \<Rightarrow> u64 option"
  ep_send_and_confirm :: "'tx \<Rightarrow> string option"

text \<open>
  \<open>attempt c answer e k\<close> makes the call \<open>c\<close>, returns the error \<open>e\<close> if it is not answered
  and goes on with \<open>k\<close> otherwise; \<open>check\<close> is a fallible step without a call.
\<close>

type_synonym ('a, 'tx) traced = "'tx call list \<times> 'a client_result"

definition attempt ::
  "'tx call \<Rightarrow> 'b option \<Rightarrow> ClientError \<Rightarrow> ('b \<Rightarrow> ('a, 'tx) traced) \<Rightarrow> ('a, 'tx) traced" where
  "attempt c answer e k =
    (case answer of
       None \<Rightarrow> ([c], Err e)
     | Some b \<Rightarrow> (case k b of (cs, m) \<Rightarrow> (c # cs, m)))"

definition check :: "'b client_result \<Rightarrow> (unit \<Rightarrow> ('a, 'tx) traced) \<Rightarrow> ('a, 'tx) traced" where
  "check m k = (case m of Ok _ \<Rightarrow> k () | Err e \<Rightarrow> ([], Err e) | Panic \<Rightarrow> ([], Panic))"

definition memo_policy :: "pubkey \<Rightarrow> SafetyPolicy" where
  "memo_policy memo_program = SafetyPolicy_default\<lparr>
     sp_dry_run := False, sp_sending_enabled := True,
     sp_allowed_program_ids := [memo_program], sp_allowed_templates := [''memo-v1'']\<rparr>"

text \<open>
  \<open>memo\<close> is the parsed address of the memo program; the build feature is \<open>public_cluster\<close>.
\<close>

definition execute_local_memo ::
  "bool \<Rightarrow> pubkey option \<Rightarrow> ('kp, 'tx) endpoint \<Rightarrow> PreparedAction \<Rightarrow> host \<Rightarrow> u64 \<Rightarrow> u64
     \<Rightarrow> bool \<Rightarrow> bool \<Rightarrow> (LocalExecutionReceipt, 'tx) traced" where
  "execute_local_memo public_cluster memo ep action rpc_url window_start window_end
     explicit_confirmation sending_enabled =
    (if \<not> explicit_confirmation \<or> \<not> sending_enabled then ([], Err ExecutionDisabled)
     else if ac_template_id action \<noteq> ''memo-v1'' then ([], Err UnsupportedAction)
     else case memo of
       None \<Rightarrow> ([], Err InvalidProgram)
     | Some memo_program \<Rightarrow>
       if ac_program_ids action \<noteq> [memo_program] then ([], Err InvalidProgram)
       else
       attempt GetSlot (ep_get_slot ep) Rpc (\<lambda>slot.
       if slot < window_start \<or> slot > window_end then ([], Err OutsideExecutionWindow)
       else
       let policy = memo_policy memo_program in
       check (map_err (\<lambda>_. ClientError.SafetyPolicy)
                (SafetyPolicy_validate public_cluster policy action rpc_url False False 0 False))
         (\<lambda>_.
       attempt ReadKeypair (ep_read_keypair_file ep) Wallet (\<lambda>keypair.
       attempt GetLatestBlockhash (ep_get_latest_blockhash ep) Rpc (\<lambda>blockhash.
       let instruction = \<lparr>in_program_id = memo_program, in_accounts = [],
                          in_data = ac_payload action\<rparr>;
           transaction = ep_new_signed_with_payer ep [instruction] keypair blockhash in
       attempt (Simulate transaction) (ep_simulate_transaction ep transaction) Rpc (\<lambda>simulated.
       attempt (GetFee transaction) (ep_get_fee_for_message ep transaction) Rpc (\<lambda>fee.
       check (map_err (\<lambda>_. ClientError.SafetyPolicy)
                (SafetyPolicy_validate public_cluster policy action rpc_url True simulated fee True))
         (\<lambda>_.
       attempt (Send transaction) (ep_send_and_confirm ep transaction) Rpc (\<lambda>signature.
       ([], Ok \<lparr>lr_signature = signature, lr_observed_slot = slot,
                lr_estimated_fee_lamports = fee\<rparr>))))))))))"

section \<open>Instruction builders\<close>

record sdk =
  sdk_find_program_address :: "bytes list \<Rightarrow> pubkey \<Rightarrow> (pubkey \<times> u8) option"
  sdk_instruction_to_vec :: "CoordinationInstruction \<Rightarrow> bytes option"
  sdk_system_program :: pubkey

text \<open>The search panics when no bump gives a valid address.\<close>

definition find_program_address ::
  "sdk \<Rightarrow> bytes list \<Rightarrow> pubkey \<Rightarrow> (pubkey \<times> u8) client_result" where
  "find_program_address sdk seeds program_id =
     (case sdk_find_program_address sdk seeds program_id of None \<Rightarrow> Panic | Some p \<Rightarrow> Ok p)"

definition derive_pool_address :: "sdk \<Rightarrow> pubkey \<Rightarrow> Digest32 \<Rightarrow> (pubkey \<times> u8) client_result" where
  "derive_pool_address sdk program_id pool_id =
     find_program_address sdk [ascii ''pool'', digest_bytes pool_id] program_id"

definition derive_round_address ::
  "sdk \<Rightarrow> pubkey \<Rightarrow> pubkey \<Rightarrow> u64 \<Rightarrow> (pubkey \<times> u8) client_result" where
  "derive_round_address sdk program_id pool round_id =
     find_program_address sdk [ascii ''round'', pool, le_bytes 8 (unat round_id)] program_id"

definition meta :: "pubkey \<Rightarrow> bool \<Rightarrow> AccountInfo" where
  "meta key signer = \<lparr>ai_key = key, ai_is_signer = signer, ai_is_writable = True\<rparr>"

definition meta_readonly :: "pubkey \<Rightarrow> bool \<Rightarrow> AccountInfo" where
  "meta_readonly key signer = \<lparr>ai_key = key, ai_is_signer = signer, ai_is_writable = False\<rparr>"

definition encode :: "sdk \<Rightarrow> CoordinationInstruction \<Rightarrow> bytes client_result" where
  "encode sdk v = ok_or (sdk_instruction_to_vec sdk v) ClientError.Serialization"

definition initialize_pool_instruction ::
  "sdk \<Rightarrow> pubkey \<Rightarrow> pubkey \<Rightarrow> bytes \<Rightarrow> bytes \<Rightarrow> u32 \<Rightarrow> u32 \<Rightarrow> u64 \<Rightarrow> u64 \<Rightarrow> u64 \<Rightarrow> Backend
     \<Rightarrow> (Instruction \<times> pubkey) client_result" where
  "initialize_pool_instruction sdk program_id authority pool_id template_hash min_participants
     max_participants min_release_delay max_release_delay execution_window backend =
    and_then (find_program_address sdk [ascii ''pool'', pool_id] program_id) (\<lambda>(pool, bump).
    and_then (encode sdk (InitializePool pool_id template_hash min_participants max_participants
                min_release_delay max_release_delay execution_window backend bump)) (\<lambda>data.
    Ok (\<lparr>in_program_id = program_id,
         in_accounts = [meta authority True, meta pool False,
                        meta_readonly (sdk_system_program sdk) False],
         in_data = data\<rparr>, pool)))"

definition open_round_instruction ::
  "sdk \<Rightarrow> pubkey \<Rightarrow> pubkey \<Rightarrow> pubkey \<Rightarrow> u64 \<Rightarrow> u64 \<Rightarrow> bytes \<Rightarrow> (Instruction \<times> pubkey) client_result" where
  "open_round_instruction sdk program_id authority pool round_id registration_deadline
     template_hash =
    and_then (find_program_address sdk [ascii ''round'', pool, le_bytes 8 (unat round_id)]
                program_id) (\<lambda>(round, bump).
    and_then (encode sdk (OpenRound round_id registration_deadline template_hash bump)) (\<lambda>data.
    Ok (\<lparr>in_program_id = program_id,
         in_accounts = [meta authority True, meta pool False, meta round False,
                        meta_readonly (sdk_system_program sdk) False],
         in_data = data\<rparr>, round)))"

definition admin_round_instruction ::
  "sdk \<Rightarrow> pubkey \<Rightarrow> pubkey \<Rightarrow> pubkey \<Rightarrow> pubkey \<Rightarrow> CoordinationInstruction
     \<Rightarrow> Instruction client_result" where
  "admin_round_instruction sdk program_id authority pool round instruction =
    and_then (encode sdk instruction) (\<lambda>data.
    Ok \<lparr>in_program_id = program_id,
        in_accounts = [meta authority True, meta pool False, meta round False],
        in_data = data\<rparr>)"

definition begin_window_instruction :: "sdk \<Rightarrow> pubkey \<Rightarrow> pubkey \<Rightarrow> Instruction client_result" where
  "begin_window_instruction sdk program_id round =
    and_then (encode sdk BeginExecutionWindow) (\<lambda>data.
    Ok \<lparr>in_program_id = program_id, in_accounts = [meta round False], in_data = data\<rparr>)"

section \<open>What was checked before a send\<close>

lemma attempt_Ok_iff [result_simps]:
  "snd (attempt c answer e k) = Ok r \<longleftrightarrow> (\<exists>b. answer = Some b \<and> snd (k b) = Ok r)"
  by (cases answer) (auto simp: attempt_def split: prod.splits)

lemma check_Ok_iff [result_simps]:
  "snd (check m k) = Ok r \<longleftrightarrow> is_ok m \<and> snd (k ()) = Ok r"
  by (cases m) (auto simp: check_def)

lemma attempt_trace:
  "Send tx \<in> set (fst (attempt c answer e k)) \<longleftrightarrow>
     c = Send tx \<or> (\<exists>b. answer = Some b \<and> Send tx \<in> set (fst (k b)))"
  by (cases answer) (auto simp: attempt_def split: prod.splits)

lemma check_trace:
  "Send tx \<in> set (fst (check m k)) \<longleftrightarrow> is_ok m \<and> Send tx \<in> set (fst (k ()))"
  by (cases m) (auto simp: check_def)

lemma map_err_is_ok [simp]: "is_ok (map_err g m) = is_ok m"
  by (cases m) auto

lemma is_ok_unit: "is_ok m \<longleftrightarrow> m = Ok ()"
  by (cases m) auto

definition memo_transaction ::
  "('kp, 'tx) endpoint \<Rightarrow> pubkey \<Rightarrow> PreparedAction \<Rightarrow> 'kp \<Rightarrow> bytes \<Rightarrow> 'tx" where
  "memo_transaction ep memo_program action keypair blockhash =
     ep_new_signed_with_payer ep
       [\<lparr>in_program_id = memo_program, in_accounts = [], in_data = ac_payload action\<rparr>]
       keypair blockhash"

text \<open>Everything that holds when a transaction is handed to the endpoint for sending.\<close>

definition send_justified ::
  "pubkey option \<Rightarrow> ('kp, 'tx) endpoint \<Rightarrow> PreparedAction \<Rightarrow> host \<Rightarrow> u64 \<Rightarrow> u64 \<Rightarrow> u64 \<Rightarrow> u64 \<Rightarrow> 'tx
     \<Rightarrow> bool" where
  "send_justified memo ep action url window_start window_end slot fee tx \<longleftrightarrow>
     is_loopback url \<and> ep_get_slot ep = Some slot \<and> window_start \<le> slot \<and> slot \<le> window_end \<and>
     ac_template_id action = ''memo-v1'' \<and> within_default_limits action \<and>
     (\<exists>program keypair blockhash. memo = Some program \<and> ac_program_ids action = [program] \<and>
        ep_read_keypair_file ep = Some keypair \<and> ep_get_latest_blockhash ep = Some blockhash \<and>
        tx = memo_transaction ep program action keypair blockhash) \<and>
     ep_simulate_transaction ep tx = Some True \<and>
     ep_get_fee_for_message ep tx = Some fee \<and> fee \<le> 20000"

lemma memo_policy_simps [simp]:
  "sp_emergency_stop (memo_policy m) = False" "sp_dry_run (memo_policy m) = False"
  "sp_sending_enabled (memo_policy m) = True" "sp_loopback_only (memo_policy m) = True"
  "sp_simulation_required (memo_policy m) = True"
  "sp_allowed_templates (memo_policy m) = [''memo-v1'']"
  "sp_allowed_program_ids (memo_policy m) = [m]"
  "sp_max_compute_units (memo_policy m) = 200000"
  "sp_max_priority_fee_micro_lamports (memo_policy m) = 1000"
  "sp_max_transaction_fee_lamports (memo_policy m) = 20000"
  "sp_max_local_value (memo_policy m) = 1000000"
  by (simp_all add: memo_policy_def SafetyPolicy_default_def)

lemma memo_policy_validates:
  "SafetyPolicy_validate pc (memo_policy m) a url sending simulated fee confirmed = Ok () \<longleftrightarrow>
     ac_template_id a = ''memo-v1'' \<and> ac_program_ids a = [m] \<and> within_default_limits a \<and>
     fee \<le> 20000 \<and> is_loopback url \<and> (sending \<longrightarrow> simulated \<and> confirmed)"
  unfolding validate_Ok_iff within_default_limits_def memo_policy_simps
  by (cases "ac_program_ids a") auto

lemma execute_sends:
  assumes "Send tx \<in> set (fst (execute_local_memo pc memo ep a url ws we conf send))"
  shows "conf \<and> send \<and> (\<exists>slot fee. send_justified memo ep a url ws we slot fee tx)"
  using assms unfolding execute_local_memo_def
  by (auto simp: attempt_trace check_trace is_ok_unit map_err_Ok_iff memo_policy_validates
      send_justified_def memo_transaction_def Let_def not_less split: if_splits option.splits)

lemma execute_justified:
  assumes "conf" "send" "send_justified memo ep a url ws we slot fee tx"
  shows "execute_local_memo pc memo ep a url ws we conf send =
    ([GetSlot, ReadKeypair, GetLatestBlockhash, Simulate tx, GetFee tx, Send tx],
     case ep_send_and_confirm ep tx of
       None \<Rightarrow> Err Rpc
     | Some signature \<Rightarrow> Ok \<lparr>lr_signature = signature, lr_observed_slot = slot,
                              lr_estimated_fee_lamports = fee\<rparr>)"
proof -
  have v: "SafetyPolicy_validate pc (memo_policy m) a url sending True f True = Ok ()"
    "SafetyPolicy_validate pc (memo_policy m) a url False False 0 False = Ok ()"
    if "ac_program_ids a = [m]" "f = fee" for m f sending
    using that assms(3) by (simp_all add: memo_policy_validates send_justified_def)
  show ?thesis
    using assms unfolding execute_local_memo_def send_justified_def
    by (auto simp: attempt_def check_def v Let_def memo_transaction_def not_less
        split: option.splits)
qed

text \<open>
  C21. The SDK sends only what it has checked: if the guarded execution hands a transaction to
  the endpoint, then the participant confirmed and enabled sending, the endpoint is loopback,
  the slot it reported lies in the execution window, the action is a memo within the default
  limits for the memo program, the transaction is the one memo instruction with the action's
  payload signed by the participant's own key, its simulation succeeded and its fee is at
  most 20000 lamports; it is the only transaction sent, after its own simulation and fee
  query, as the last call.
\<close>

theorem execution_sends_only_checked:
  assumes "Send tx \<in> set (fst (execute_local_memo pc memo ep a url ws we conf send))"
  shows "conf \<and> send \<and> (\<exists>slot fee. send_justified memo ep a url ws we slot fee tx) \<and>
    fst (execute_local_memo pc memo ep a url ws we conf send) =
      [GetSlot, ReadKeypair, GetLatestBlockhash, Simulate tx, GetFee tx, Send tx]"
  using execute_sends [OF assms] execute_justified by fastforce

text \<open>A cooperative endpoint, whose transactions are the instructions and the key.\<close>

definition sample_endpoint :: "(bytes, Instruction list \<times> bytes \<times> bytes) endpoint" where
  "sample_endpoint = \<lparr>ep_get_slot = Some 505, ep_read_keypair_file = Some [1],
     ep_get_latest_blockhash = Some [2],
     ep_new_signed_with_payer = (\<lambda>ins kp bh. (ins, kp, bh)),
     ep_simulate_transaction = (\<lambda>_. Some True), ep_get_fee_for_message = (\<lambda>_. Some 5000),
     ep_send_and_confirm = (\<lambda>_. Some ''sig'')\<rparr>"

definition sample_memo :: PreparedAction where
  "sample_memo = \<lparr>ac_template_id = ''memo-v1'', ac_program_ids = [[4]], ac_instruction_count = 1,
      ac_payload = [104, 105] @ replicate 14 32, ac_compute_units = 10000,
      ac_priority_fee_micro_lamports = 0, ac_value = 0, ac_estimated_size = 116,
      ac_safety = LowRisk\<rparr>"

lemma sample_memo_prepared:
  "MemoTemplate_prepare \<lparr>mt_memo_program_id = [4]\<rparr> (Memo [104, 105]) = Ok sample_memo"
  by code_simp

theorem execution_sends_only_checked_witness:
  "fst (execute_local_memo False (Some [4]) sample_endpoint sample_memo (Some ''127.0.0.1'')
      500 504 True True) = [GetSlot]
   \<and> (\<exists>slot fee. send_justified (Some [4]) sample_endpoint sample_memo (Some ''127.0.0.1'')
        500 510 slot fee
        ([\<lparr>in_program_id = [4], in_accounts = [], in_data = ac_payload sample_memo\<rparr>], [1], [2]))"
proof -
  have sent: "Send ([\<lparr>in_program_id = [4], in_accounts = [],
          in_data = ac_payload sample_memo\<rparr>], [1], [2])
      \<in> set (fst (execute_local_memo False (Some [4]) sample_endpoint sample_memo
          (Some ''127.0.0.1'') 500 510 True True))"
    by code_simp
  moreover have "fst (execute_local_memo False (Some [4]) sample_endpoint sample_memo
      (Some ''127.0.0.1'') 500 504 True True) = [GetSlot]" by code_simp
  ultimately show ?thesis using execution_sends_only_checked [OF sent] by blast
qed

text \<open>
  A memo the built-in template prepared is executed: against a loopback endpoint that
  answers, reports a slot in the window, simulates the transaction successfully, quotes at
  most 20000 lamports and confirms, the guarded execution returns the receipt with that
  signature, slot and fee. Neither policy check stands in its way.
\<close>

theorem prepared_memo_executes:
  assumes "MemoTemplate_prepare \<lparr>mt_memo_program_id = program\<rparr> ps = Ok a"
    and "is_loopback url" "ep_get_slot ep = Some slot" "ws \<le> slot" "slot \<le> we"
    and "ep_read_keypair_file ep = Some kp" "ep_get_latest_blockhash ep = Some bh"
    and "ep_simulate_transaction ep (memo_transaction ep program a kp bh) = Some True"
    and "ep_get_fee_for_message ep (memo_transaction ep program a kp bh) = Some fee"
    and "fee \<le> 20000"
    and "ep_send_and_confirm ep (memo_transaction ep program a kp bh) = Some signature"
  shows "snd (execute_local_memo pc (Some program) ep a url ws we True True)
    = Ok \<lparr>lr_signature = signature, lr_observed_slot = slot, lr_estimated_fee_lamports = fee\<rparr>"
proof -
  have "dr_prepare (MemoTemplate_driver id \<lparr>mt_memo_program_id = program\<rparr>) ps = Ok a"
    using assms(1) by (simp add: MemoTemplate_driver_def)
  note m = memo.identity [OF this] memo.limits [OF this]
  have "send_justified (Some program) ep a url ws we slot fee (memo_transaction ep program a kp bh)"
    using m assms by (simp add: send_justified_def MemoTemplate_driver_def)
  from execute_justified [OF _ _ this] show ?thesis using assms(11) by simp
qed

theorem prepared_memo_executes_witness:
  "snd (execute_local_memo False (Some [4]) sample_endpoint sample_memo (Some ''::1'')
      500 510 True True)
   = Ok \<lparr>lr_signature = ''sig'', lr_observed_slot = 505, lr_estimated_fee_lamports = 5000\<rparr>"
  by (rule prepared_memo_executes [OF sample_memo_prepared, where kp = "[1]" and bh = "[2]"])
    (simp_all add: sample_endpoint_def is_loopback_def)

section \<open>Cohorts\<close>

lemma commitments_member:
  assumes "traverse (JoinTicket_commitment cr) tickets = Ok leaves" "t \<in> set tickets"
  obtains c where "JoinTicket_commitment cr t = Ok c" "c \<in> set leaves"
proof -
  have "JoinTicket_commitment cr t \<in> Ok ` set leaves"
    using assms by (metis traverse_Ok_iff image_eqI list.set_map)
  then show ?thesis using that by auto
qed

text \<open>
  A cohort built from tickets has one root, and for every one of these tickets the SDK
  generates a proof for the ticket's commitment that the SDK accepts against this root.
\<close>

theorem client_cohort_proofs:
  assumes "build_merkle_cohort cr tickets = Ok cohort"
  shows "\<exists>root. MerkleCohort_root cohort = Ok root \<and>
    (\<forall>t \<in> set tickets. \<exists>c prf. JoinTicket_commitment cr t = Ok c \<and>
       generate_cohort_proof cr cohort t round = Ok prf \<and> cp_leaf_hash prf = c \<and>
       verify_cohort_proof (cr_blake3 cr) prf root round = Ok ())"
proof -
  obtain leaves where leaves: "traverse (JoinTicket_commitment cr) tickets = Ok leaves"
    and build: "MerkleCohort_build (cr_blake3 cr) leaves = Ok cohort"
    using assms by (auto simp: build_merkle_cohort_def result_simps simp del: build_Ok_iff)
  obtain root where root: "MerkleCohort_root cohort = Ok root"
    using merkle.root_total [OF build] by blast
  have "\<exists>c prf. JoinTicket_commitment cr t = Ok c \<and>
      generate_cohort_proof cr cohort t round = Ok prf \<and> cp_leaf_hash prf = c \<and>
      verify_cohort_proof (cr_blake3 cr) prf root round = Ok ()" if "t \<in> set tickets" for t
  proof -
    obtain c where "JoinTicket_commitment cr t = Ok c" "c \<in> set leaves"
      using commitments_member [OF leaves \<open>t \<in> set tickets\<close>] .
    with member_proof_verifies [OF build \<open>c \<in> set leaves\<close>, of round] root show ?thesis
      by (auto simp: generate_cohort_proof_def verify_cohort_proof_def)
  qed
  then show ?thesis using root by blast
qed

definition plain_crypto :: "(bytes, bytes) crypto" where
  "plain_crypto = sample_crypto\<lparr>cr_blake3 := (\<lambda>bs. bs)\<rparr>"

lemma plain_cohort:
  "\<exists>cohort. build_merkle_cohort plain_crypto [sample_ticket 1, sample_ticket 2] = Ok cohort"
proof -
  obtain c where c: "\<And>k. JoinTicket_commitment plain_crypto (sample_ticket k) = Ok (c k)"
    "\<And>k. c k = Digest32 (hash_input (ascii ''join-ticket'') (replicate 32 k @ replicate 64 k))"
    by (simp add: JoinTicket_commitment_def canonical_bytes_def plain_crypto_def sample_crypto_def
        sample_ticket_def Digest32_hash_def)
  have "c 1 \<noteq> c 2" by (simp add: c(2) hash_input_def Let_def)
  then show ?thesis
    by (simp add: build_merkle_cohort_def c(1) build_Ok_iff MAX_LEAVES_def map_err_Ok_iff)
qed

theorem client_cohort_proofs_witness:
  "\<exists>cohort root prf. build_merkle_cohort plain_crypto [sample_ticket 1, sample_ticket 2] = Ok cohort
     \<and> MerkleCohort_root cohort = Ok root
     \<and> generate_cohort_proof plain_crypto cohort (sample_ticket 2) 7 = Ok prf
     \<and> verify_cohort_proof (cr_blake3 plain_crypto) prf root 7 = Ok ()"
proof -
  obtain cohort where
    "build_merkle_cohort plain_crypto [sample_ticket 1, sample_ticket 2] = Ok cohort"
    using plain_cohort by blast
  with client_cohort_proofs [OF this, of 7] show ?thesis by auto
qed

end
