(* ===== verification/MP_Store.thy ===== *)
theory MP_Store
  imports MP_Merkle MP_Crypto
begin

text \<open>
  The durable store (\<open>src/crates/mirror-pool-store/src/lib.rs\<close>): its tables, its SQL
  statements and the operations that compose them.

  A database is a record of tables; a table is the list of its rows in insertion order. The
  meaning of the SQL text in the source (uniqueness, \<open>CHECK\<close> and foreign-key constraints,
  \<open>ON CONFLICT\<close>, \<open>ORDER BY\<close>) is written out in the definitions. SQLite and
  \<open>serde_json\<close> are other packages: the record \<open>env\<close> gives, for one call of an operation,
  the failure of each statement, if any, the time it runs at, and the JSON codecs.

  Every operation, and every step of one, returns its result together with the database it
  leaves behind. A statement that fails changes nothing by itself, but an operation that fails
  after some of its statements keeps what they wrote, unless it runs them in a \<open>transaction\<close>:
  rusqlite's guard rolls back, when it is dropped, what was not committed.
\<close>

section \<open>Tables\<close>

record PoolRow =
  pl_pool_id :: bytes
  pl_config_json :: string
  pl_created_at :: string

record RoundRow =
  rr_pool_id :: bytes
  rr_round_id :: int
  rr_round_json :: string
  rr_state :: string
  rr_updated_at :: string

record TicketRow =
  tr_pool_id :: bytes
  tr_round_id :: int
  tr_commitment :: bytes
  tr_coordination_key :: bytes
  tr_ticket_json :: string
  tr_accepted_at :: string

record RootRow =
  ro_pool_id :: bytes
  ro_round_id :: int
  ro_root :: bytes
  ro_cohort_size :: int
  ro_published_at :: string

record ProofRow =
  pf_pool_id :: bytes
  pf_round_id :: int
  pf_commitment :: bytes
  pf_proof_json :: string

record ScheduleRow =
  sc_pool_id :: bytes
  sc_round_id :: int
  sc_release_slot :: int
  sc_window_end_slot :: int
  sc_created_at :: string

record SnapshotRow =
  sn_hash :: bytes
  sn_config_json :: string
  sn_created_at :: string

record EventRow =
  ev_pool_id :: "bytes option"
  ev_round_id :: "int option"
  ev_event_type :: string
  ev_payload_hash :: bytes
  ev_occurred_at :: string

record Db =
  db_foreign_keys :: bool
  db_schema_migrations :: "(int \<times> string) list"
  db_pools :: "PoolRow list"
  db_rounds :: "RoundRow list"
  db_join_tickets :: "TicketRow list"
  db_cohort_roots :: "RootRow list"
  db_cohort_proofs :: "ProofRow list"
  db_release_schedules :: "ScheduleRow list"
  db_configuration_snapshots :: "SnapshotRow list"
  db_immutable_events :: "EventRow list"

datatype SqliteError = ConstraintViolation | OutOfRange | SqliteFailure nat

datatype StoreError =
    Sqlite SqliteError
  | Serialization
  | InvalidTicket
  | DuplicateTicket
  | ThresholdNotReached
  | Merkle
  | ConflictingSchedule
  | CountOverflow
  | CorruptDatabase

text \<open>The calls into SQLite, one label per call site (the proof loop has one per leaf).\<close>

datatype Stmt =
    OpenConnection | SetJournalMode | SetForeignKeys | SetBusyTimeout
  | BeginTx | CommitTx | CreateTables | InsertMigration
  | InsertPool | InsertSnapshot | UpsertRound | SelectRound | InsertTicket | InsertEvent
  | SelectRoot | SelectLeaves | InsertRoot | InsertProof nat | SelectProof
  | SelectSchedule | InsertSchedule | CountTickets

record json =
  js_config_to_string :: "PoolConfig \<Rightarrow> string option"
  js_round_to_string :: "Round \<Rightarrow> string option"
  js_round_from_str :: "string \<Rightarrow> Round option"
  js_ticket_to_string :: "JoinTicket \<Rightarrow> string option"
  js_proof_to_string :: "CohortProof \<Rightarrow> string option"
  js_proof_from_str :: "string \<Rightarrow> CohortProof option"

record env =
  se_json :: json
  se_fault :: "Stmt \<Rightarrow> SqliteError option"
  se_now :: "Stmt \<Rightarrow> string"

type_synonym 'a store_result = "('a, StoreError) result"

section \<open>Statements and transactions\<close>

text \<open>A call into SQLite: it fails as the environment says, or does its work.\<close>

definition execute :: "env \<Rightarrow> Stmt \<Rightarrow> ('a, SqliteError) result \<Rightarrow> ('a, SqliteError) result" where
  "execute env stmt m = (case se_fault env stmt of Some e \<Rightarrow> Err e | None \<Rightarrow> m)"

definition run_stmt :: "env \<Rightarrow> Stmt \<Rightarrow> ('a, SqliteError) result \<Rightarrow> 'a store_result" where
  "run_stmt env stmt m = map_err Sqlite (execute env stmt m)"

text \<open>\<open>INSERT\<close> into a table whose rows may not \<open>clash\<close>.\<close>

definition insert_row :: "('r \<Rightarrow> 'r \<Rightarrow> bool) \<Rightarrow> 'r \<Rightarrow> 'r list \<Rightarrow> ('r list, SqliteError) result" where
  "insert_row clash row rows =
     (if list_ex (clash row) rows then Err ConstraintViolation else Ok (rows @ [row]))"

text \<open>\<open>query_row(...).optional()\<close>: the first row, if any.\<close>

definition query_row :: "('r \<Rightarrow> bool) \<Rightarrow> 'r list \<Rightarrow> 'r option" where
  "query_row p rows = List.find p rows"

type_synonym 'a db_steps = "Db \<Rightarrow> 'a store_result \<times> Db"

text \<open>A statement that writes; \<open>conv\<close> is what the caller makes of its error.\<close>

definition statement ::
  "env \<Rightarrow> Stmt \<Rightarrow> (SqliteError \<Rightarrow> StoreError) \<Rightarrow> (Db \<Rightarrow> (Db, SqliteError) result) \<Rightarrow> unit db_steps"
  where
  "statement env stmt conv f db =
    (case execute env stmt (f db) of
       Ok db' \<Rightarrow> (Ok (), db') | Err e \<Rightarrow> (Err (conv e), db) | Panic \<Rightarrow> (Panic, db))"

text \<open>
  The steps work on the database inside the transaction. If they return early, or the commit
  fails, the guard is dropped and the database is the one the transaction began with; a process
  that is aborted in the middle leaves the same, when the database is opened again.
\<close>

definition transaction :: "env \<Rightarrow> 'a db_steps \<Rightarrow> 'a db_steps" where
  "transaction env body db =
    (case run_stmt env BeginTx (Ok ()) of
       Ok _ \<Rightarrow>
         (case body db of
            (Ok a, inside) \<Rightarrow>
              (case run_stmt env CommitTx (Ok ()) of
                 Ok _ \<Rightarrow> (Ok a, inside) | Err e \<Rightarrow> (Err e, db) | Panic \<Rightarrow> (Panic, db))
          | (Err e, inside) \<Rightarrow> (Err e, db) | (Panic, inside) \<Rightarrow> (Panic, db))
     | Err e \<Rightarrow> (Err e, db) | Panic \<Rightarrow> (Panic, db))"

definition as_i64 :: "u64 \<Rightarrow> int store_result" where
  "as_i64 value = (if uint value < 2 ^ 63 then Ok (uint value) else Err CountOverflow)"

definition digest :: "bytes \<Rightarrow> Digest32 store_result" where
  "digest bs = (if length bs = 32 then Ok (Digest32 bs) else Err CorruptDatabase)"

fun option_transpose :: "'a store_result option \<Rightarrow> 'a option store_result" where
  "option_transpose None = Ok None"
| "option_transpose (Some (Ok a)) = Ok (Some a)"
| "option_transpose (Some (Err e)) = Err e"
| "option_transpose (Some Panic) = Panic"

definition event ::
  "env \<Rightarrow> Digest32 option \<Rightarrow> u64 option \<Rightarrow> string \<Rightarrow> Digest32 \<Rightarrow> unit db_steps" where
  "event env pool round kind payload =
    bind_cmd (lift (option_transpose (map_option as_i64 round))) (\<lambda>rid.
    statement env InsertEvent Sqlite (\<lambda>db.
      Ok (db\<lparr>db_immutable_events := db_immutable_events db
          @ [\<lparr>ev_pool_id = map_option digest_bytes pool, ev_round_id = rid,
              ev_event_type = kind, ev_payload_hash = digest_bytes payload,
              ev_occurred_at = se_now env InsertEvent\<rparr>]\<rparr>)))"

section \<open>Opening\<close>

text \<open>
  \<open>CREATE TABLE IF NOT EXISTS\<close> leaves existing tables and their rows alone; a table that
  did not exist is the empty list.
\<close>

definition migrate :: "env \<Rightarrow> unit db_steps" where
  "migrate env = transaction env (
     bind_cmd (statement env CreateTables Sqlite Ok) (\<lambda>_.
     statement env InsertMigration Sqlite (\<lambda>db.
       Ok (if 1 \<in> fst ` set (db_schema_migrations db) then db
           else db\<lparr>db_schema_migrations :=
                     db_schema_migrations db @ [(1, se_now env InsertMigration)]\<rparr>))))"

definition open_store :: "env \<Rightarrow> Db \<Rightarrow> unit store_result \<times> Db" where
  "open_store env db =
    (case and_then (run_stmt env OpenConnection (Ok ())) (\<lambda>_.
          and_then (run_stmt env SetJournalMode (Ok ())) (\<lambda>_.
          and_then (run_stmt env SetForeignKeys (Ok ())) (\<lambda>_.
          run_stmt env SetBusyTimeout (Ok ())))) of
       Ok _ \<Rightarrow> migrate env (db\<lparr>db_foreign_keys := True\<rparr>)
     | Err e \<Rightarrow> (Err e, db) | Panic \<Rightarrow> (Panic, db))"

definition empty_db :: Db where
  "empty_db = \<lparr>db_foreign_keys = False, db_schema_migrations = [], db_pools = [], db_rounds = [],
     db_join_tickets = [], db_cohort_roots = [], db_cohort_proofs = [],
     db_release_schedules = [], db_configuration_snapshots = [], db_immutable_events = []\<rparr>"

definition memory_store :: "env \<Rightarrow> unit store_result \<times> Db" where
  "memory_store env =
    (case and_then (run_stmt env OpenConnection (Ok ())) (\<lambda>_.
          run_stmt env SetForeignKeys (Ok ())) of
       Ok _ \<Rightarrow> migrate env (empty_db\<lparr>db_foreign_keys := True\<rparr>)
     | Err e \<Rightarrow> (Err e, empty_db) | Panic \<Rightarrow> (Panic, empty_db))"

section \<open>Pools and rounds\<close>

definition insert_pool :: "env \<Rightarrow> PoolConfig \<Rightarrow> unit db_steps" where
  "insert_pool env pool =
    bind_cmd (lift (ok_or (js_config_to_string (se_json env) pool) StoreError.Serialization)) (\<lambda>json.
    transaction env (
      bind_cmd (statement env InsertPool Sqlite (\<lambda>db.
        if length (digest_bytes (pc_pool_id pool)) \<noteq> 32 then Err ConstraintViolation
        else and_then (insert_row (\<lambda>a b. pl_pool_id a = pl_pool_id b)
              \<lparr>pl_pool_id = digest_bytes (pc_pool_id pool), pl_config_json = json,
               pl_created_at = se_now env InsertPool\<rparr> (db_pools db)) (\<lambda>rows.
            Ok (db\<lparr>db_pools := rows\<rparr>)))) (\<lambda>_.
      bind_cmd (lift (ok_or (js_config_to_string (se_json env) pool) StoreError.Serialization)) (\<lambda>json2.
      statement env InsertSnapshot Sqlite (\<lambda>db.
        let hash = digest_bytes (pc_configuration_hash pool);
            snapshots = db_configuration_snapshots db
        in Ok (db\<lparr>db_configuration_snapshots :=
                if list_ex (\<lambda>s. sn_hash s = hash) snapshots then snapshots
                else snapshots @ [\<lparr>sn_hash = hash, sn_config_json = json2,
                       sn_created_at = se_now env InsertSnapshot\<rparr>]\<rparr>))))))"

text \<open>\<open>format!("{:?}", round.state).to_lowercase()\<close>\<close>

fun state_text :: "RoundState \<Rightarrow> string" where
  "state_text RoundState.Draft = ''draft''"
| "state_text RoundState.Registration = ''registration''"
| "state_text RoundState.ThresholdReached = ''thresholdreached''"
| "state_text RoundState.Sealed = ''sealed''"
| "state_text RoundState.ReleaseScheduled = ''releasescheduled''"
| "state_text RoundState.ExecutionWindow = ''executionwindow''"
| "state_text RoundState.Finalizing = ''finalizing''"
| "state_text RoundState.Completed = ''completed''"
| "state_text RoundState.Cancelled = ''cancelled''"
| "state_text RoundState.Expired = ''expired''"

definition round_key :: "bytes \<Rightarrow> int \<Rightarrow> RoundRow \<Rightarrow> bool" where
  "round_key pool rid row \<longleftrightarrow> rr_pool_id row = pool \<and> rr_round_id row = rid"

text \<open>The upsert: a row with the key is updated in place, otherwise one is added.\<close>

definition upsert_round :: "RoundRow \<Rightarrow> RoundRow list \<Rightarrow> RoundRow list" where
  "upsert_round row rows =
    (let hit = round_key (rr_pool_id row) (rr_round_id row) in
     if list_ex hit rows
     then map (\<lambda>old. if hit old then row else old) rows
     else rows @ [row])"

definition put_round :: "env \<Rightarrow> Round \<Rightarrow> unit db_steps" where
  "put_round env round =
    bind_cmd (lift (as_i64 (rd_round_id round))) (\<lambda>rid.
    bind_cmd (lift (ok_or (js_round_to_string (se_json env) round) StoreError.Serialization)) (\<lambda>json.
    let pool = digest_bytes (rd_pool_id round) in
    statement env UpsertRound Sqlite (\<lambda>db.
      if db_foreign_keys db \<and> \<not> list_ex (round_key pool rid) (db_rounds db)
         \<and> \<not> list_ex (\<lambda>p. pl_pool_id p = pool) (db_pools db)
      then Err ConstraintViolation
      else Ok (db\<lparr>db_rounds := upsert_round
         \<lparr>rr_pool_id = pool, rr_round_id = rid, rr_round_json = json,
          rr_state = state_text (rd_state round), rr_updated_at = se_now env UpsertRound\<rparr>
         (db_rounds db)\<rparr>))))"

definition fetch_round :: "env \<Rightarrow> Digest32 \<Rightarrow> u64 \<Rightarrow> Db \<Rightarrow> Round option store_result" where
  "fetch_round env pool round_id db =
    and_then (as_i64 round_id) (\<lambda>rid.
    and_then (run_stmt env SelectRound
      (Ok (map_option rr_round_json
             (query_row (round_key (digest_bytes pool) rid) (db_rounds db))))) (\<lambda>json.
    option_transpose (map_option
      (\<lambda>text. ok_or (js_round_from_str (se_json env) text) StoreError.Serialization) json)))"

section \<open>Tickets, cohorts and schedules\<close>

definition ticket_clash :: "TicketRow \<Rightarrow> TicketRow \<Rightarrow> bool" where
  "ticket_clash a b \<longleftrightarrow> tr_commitment a = tr_commitment b
     \<or> tr_pool_id a = tr_pool_id b \<and> tr_round_id a = tr_round_id b
       \<and> tr_coordination_key a = tr_coordination_key b"

definition insert_ticket :: "TicketRow \<Rightarrow> TicketRow list \<Rightarrow> (TicketRow list, SqliteError) result" where
  "insert_ticket row rows =
     (if length (tr_commitment row) \<noteq> 32 then Err ConstraintViolation
      else insert_row ticket_clash row rows)"

text \<open>The error arms of the \<open>match\<close> on the insertion.\<close>

definition insert_error :: "SqliteError \<Rightarrow> StoreError" where
  "insert_error e = (if e = ConstraintViolation then DuplicateTicket else Sqlite e)"

definition accept_ticket ::
  "('sk, 'vk) crypto \<Rightarrow> env \<Rightarrow> JoinTicket \<Rightarrow> Digest32 db_steps" where
  "accept_ticket cr env ticket =
    bind_cmd (lift (map_err (\<lambda>_. StoreError.InvalidTicket) (JoinTicket_commitment cr ticket))) (\<lambda>commitment.
    transaction env (
      bind_cmd (lift (as_i64 (jt_round_id ticket))) (\<lambda>rid.
      bind_cmd (lift (ok_or (js_ticket_to_string (se_json env) ticket) StoreError.Serialization)) (\<lambda>json.
      bind_cmd (statement env InsertTicket insert_error (\<lambda>db.
        and_then (insert_ticket
          \<lparr>tr_pool_id = digest_bytes (jt_pool_id ticket), tr_round_id = rid,
           tr_commitment = digest_bytes commitment,
           tr_coordination_key = jt_coordination_public_key ticket,
           tr_ticket_json = json, tr_accepted_at = se_now env InsertTicket\<rparr>
          (db_join_tickets db)) (\<lambda>rows. Ok (db\<lparr>db_join_tickets := rows\<rparr>)))) (\<lambda>_.
      bind_cmd (event env (Some (jt_pool_id ticket)) (Some (jt_round_id ticket))
                  ''ticket_accepted'' commitment) (\<lambda>_.
      lift (Ok commitment)))))))"

definition ticket_of :: "bytes \<Rightarrow> int \<Rightarrow> TicketRow \<Rightarrow> bool" where
  "ticket_of pool rid row \<longleftrightarrow> tr_pool_id row = pool \<and> tr_round_id row = rid"

definition root_key :: "bytes \<Rightarrow> int \<Rightarrow> RootRow \<Rightarrow> bool" where
  "root_key pool rid row \<longleftrightarrow> ro_pool_id row = pool \<and> ro_round_id row = rid"

definition proof_key :: "bytes \<Rightarrow> int \<Rightarrow> bytes \<Rightarrow> ProofRow \<Rightarrow> bool" where
  "proof_key pool rid commitment row \<longleftrightarrow>
     pf_pool_id row = pool \<and> pf_round_id row = rid \<and> pf_commitment row = commitment"

definition fetch_root ::
  "env \<Rightarrow> Digest32 \<Rightarrow> u64 \<Rightarrow> Db \<Rightarrow> (Digest32 \<times> u32) option store_result" where
  "fetch_root env pool round_id db =
    and_then (as_i64 round_id) (\<lambda>rid.
    and_then (run_stmt env SelectRoot
      (case query_row (root_key (digest_bytes pool) rid) (db_cohort_roots db) of
         None \<Rightarrow> Ok None
       | Some row \<Rightarrow>
           if 0 \<le> ro_cohort_size row \<and> ro_cohort_size row < 2 ^ 32
           then Ok (Some (ro_root row, word_of_int (ro_cohort_size row) :: u32))
           else Err OutOfRange)) (\<lambda>found.
    option_transpose (map_option (\<lambda>(bs, n).
      and_then (digest bs) (\<lambda>d. Ok (d, n))) found)))"

definition fetch_proof ::
  "env \<Rightarrow> Digest32 \<Rightarrow> u64 \<Rightarrow> Digest32 \<Rightarrow> Db \<Rightarrow> CohortProof option store_result" where
  "fetch_proof env pool round_id commitment db =
    and_then (as_i64 round_id) (\<lambda>rid.
    and_then (run_stmt env SelectProof
      (Ok (map_option pf_proof_json
        (query_row (proof_key (digest_bytes pool) rid (digest_bytes commitment))
           (db_cohort_proofs db))))) (\<lambda>json.
    option_transpose (map_option
      (\<lambda>text. ok_or (js_proof_from_str (se_json env) text) StoreError.Serialization) json)))"

text \<open>The loop over the leaves, in order; \<open>i\<close> numbers the statement.\<close>

fun insert_proofs ::
  "env \<Rightarrow> MP_Merkle.MerkleCohort \<Rightarrow> Digest32 \<Rightarrow> u64 \<Rightarrow> nat \<Rightarrow> Digest32 list \<Rightarrow> unit db_steps" where
  "insert_proofs env tree pool round_id i [] = lift (Ok ())"
| "insert_proofs env tree pool round_id i (leaf # leaves) =
    bind_cmd (lift (map_err (\<lambda>_. StoreError.Merkle) (MerkleCohort_proof tree leaf round_id))) (\<lambda>prf.
    bind_cmd (lift (as_i64 round_id)) (\<lambda>rid.
    bind_cmd (lift (ok_or (js_proof_to_string (se_json env) prf) StoreError.Serialization)) (\<lambda>json.
    bind_cmd (statement env (InsertProof i) Sqlite (\<lambda>db.
      and_then (insert_row (\<lambda>a b. proof_key (pf_pool_id a) (pf_round_id a) (pf_commitment a) b)
        \<lparr>pf_pool_id = digest_bytes pool, pf_round_id = rid,
         pf_commitment = digest_bytes leaf, pf_proof_json = json\<rparr> (db_cohort_proofs db)) (\<lambda>rows.
      Ok (db\<lparr>db_cohort_proofs := rows\<rparr>)))) (\<lambda>_.
    insert_proofs env tree pool round_id (Suc i) leaves))))"

definition select_leaves :: "env \<Rightarrow> bytes \<Rightarrow> int \<Rightarrow> Db \<Rightarrow> Digest32 list store_result" where
  "select_leaves env pool rid db =
    and_then (run_stmt env SelectLeaves
      (Ok (sort (map tr_commitment (filter (ticket_of pool rid) (db_join_tickets db))))))
      (traverse digest)"

definition seal_body ::
  "(bytes \<Rightarrow> bytes) \<Rightarrow> env \<Rightarrow> Digest32 \<Rightarrow> u64 \<Rightarrow> u32 \<Rightarrow> (Digest32 \<times> u32) db_steps" where
  "seal_body blake3 env pool round_id minimum =
    bind_cmd (lift (as_i64 round_id)) (\<lambda>rid.
    bind_cmd (\<lambda>db. (select_leaves env (digest_bytes pool) rid db, db)) (\<lambda>leaves.
    bind_cmd (lift (ensure (length leaves < 2 ^ 32) CountOverflow)) (\<lambda>_.
    let n = of_nat (length leaves) :: u32 in
    bind_cmd (lift (ensure (\<not> n < minimum) ThresholdNotReached)) (\<lambda>_.
    bind_cmd (lift (map_err (\<lambda>_. StoreError.Merkle) (MerkleCohort_build blake3 leaves))) (\<lambda>tree.
    bind_cmd (lift (map_err (\<lambda>_. StoreError.Merkle) (MerkleCohort_root tree))) (\<lambda>root.
    bind_cmd (statement env InsertRoot Sqlite (\<lambda>db.
      if length (digest_bytes root) \<noteq> 32 then Err ConstraintViolation
      else and_then (insert_row (\<lambda>a b. root_key (ro_pool_id a) (ro_round_id a) b)
         \<lparr>ro_pool_id = digest_bytes pool, ro_round_id = rid, ro_root = digest_bytes root,
          ro_cohort_size = uint n, ro_published_at = se_now env InsertRoot\<rparr>
         (db_cohort_roots db)) (\<lambda>rows. Ok (db\<lparr>db_cohort_roots := rows\<rparr>)))) (\<lambda>_.
    bind_cmd (insert_proofs env tree pool round_id 0 leaves) (\<lambda>_.
    bind_cmd (event env (Some pool) (Some round_id) ''cohort_sealed'' root) (\<lambda>_.
    lift (Ok (root, n)))))))))))"

definition seal_cohort ::
  "(bytes \<Rightarrow> bytes) \<Rightarrow> env \<Rightarrow> Digest32 \<Rightarrow> u64 \<Rightarrow> u32 \<Rightarrow> (Digest32 \<times> u32) db_steps" where
  "seal_cohort blake3 env pool round_id minimum =
    bind_cmd (\<lambda>db. (fetch_root env pool round_id db, db)) (\<lambda>found.
    case found of
      Some existing \<Rightarrow> lift (Ok existing)
    | None \<Rightarrow> transaction env (seal_body blake3 env pool round_id minimum))"

definition schedule_key :: "bytes \<Rightarrow> int \<Rightarrow> ScheduleRow \<Rightarrow> bool" where
  "schedule_key pool rid row \<longleftrightarrow> sc_pool_id row = pool \<and> sc_round_id row = rid"

definition select_schedule ::
  "env \<Rightarrow> bytes \<Rightarrow> int \<Rightarrow> Db \<Rightarrow> (int \<times> int) option store_result" where
  "select_schedule env pool rid db =
    run_stmt env SelectSchedule
      (case query_row (schedule_key pool rid) (db_release_schedules db) of
         None \<Rightarrow> Ok None
       | Some row \<Rightarrow>
           if sc_release_slot row < 0 \<or> sc_window_end_slot row < 0 then Err OutOfRange
           else Ok (Some (sc_release_slot row, sc_window_end_slot row)))"

definition schedule_release ::
  "env \<Rightarrow> Digest32 \<Rightarrow> u64 \<Rightarrow> u64 \<Rightarrow> u64 \<Rightarrow> unit db_steps" where
  "schedule_release env pool round_id release window_end =
    bind_cmd (lift (as_i64 round_id)) (\<lambda>rid.
    bind_cmd (\<lambda>db. (select_schedule env (digest_bytes pool) rid db, db)) (\<lambda>existing.
    case existing of
      Some slots \<Rightarrow>
        lift (if slots = (uint release, uint window_end) then Ok () else Err ConflictingSchedule)
    | None \<Rightarrow>
        bind_cmd (lift (as_i64 release)) (\<lambda>release_slot.
        bind_cmd (lift (as_i64 window_end)) (\<lambda>end_slot.
        statement env InsertSchedule Sqlite (\<lambda>db.
          and_then (insert_row (\<lambda>a b. schedule_key (sc_pool_id a) (sc_round_id a) b)
            \<lparr>sc_pool_id = digest_bytes pool, sc_round_id = rid,
             sc_release_slot = release_slot, sc_window_end_slot = end_slot,
             sc_created_at = se_now env InsertSchedule\<rparr>
            (db_release_schedules db)) (\<lambda>rows.
          Ok (db\<lparr>db_release_schedules := rows\<rparr>)))))))"

definition ticket_count :: "env \<Rightarrow> Digest32 \<Rightarrow> u64 \<Rightarrow> Db \<Rightarrow> u32 store_result" where
  "ticket_count env pool round_id db =
    and_then (as_i64 round_id) (\<lambda>rid.
    let n = length (filter (ticket_of (digest_bytes pool) rid) (db_join_tickets db)) in
    run_stmt env CountTickets (if n < 2 ^ 32 then Ok (of_nat n) else Err OutOfRange))"

section \<open>Atomicity\<close>

lemma run_stmt_Ok_iff [result_simps]:
  "run_stmt env stmt m = Ok a \<longleftrightarrow> se_fault env stmt = None \<and> m = Ok a"
  by (cases m) (auto simp: run_stmt_def execute_def split: option.splits)

lemma execute_Ok_iff [result_simps]:
  "execute env stmt m = Ok a \<longleftrightarrow> se_fault env stmt = None \<and> m = Ok a"
  by (auto simp: execute_def split: option.splits)

lemma run_stmt_no_Panic [simp]: "run_stmt env stmt m = Panic \<longleftrightarrow> se_fault env stmt = None \<and> m = Panic"
  by (cases m) (auto simp: run_stmt_def execute_def split: option.splits)

lemma as_i64_Ok_iff [result_simps]: "as_i64 v = Ok i \<longleftrightarrow> uint v < 2 ^ 63 \<and> i = uint v"
  by (auto simp: as_i64_def)

lemma digest_Ok_iff [result_simps]: "digest bs = Ok d \<longleftrightarrow> length bs = 32 \<and> d = Digest32 bs"
  by (auto simp: digest_def)

lemma insert_row_Ok_iff [result_simps]:
  "insert_row clash row rows = Ok rows' \<longleftrightarrow> (\<forall>r \<in> set rows. \<not> clash row r) \<and> rows' = rows @ [row]"
  by (auto simp: insert_row_def list_ex_iff)

lemma option_transpose_Ok_iff [result_simps]:
  "option_transpose x = Ok y \<longleftrightarrow>
     (case x of None \<Rightarrow> y = None | Some m \<Rightarrow> (\<exists>a. m = Ok a \<and> y = Some a))"
  by (cases x rule: option_transpose.cases) auto

lemma statement_Ok_iff [result_simps]:
  "statement env stmt conv f db = (Ok u, db') \<longleftrightarrow> se_fault env stmt = None \<and> f db = Ok db'"
  by (cases "f db") (auto simp: statement_def execute_def split: option.splits)

lemma select_schedule_Ok_iff [result_simps]:
  "select_schedule env pool rid db = Ok found \<longleftrightarrow> se_fault env SelectSchedule = None \<and>
    (case query_row (schedule_key pool rid) (db_release_schedules db) of
       None \<Rightarrow> found = None
     | Some row \<Rightarrow> 0 \<le> sc_release_slot row \<and> 0 \<le> sc_window_end_slot row
         \<and> found = Some (sc_release_slot row, sc_window_end_slot row))"
  by (auto simp: select_schedule_def run_stmt_Ok_iff split: option.splits)

lemma transaction_Ok_iff:
  "transaction env body db = (Ok a, db') \<longleftrightarrow>
     se_fault env BeginTx = None \<and> se_fault env CommitTx = None \<and> body db = (Ok a, db')"
  by (cases "body db"; cases "fst (body db)")
    (auto simp: transaction_def run_stmt_def execute_def split: option.splits)

text \<open>An operation is atomic if every outcome but success leaves the database alone.\<close>

definition atomic_op :: "'a db_steps \<Rightarrow> bool" where
  "atomic_op f \<longleftrightarrow> (\<forall>db. \<not> is_ok (fst (f db)) \<longrightarrow> snd (f db) = db)"

lemma atomic_lift: "atomic_op (lift m)"
  by (simp add: atomic_op_def lift_def)

lemma atomic_statement: "atomic_op (statement env stmt conv f)"
  by (auto simp: atomic_op_def statement_def split: result.splits)

lemma atomic_transaction: "atomic_op (transaction env body)"
  by (auto simp: atomic_op_def transaction_def split: result.splits prod.splits)

text \<open>Only what writes nothing may come before an atomic step, unless in a transaction.\<close>

lemma atomic_after_lift:
  assumes "\<And>a. atomic_op (k a)"
  shows "atomic_op (bind_cmd (lift m) k)"
  using assms by (cases m) (auto simp: atomic_op_def bind_cmd_def lift_def)

lemma atomic_after_read:
  assumes "\<And>a. atomic_op (k a)"
  shows "atomic_op (bind_cmd (\<lambda>db. (query db, db)) k)"
  using assms by (auto simp: atomic_op_def bind_cmd_def split: result.splits)

lemmas atomic_intros =
  atomic_lift atomic_statement atomic_transaction atomic_after_lift atomic_after_read

datatype store_op =
    OpInsertPool PoolConfig
  | OpPutRound Round
  | OpAcceptTicket JoinTicket
  | OpSealCohort Digest32 u64 u32
  | OpScheduleRelease Digest32 u64 u64 u64

text \<open>The database an operation leaves, and whether it succeeded.\<close>

fun store_call :: "('sk, 'vk) crypto \<Rightarrow> env \<Rightarrow> store_op \<Rightarrow> Db \<Rightarrow> unit store_result \<times> Db" where
  "store_call cr env (OpInsertPool pool) db = insert_pool env pool db"
| "store_call cr env (OpPutRound round) db = put_round env round db"
| "store_call cr env (OpAcceptTicket ticket) db =
     (case accept_ticket cr env ticket db of (m, db') \<Rightarrow> (and_then m (\<lambda>_. Ok ()), db'))"
| "store_call cr env (OpSealCohort pool round_id minimum) db =
     (case seal_cohort (cr_blake3 cr) env pool round_id minimum db of
        (m, db') \<Rightarrow> (and_then m (\<lambda>_. Ok ()), db'))"
| "store_call cr env (OpScheduleRelease pool round_id release window_end) db =
     schedule_release env pool round_id release window_end db"

lemma is_ok_and_then_unit: "is_ok (and_then m (\<lambda>_. Ok ())) = is_ok m"
  by (cases m) simp_all

lemma insert_pool_atomic: "atomic_op (insert_pool env pool)"
  unfolding insert_pool_def by (intro atomic_intros)

lemma put_round_atomic: "atomic_op (put_round env round)"
  unfolding put_round_def Let_def by (intro atomic_intros)

lemma accept_ticket_atomic: "atomic_op (accept_ticket cr env ticket)"
  unfolding accept_ticket_def by (intro atomic_intros)

lemma seal_cohort_atomic: "atomic_op (seal_cohort blake3 env pool round_id minimum)"
  unfolding seal_cohort_def
  by (intro atomic_after_read) (auto split: option.splits intro: atomic_intros)

lemma schedule_release_atomic: "atomic_op (schedule_release env pool round_id release window_end)"
  unfolding schedule_release_def
  by (intro atomic_after_lift atomic_after_read) (auto split: option.splits intro: atomic_intros)

lemma seal_cohort_eq:
  "seal_cohort blake3 env pool round_id minimum db =
    (case fetch_root env pool round_id db of
       Ok (Some existing) \<Rightarrow> (Ok existing, db)
     | Ok None \<Rightarrow> transaction env (seal_body blake3 env pool round_id minimum) db
     | Err e \<Rightarrow> (Err e, db) | Panic \<Rightarrow> (Panic, db))"
  by (simp add: seal_cohort_def bind_cmd_def lift_def split: result.splits option.splits)

lemma store_call_atomic: "atomic_op (store_call cr env op)"
proof (cases op)
  case (OpInsertPool pool)
  then show ?thesis using insert_pool_atomic [of env pool] by (simp add: atomic_op_def)
next
  case (OpPutRound round)
  then show ?thesis using put_round_atomic [of env round] by (simp add: atomic_op_def)
next
  case (OpAcceptTicket ticket)
  then show ?thesis using accept_ticket_atomic [of cr env ticket]
    by (simp add: atomic_op_def is_ok_and_then_unit case_prod_beta)
next
  case (OpSealCohort pool round_id minimum)
  then show ?thesis using seal_cohort_atomic [of "cr_blake3 cr" env pool round_id minimum]
    by (simp add: atomic_op_def is_ok_and_then_unit case_prod_beta)
next
  case (OpScheduleRelease pool round_id release window_end)
  then show ?thesis using schedule_release_atomic [of env pool round_id release window_end] by (simp add: atomic_op_def)
qed

lemma store_call_error:
  assumes "store_call cr env op db = (m, db')" "\<not> is_ok m"
  shows "db' = db"
  using store_call_atomic [of cr env op] assms unfolding atomic_op_def by (metis fst_conv snd_conv)

text \<open>
  C11. Every store operation is atomic: if it reports any error (a constraint, a failed
  statement or commit at any point, a value out of range, a Merkle or JSON failure) then
  the database is exactly as before, although sealing writes a root, one row per proof and
  an event one after the other, and each of these steps keeps what the ones before it wrote.
\<close>

theorem store_ops_atomic:
  assumes "store_call cr env op db = (m, db')" "\<not> is_ok m"
  shows "db' = db"
  using assms by (rule store_call_error)

end
