(* ===== verification/MP_Sealing.thy ===== *)
theory MP_Sealing
  imports MP_Store
begin

text \<open>
  The guarantees of the store over its whole history: unique tickets, one immutable root and
  one schedule per round, and a persisted, verifying proof for every sealed ticket. The
  invariant \<open>store_inv\<close> ties the tables to the Merkle construction through the facts of
  the \<open>merkle\<close> interpretation; every operation preserves it.
\<close>

section \<open>The invariant\<close>

definition sealed_cohort ::
  "(bytes \<Rightarrow> bytes) \<Rightarrow> json \<Rightarrow> Db \<Rightarrow> bytes \<Rightarrow> int \<Rightarrow> Digest32 \<Rightarrow> nat \<Rightarrow> bool" where
  "sealed_cohort blake3 js db pool rid root n \<longleftrightarrow>
    (\<exists>leaves tree. MerkleCohort_build blake3 leaves = Ok tree \<and> MerkleCohort_root tree = Ok root
      \<and> n = length leaves \<and> n < 2 ^ 32
      \<and> digest_bytes ` set leaves
          \<subseteq> tr_commitment ` {t \<in> set (db_join_tickets db). ticket_of pool rid t}
      \<and> (\<forall>row \<in> set (db_cohort_proofs db). pf_pool_id row = pool \<and> pf_round_id row = rid \<longrightarrow>
           (\<exists>leaf \<in> set leaves. \<exists>p. pf_commitment row = digest_bytes leaf
              \<and> MerkleCohort_proof tree leaf (word_of_int rid) = Ok p
              \<and> js_proof_to_string js p = Some (pf_proof_json row)))
      \<and> (\<forall>leaf \<in> set leaves. \<exists>row \<in> set (db_cohort_proofs db).
           proof_key pool rid (digest_bytes leaf) row))"

definition same_root_key :: "RootRow \<Rightarrow> RootRow \<Rightarrow> bool" where
  "same_root_key a b = root_key (ro_pool_id a) (ro_round_id a) b"

definition same_proof_key :: "ProofRow \<Rightarrow> ProofRow \<Rightarrow> bool" where
  "same_proof_key a b = proof_key (pf_pool_id a) (pf_round_id a) (pf_commitment a) b"

definition same_schedule_key :: "ScheduleRow \<Rightarrow> ScheduleRow \<Rightarrow> bool" where
  "same_schedule_key a b = schedule_key (sc_pool_id a) (sc_round_id a) b"

definition unique_rows :: "('r \<Rightarrow> 'r \<Rightarrow> bool) \<Rightarrow> 'r list \<Rightarrow> bool" where
  "unique_rows clash rows = sorted_wrt (\<lambda>a b. \<not> clash b a) rows"

lemma unique_rows_append:
  "unique_rows clash (rows @ [row]) \<longleftrightarrow>
     unique_rows clash rows \<and> (\<forall>r \<in> set rows. \<not> clash row r)"
  by (auto simp: unique_rows_def sorted_wrt_append)

lemma unique_rows_Nil [simp]: "unique_rows clash []"
  by (simp add: unique_rows_def)

definition store_inv :: "(bytes \<Rightarrow> bytes) \<Rightarrow> json \<Rightarrow> Db \<Rightarrow> bool" where
  "store_inv blake3 js db \<longleftrightarrow>
     unique_rows ticket_clash (db_join_tickets db)
   \<and> (\<forall>t \<in> set (db_join_tickets db). length (tr_commitment t) = 32)
   \<and> unique_rows same_root_key (db_cohort_roots db)
   \<and> unique_rows same_proof_key (db_cohort_proofs db)
   \<and> unique_rows same_schedule_key (db_release_schedules db)
   \<and> (\<forall>row \<in> set (db_cohort_roots db). \<exists>root n.
        ro_root row = digest_bytes root \<and> length (digest_bytes root) = 32
        \<and> ro_cohort_size row = int n
        \<and> sealed_cohort blake3 js db (ro_pool_id row) (ro_round_id row) root n)
   \<and> (\<forall>row \<in> set (db_cohort_proofs db). \<exists>r \<in> set (db_cohort_roots db).
        root_key (pf_pool_id row) (pf_round_id row) r)"

lemma store_inv_root:
  assumes "store_inv blake3 js db" "row \<in> set (db_cohort_roots db)"
  obtains root n where "ro_root row = digest_bytes root" "length (digest_bytes root) = 32"
    "ro_cohort_size row = int n"
    "sealed_cohort blake3 js db (ro_pool_id row) (ro_round_id row) root n"
  using assms unfolding store_inv_def by blast

lemma store_inv_empty:
  assumes "db_join_tickets db = []" "db_cohort_roots db = []" "db_cohort_proofs db = []"
    "db_release_schedules db = []"
  shows "store_inv blake3 js db"
  using assms by (simp add: store_inv_def)

lemma sealed_cohort_mono:
  assumes "sealed_cohort blake3 js db pool rid root n"
    and "set (db_join_tickets db) \<subseteq> set (db_join_tickets db')"
    and "\<And>row. row \<in> set (db_cohort_proofs db') \<Longrightarrow> pf_pool_id row = pool \<Longrightarrow> pf_round_id row = rid
           \<Longrightarrow> row \<in> set (db_cohort_proofs db)"
    and "set (db_cohort_proofs db) \<subseteq> set (db_cohort_proofs db')"
  shows "sealed_cohort blake3 js db' pool rid root n"
proof -
  from assms(1) obtain leaves tree where
    tree: "MerkleCohort_build blake3 leaves = Ok tree" "MerkleCohort_root tree = Ok root"
      "n = length leaves" "n < 2 ^ 32"
    and sub: "digest_bytes ` set leaves
        \<subseteq> tr_commitment ` {t \<in> set (db_join_tickets db). ticket_of pool rid t}"
    and rows: "\<forall>row \<in> set (db_cohort_proofs db). pf_pool_id row = pool \<and> pf_round_id row = rid \<longrightarrow>
           (\<exists>leaf \<in> set leaves. \<exists>p. pf_commitment row = digest_bytes leaf
              \<and> MerkleCohort_proof tree leaf (word_of_int rid) = Ok p
              \<and> js_proof_to_string js p = Some (pf_proof_json row))"
    and have_row: "\<forall>leaf \<in> set leaves. \<exists>row \<in> set (db_cohort_proofs db).
           proof_key pool rid (digest_bytes leaf) row"
    unfolding sealed_cohort_def by blast
  have "digest_bytes ` set leaves
        \<subseteq> tr_commitment ` {t \<in> set (db_join_tickets db'). ticket_of pool rid t}"
    using sub assms(2) by blast
  moreover have "\<forall>leaf \<in> set leaves. \<exists>row \<in> set (db_cohort_proofs db').
           proof_key pool rid (digest_bytes leaf) row"
    using have_row assms(4) by blast
  ultimately show ?thesis unfolding sealed_cohort_def
    using tree rows assms(3) by blast
qed

section \<open>What the operations write\<close>

lemma event_Ok_iff:
  "event env pool round kind payload db = (Ok u, db') \<longleftrightarrow>
    (\<exists>rid e. option_transpose (map_option as_i64 round) = Ok rid \<and> se_fault env InsertEvent = None
      \<and> e = \<lparr>ev_pool_id = map_option digest_bytes pool, ev_round_id = rid,
              ev_event_type = kind, ev_payload_hash = digest_bytes payload,
              ev_occurred_at = se_now env InsertEvent\<rparr>
      \<and> db' = db\<lparr>db_immutable_events := db_immutable_events db @ [e]\<rparr>)"
  by (auto simp: event_def result_simps)

lemma accept_ticket_writes:
  assumes "accept_ticket cr env ticket db = (Ok c, db')"
  obtains row e where "JoinTicket_commitment cr ticket = Ok c"
    "tr_pool_id row = digest_bytes (jt_pool_id ticket)" "tr_round_id row = uint (jt_round_id ticket)"
    "tr_commitment row = digest_bytes c"
    "tr_coordination_key row = jt_coordination_public_key ticket"
    "length (tr_commitment row) = 32" "uint (jt_round_id ticket) < 2 ^ 63"
    "\<forall>r \<in> set (db_join_tickets db). \<not> ticket_clash row r"
    "db' = db\<lparr>db_join_tickets := db_join_tickets db @ [row],
             db_immutable_events := db_immutable_events db @ [e]\<rparr>"
proof -
  from assms obtain rid json rows where
    c: "JoinTicket_commitment cr ticket = Ok c" and rid: "as_i64 (jt_round_id ticket) = Ok rid"
    and ins: "insert_ticket \<lparr>tr_pool_id = digest_bytes (jt_pool_id ticket), tr_round_id = rid,
                 tr_commitment = digest_bytes c,
                 tr_coordination_key = jt_coordination_public_key ticket,
                 tr_ticket_json = json, tr_accepted_at = se_now env InsertTicket\<rparr>
                (db_join_tickets db) = Ok rows"
    and ev: "event env (Some (jt_pool_id ticket)) (Some (jt_round_id ticket))
               ''ticket_accepted'' c (db\<lparr>db_join_tickets := rows\<rparr>) = (Ok (), db')"
    by (auto simp: accept_ticket_def transaction_Ok_iff result_simps)
  from ev obtain e where db': "db' = (db\<lparr>db_join_tickets := rows\<rparr>)
      \<lparr>db_immutable_events := db_immutable_events db @ [e]\<rparr>"
    by (auto simp: event_Ok_iff)
  show ?thesis
    by (rule that [OF c, of "last rows" e])
      (use ins rid db' in \<open>auto simp: insert_ticket_def result_simps split: if_splits\<close>)
qed

lemma insert_proofs_writes:
  assumes "insert_proofs env tree pool round_id i leaves db = (Ok (), db')"
    and "unique_rows same_proof_key (db_cohort_proofs db)"
  shows "\<exists>new. db' = db\<lparr>db_cohort_proofs := db_cohort_proofs db @ new\<rparr>
    \<and> unique_rows same_proof_key (db_cohort_proofs db @ new)
    \<and> list_all2 (\<lambda>leaf row. proof_key (digest_bytes pool) (uint round_id) (digest_bytes leaf) row
        \<and> (\<exists>p. MerkleCohort_proof tree leaf round_id = Ok p
             \<and> js_proof_to_string (se_json env) p = Some (pf_proof_json row))) leaves new"
  using assms
proof (induction leaves arbitrary: i db)
  case Nil
  then show ?case by (auto simp: lift_def)
next
  case (Cons leaf leaves)
  let ?row = "\<lambda>json. \<lparr>pf_pool_id = digest_bytes pool, pf_round_id = uint round_id,
         pf_commitment = digest_bytes leaf, pf_proof_json = json\<rparr>"
  from Cons.prems(1) obtain p json where p: "MerkleCohort_proof tree leaf round_id = Ok p"
    "js_proof_to_string (se_json env) p = Some json" "uint round_id < 2 ^ 63"
    and step: "insert_proofs env tree pool round_id (Suc i) leaves
      (db\<lparr>db_cohort_proofs := db_cohort_proofs db @ [?row json]\<rparr>) = (Ok (), db')"
    and fresh: "\<forall>r \<in> set (db_cohort_proofs db).
      \<not> proof_key (digest_bytes pool) (uint round_id) (digest_bytes leaf) r"
    by (auto simp: result_simps)
  have "unique_rows same_proof_key (db_cohort_proofs db @ [?row json])"
    using fresh Cons.prems(2) by (simp add: unique_rows_append) (simp add: same_proof_key_def)
  with Cons.IH [OF step] obtain new where
    "db' = db\<lparr>db_cohort_proofs := db_cohort_proofs db @ ?row json # new\<rparr>"
    "unique_rows same_proof_key (db_cohort_proofs db @ ?row json # new)"
    "list_all2 (\<lambda>leaf row. proof_key (digest_bytes pool) (uint round_id) (digest_bytes leaf) row
        \<and> (\<exists>p. MerkleCohort_proof tree leaf round_id = Ok p
             \<and> js_proof_to_string (se_json env) p = Some (pf_proof_json row))) leaves new"
    by auto
  then show ?case using p by (intro exI [of _ "?row json # new"]) (auto simp: proof_key_def)
qed

lemma select_leaves_Ok:
  assumes "select_leaves env pool rid db = Ok leaves"
  shows "map digest_bytes leaves
    = sort (map tr_commitment (filter (ticket_of pool rid) (db_join_tickets db)))"
proof -
  let ?cs = "sort (map tr_commitment (filter (ticket_of pool rid) (db_join_tickets db)))"
  have "map digest ?cs = map Ok leaves"
    using assms by (auto simp: select_leaves_def result_simps traverse_Ok_iff)
  then have len: "length ?cs = length leaves"
    and each: "\<And>i. i < length leaves \<Longrightarrow> digest (?cs ! i) = Ok (leaves ! i)"
    by (auto simp: list_eq_iff_nth_eq)
  show ?thesis
    using len each by (auto simp: list_eq_iff_nth_eq digest_Ok_iff)
qed

lemma query_row_None_iff: "query_row p rows = None \<longleftrightarrow> (\<forall>r \<in> set rows. \<not> p r)"
  by (auto simp: query_row_def find_None_iff)

lemma query_row_SomeD: "query_row p rows = Some r \<Longrightarrow> r \<in> set rows \<and> p r"
  by (auto simp: query_row_def find_Some_iff)

lemma fetch_root_None:
  assumes "fetch_root env pool round_id db = Ok None"
  shows "\<forall>r \<in> set (db_cohort_roots db). \<not> root_key (digest_bytes pool) (uint round_id) r"
proof -
  have "query_row (root_key (digest_bytes pool) (uint round_id)) (db_cohort_roots db) = None"
    using assms by (auto simp: fetch_root_def result_simps split: option.splits if_splits)
  then show ?thesis by (simp add: query_row_None_iff)
qed

text \<open>A first sealing: what was there before, and everything it adds.\<close>

lemma seal_writes:
  assumes "seal_cohort blake3 env pool round_id minimum db = (Ok (root, n), db')"
    and "fetch_root env pool round_id db = Ok None"
    and "unique_rows same_proof_key (db_cohort_proofs db)"
  obtains leaves tree row new e where
    "map digest_bytes leaves = sort (map tr_commitment
       (filter (ticket_of (digest_bytes pool) (uint round_id)) (db_join_tickets db)))"
    "uint round_id < 2 ^ 63" "length leaves < 2 ^ 32" "n = of_nat (length leaves)" "minimum \<le> n"
    "MerkleCohort_build blake3 leaves = Ok tree" "MerkleCohort_root tree = Ok root"
    "length (digest_bytes root) = 32"
    "ro_pool_id row = digest_bytes pool" "ro_round_id row = uint round_id"
    "ro_root row = digest_bytes root" "ro_cohort_size row = uint n"
    "list_all2 (\<lambda>leaf row. proof_key (digest_bytes pool) (uint round_id) (digest_bytes leaf) row
        \<and> (\<exists>p. MerkleCohort_proof tree leaf round_id = Ok p
             \<and> js_proof_to_string (se_json env) p = Some (pf_proof_json row))) leaves new"
    "unique_rows same_proof_key (db_cohort_proofs db @ new)"
    "db' = db\<lparr>db_cohort_roots := db_cohort_roots db @ [row],
             db_cohort_proofs := db_cohort_proofs db @ new,
             db_immutable_events := db_immutable_events db @ [e]\<rparr>"
proof -
  let ?row = "\<lparr>ro_pool_id = digest_bytes pool, ro_round_id = uint round_id,
     ro_root = digest_bytes root, ro_cohort_size = uint n,
     ro_published_at = se_now env InsertRoot\<rparr>"
  have "seal_body blake3 env pool round_id minimum db = (Ok (root, n), db')"
    using assms(1,2) by (auto simp: seal_cohort_eq transaction_Ok_iff result_simps)
  then obtain leaves tree db1 where
    rid: "uint round_id < 2 ^ 63"
    and leaves: "select_leaves env (digest_bytes pool) (uint round_id) db = Ok leaves"
    and n: "length leaves < 2 ^ 32" "n = of_nat (length leaves)" "minimum \<le> n"
    and tree: "MerkleCohort_build blake3 leaves = Ok tree" "MerkleCohort_root tree = Ok root"
      "length (digest_bytes root) = 32"
    and proofs: "insert_proofs env tree pool round_id 0 leaves
        (db\<lparr>db_cohort_roots := db_cohort_roots db @ [?row]\<rparr>) = (Ok (), db1)"
    and ev: "event env (Some pool) (Some round_id) ''cohort_sealed'' root db1 = (Ok (), db')"
    by (auto simp: seal_body_def result_simps Let_def not_less)
  from insert_proofs_writes [OF proofs] assms(3) obtain new where
    db1: "db1 = db\<lparr>db_cohort_roots := db_cohort_roots db @ [?row],
      db_cohort_proofs := db_cohort_proofs db @ new\<rparr>"
    and new: "unique_rows same_proof_key (db_cohort_proofs db @ new)"
    "list_all2 (\<lambda>leaf row. proof_key (digest_bytes pool) (uint round_id) (digest_bytes leaf) row
        \<and> (\<exists>p. MerkleCohort_proof tree leaf round_id = Ok p
             \<and> js_proof_to_string (se_json env) p = Some (pf_proof_json row))) leaves new"
    by auto
  from ev obtain e where db': "db' = db1\<lparr>db_immutable_events := db_immutable_events db @ [e]\<rparr>"
    by (auto simp: event_Ok_iff db1)
  show ?thesis
    by (rule that [OF select_leaves_Ok [OF leaves] rid n tree, of ?row new e])
      (use new db' db1 in simp_all)
qed

section \<open>Preservation\<close>

lemma store_inv_cong:
  assumes "db_join_tickets db' = db_join_tickets db" "db_cohort_roots db' = db_cohort_roots db"
    "db_cohort_proofs db' = db_cohort_proofs db"
    "db_release_schedules db' = db_release_schedules db"
  shows "store_inv blake3 js db' = store_inv blake3 js db"
  using assms by (simp add: store_inv_def sealed_cohort_def)

lemma accept_ticket_inv:
  assumes "store_inv blake3 js db" "accept_ticket cr env ticket db = (Ok c, db')"
  shows "store_inv blake3 js db'"
  using assms(2)
proof (rule accept_ticket_writes)
  fix row e
  assume row: "length (tr_commitment row) = 32"
    "\<forall>r \<in> set (db_join_tickets db). \<not> ticket_clash row r"
    and db': "db' = db\<lparr>db_join_tickets := db_join_tickets db @ [row],
             db_immutable_events := db_immutable_events db @ [e]\<rparr>"
  have "sealed_cohort blake3 js db' p r root n" if "sealed_cohort blake3 js db p r root n"
    for p r root n
    using that by (rule sealed_cohort_mono) (auto simp: db')
  then show ?thesis using assms(1) row
    by (fastforce simp: store_inv_def db' unique_rows_append)
qed

lemma seal_inv:
  assumes "store_inv blake3 (se_json env) db"
    and "seal_cohort blake3 env pool round_id minimum db = (Ok (root, n), db')"
    and "fetch_root env pool round_id db = Ok None"
  shows "store_inv blake3 (se_json env) db'"
proof -
  let ?js = "se_json env"
  have uniq: "unique_rows same_proof_key (db_cohort_proofs db)"
    using assms(1) by (simp add: store_inv_def)
  from assms(2,3) uniq show ?thesis
  proof (rule seal_writes)
    fix leaves tree row new e
    assume ls: "map digest_bytes leaves = sort (map tr_commitment
         (filter (ticket_of (digest_bytes pool) (uint round_id)) (db_join_tickets db)))"
      and n: "length leaves < 2 ^ 32" "n = of_nat (length leaves)"
      and tree: "MerkleCohort_build blake3 leaves = Ok tree" "MerkleCohort_root tree = Ok root"
        "length (digest_bytes root) = 32"
      and row: "ro_pool_id row = digest_bytes pool" "ro_round_id row = uint round_id"
        "ro_root row = digest_bytes root" "ro_cohort_size row = uint n"
      and new: "list_all2
          (\<lambda>leaf row. proof_key (digest_bytes pool) (uint round_id) (digest_bytes leaf) row
             \<and> (\<exists>p. MerkleCohort_proof tree leaf round_id = Ok p
                  \<and> js_proof_to_string ?js p = Some (pf_proof_json row))) leaves new"
        "unique_rows same_proof_key (db_cohort_proofs db @ new)"
      and db': "db' = db\<lparr>db_cohort_roots := db_cohort_roots db @ [row],
             db_cohort_proofs := db_cohort_proofs db @ new,
             db_immutable_events := db_immutable_events db @ [e]\<rparr>"
    note none = fetch_root_None [OF assms(3)]
    have no_proofs: "\<not> (pf_pool_id r = digest_bytes pool \<and> pf_round_id r = uint round_id)"
      if "r \<in> set (db_cohort_proofs db)" for r
      using that none assms(1) by (auto simp: store_inv_def)
    have new_key: "pf_pool_id r = digest_bytes pool \<and> pf_round_id r = uint round_id"
      if "r \<in> set new" for r
      using list_all2_right [OF new(1) that] by (auto simp: proof_key_def)
    have old: "sealed_cohort blake3 ?js db' (ro_pool_id r) (ro_round_id r) root' m"
      if "r \<in> set (db_cohort_roots db)"
        "sealed_cohort blake3 ?js db (ro_pool_id r) (ro_round_id r) root' m" for r root' m
      using that(2) by (rule sealed_cohort_mono)
        (use that(1) none new_key in \<open>auto simp: db' root_key_def\<close>)
    have size: "ro_cohort_size row = int (length leaves)"
      using n row(4) by (simp add: unsigned_of_nat take_bit_nat_eq_self)
    have "digest_bytes ` set leaves = set (map digest_bytes leaves)" by simp
    then have members: "digest_bytes ` set leaves = tr_commitment `
        {t \<in> set (db_join_tickets db). ticket_of (digest_bytes pool) (uint round_id) t}"
      unfolding ls by auto
    have "sealed_cohort blake3 ?js db' (digest_bytes pool) (uint round_id) root (length leaves)"
      unfolding sealed_cohort_def
    proof (intro exI conjI ballI impI)
      show "MerkleCohort_build blake3 leaves = Ok tree" "MerkleCohort_root tree = Ok root"
        "length leaves = length leaves" "length leaves < 2 ^ 32"
        using tree n by simp_all
      show "digest_bytes ` set leaves \<subseteq> tr_commitment `
        {t \<in> set (db_join_tickets db'). ticket_of (digest_bytes pool) (uint round_id) t}"
        using members by (simp add: db')
    next
      fix r assume "r \<in> set (db_cohort_proofs db')"
        "pf_pool_id r = digest_bytes pool \<and> pf_round_id r = uint round_id"
      then have "r \<in> set new" using no_proofs by (auto simp: db')
      then show "\<exists>leaf \<in> set leaves. \<exists>p. pf_commitment r = digest_bytes leaf
          \<and> MerkleCohort_proof tree leaf (word_of_int (uint round_id)) = Ok p
          \<and> js_proof_to_string ?js p = Some (pf_proof_json r)"
        using list_all2_right [OF new(1)] by (fastforce simp: proof_key_def)
    next
      fix leaf assume "leaf \<in> set leaves"
      then show "\<exists>r \<in> set (db_cohort_proofs db').
          proof_key (digest_bytes pool) (uint round_id) (digest_bytes leaf) r"
        using list_all2_left [OF new(1)] by (fastforce simp: db')
    qed
    then have fresh: "\<exists>root n. ro_root row = digest_bytes root \<and> length (digest_bytes root) = 32
        \<and> ro_cohort_size row = int n
        \<and> sealed_cohort blake3 ?js db' (ro_pool_id row) (ro_round_id row) root n"
      using row(1-3) tree(3) size by (intro exI [of _ root] exI [of _ "length leaves"]) simp
    have "unique_rows same_root_key (db_cohort_roots db @ [row])"
      using assms(1) none row by (auto simp: store_inv_def unique_rows_append same_root_key_def)
    moreover have "\<exists>r \<in> set (db_cohort_roots db'). root_key (pf_pool_id q) (pf_round_id q) r"
      if "q \<in> set (db_cohort_proofs db')" for q
      using that assms(1) new_key row by (auto simp: db' store_inv_def root_key_def)
    ultimately show ?thesis using assms(1) fresh old new(2)
      unfolding store_inv_def by (simp add: db') blast
  qed
qed

text \<open>
  Every table but \<open>rounds\<close> only grows, and a round with a root gets no further proofs.
\<close>

definition extends :: "Db \<Rightarrow> Db \<Rightarrow> bool" where
  "extends db db' \<longleftrightarrow>
    (\<exists>ts rs ps ss es. db_join_tickets db' = db_join_tickets db @ ts
      \<and> db_cohort_roots db' = db_cohort_roots db @ rs
      \<and> db_cohort_proofs db' = db_cohort_proofs db @ ps
      \<and> db_release_schedules db' = db_release_schedules db @ ss
      \<and> db_immutable_events db' = db_immutable_events db @ es
      \<and> (\<forall>row \<in> set ps. \<forall>r \<in> set (db_cohort_roots db).
           \<not> root_key (pf_pool_id row) (pf_round_id row) r))"

lemma extends_same:
  assumes "db_join_tickets db' = db_join_tickets db" "db_cohort_roots db' = db_cohort_roots db"
    "db_cohort_proofs db' = db_cohort_proofs db"
    "db_release_schedules db' = db_release_schedules db"
    "db_immutable_events db' = db_immutable_events db"
  shows "extends db db'"
  using assms unfolding extends_def by (intro exI [of _ "[]"]) simp

lemma extends_refl [simp]: "extends db db"
  by (rule extends_same) simp_all

lemma extends_trans:
  assumes "extends a b" "extends b c"
  shows "extends a c"
proof -
  from assms(1) obtain ts rs ps ss es where ab: "db_join_tickets b = db_join_tickets a @ ts"
    "db_cohort_roots b = db_cohort_roots a @ rs" "db_cohort_proofs b = db_cohort_proofs a @ ps"
    "db_release_schedules b = db_release_schedules a @ ss"
    "db_immutable_events b = db_immutable_events a @ es"
    "\<forall>row \<in> set ps. \<forall>r \<in> set (db_cohort_roots a).
       \<not> root_key (pf_pool_id row) (pf_round_id row) r"
    unfolding extends_def by blast
  from assms(2) obtain ts' rs' ps' ss' es' where bc: "db_join_tickets c = db_join_tickets b @ ts'"
    "db_cohort_roots c = db_cohort_roots b @ rs'" "db_cohort_proofs c = db_cohort_proofs b @ ps'"
    "db_release_schedules c = db_release_schedules b @ ss'"
    "db_immutable_events c = db_immutable_events b @ es'"
    "\<forall>row \<in> set ps'. \<forall>r \<in> set (db_cohort_roots b).
       \<not> root_key (pf_pool_id row) (pf_round_id row) r"
    unfolding extends_def by blast
  show ?thesis unfolding extends_def
    by (intro exI [of _ "ts @ ts'"] exI [of _ "rs @ rs'"] exI [of _ "ps @ ps'"]
        exI [of _ "ss @ ss'"] exI [of _ "es @ es'"]) (use ab bc in auto)
qed

lemma insert_pool_tables:
  assumes "insert_pool env pool db = (Ok (), db')"
  shows "db_join_tickets db' = db_join_tickets db \<and> db_cohort_roots db' = db_cohort_roots db
    \<and> db_cohort_proofs db' = db_cohort_proofs db
    \<and> db_release_schedules db' = db_release_schedules db
    \<and> db_immutable_events db' = db_immutable_events db"
  using assms
  by (auto simp: insert_pool_def transaction_Ok_iff result_simps Let_def)

lemma put_round_tables:
  assumes "put_round env round db = (Ok (), db')"
  shows "db_join_tickets db' = db_join_tickets db \<and> db_cohort_roots db' = db_cohort_roots db
    \<and> db_cohort_proofs db' = db_cohort_proofs db
    \<and> db_release_schedules db' = db_release_schedules db
    \<and> db_immutable_events db' = db_immutable_events db"
  using assms by (auto simp: put_round_def result_simps Let_def split: if_splits)

lemma schedule_writes:
  assumes "schedule_release env pool round_id release window_end db = (Ok (), db')"
  obtains "db' = db" "\<exists>row \<in> set (db_release_schedules db).
        schedule_key (digest_bytes pool) (uint round_id) row
        \<and> sc_release_slot row = uint release \<and> sc_window_end_slot row = uint window_end"
    | row where "sc_pool_id row = digest_bytes pool" "sc_round_id row = uint round_id"
        "sc_release_slot row = uint release" "sc_window_end_slot row = uint window_end"
        "\<forall>r \<in> set (db_release_schedules db). \<not> schedule_key (digest_bytes pool) (uint round_id) r"
        "db' = db\<lparr>db_release_schedules := db_release_schedules db @ [row]\<rparr>"
proof (cases "query_row (schedule_key (digest_bytes pool) (uint round_id)) (db_release_schedules db)")
  case None
  let ?row = "\<lparr>sc_pool_id = digest_bytes pool, sc_round_id = uint round_id,
     sc_release_slot = uint release, sc_window_end_slot = uint window_end,
     sc_created_at = se_now env InsertSchedule\<rparr>"
  from None show ?thesis using assms that(2) [of ?row]
    by (simp add: schedule_release_def result_simps)
next
  case (Some row)
  then show ?thesis using assms that(1) query_row_SomeD [OF Some]
    by (auto simp: schedule_release_def result_simps split: if_splits)
qed

lemma seal_call_step:
  assumes "store_inv blake3 (se_json env) db"
    and "seal_cohort blake3 env pool round_id minimum db = (Ok rn, db')"
  shows "store_inv blake3 (se_json env) db' \<and> extends db db'"
proof (cases "db' = db")
  case True
  then show ?thesis using assms(1) by simp
next
  case False
  obtain root n where rn: "rn = (root, n)" by (cases rn)
  have none: "fetch_root env pool round_id db = Ok None"
    using assms(2) False by (auto simp: seal_cohort_eq split: result.splits option.splits)
  have "unique_rows same_proof_key (db_cohort_proofs db)"
    using assms(1) by (simp add: store_inv_def)
  with assms(2) [unfolded rn] none have "extends db db'"
  proof (rule seal_writes)
    fix leaves tree row new e
    assume new: "list_all2
          (\<lambda>leaf row. proof_key (digest_bytes pool) (uint round_id) (digest_bytes leaf) row
             \<and> (\<exists>p. MerkleCohort_proof tree leaf round_id = Ok p
                  \<and> js_proof_to_string (se_json env) p = Some (pf_proof_json row))) leaves new"
      and db': "db' = db\<lparr>db_cohort_roots := db_cohort_roots db @ [row],
             db_cohort_proofs := db_cohort_proofs db @ new,
             db_immutable_events := db_immutable_events db @ [e]\<rparr>"
    have "\<not> root_key (pf_pool_id q) (pf_round_id q) r"
      if "q \<in> set new" "r \<in> set (db_cohort_roots db)" for q r
      using list_all2_right [OF new that(1)] that(2) fetch_root_None [OF none]
      by (auto simp: proof_key_def)
    then show "extends db db'" unfolding extends_def db' by auto
  qed
  then show ?thesis using seal_inv [OF assms(1) assms(2) [unfolded rn] none] by simp
qed

lemma store_call_step:
  assumes "store_inv (cr_blake3 cr) (se_json env) db" "store_call cr env op db = (m, db')"
  shows "store_inv (cr_blake3 cr) (se_json env) db' \<and> extends db db'"
proof (cases "is_ok m")
  case False
  then have "db' = db" using store_call_error [OF assms(2)] by simp
  then show ?thesis using assms(1) by simp
next
  case ok: True
  show ?thesis
  proof (cases op)
    case (OpInsertPool pool)
    then have "insert_pool env pool db = (Ok (), db')"
      using assms(2) ok by (auto simp: is_ok_iff)
    then show ?thesis using insert_pool_tables assms(1) store_inv_cong extends_same by metis
  next
    case (OpPutRound round)
    then have "put_round env round db = (Ok (), db')"
      using assms(2) ok by (auto simp: is_ok_iff)
    then show ?thesis using put_round_tables assms(1) store_inv_cong extends_same by metis
  next
    case (OpAcceptTicket ticket)
    then obtain c where c: "accept_ticket cr env ticket db = (Ok c, db')"
      using assms(2) ok
      by (auto simp: is_ok_and_then_unit is_ok_iff and_then_Ok_iff split: prod.splits)
    then have "extends db db'"
      by (rule accept_ticket_writes) (auto simp: extends_def)
    then show ?thesis using accept_ticket_inv [OF assms(1) c] by simp
  next
    case (OpSealCohort pool round_id minimum)
    then obtain rn where "seal_cohort (cr_blake3 cr) env pool round_id minimum db = (Ok rn, db')"
      using assms(2) ok
      by (auto simp: is_ok_and_then_unit is_ok_iff and_then_Ok_iff split: prod.splits)
    then show ?thesis using seal_call_step assms(1) by blast
  next
    case (OpScheduleRelease pool round_id release window_end)
    then have "schedule_release env pool round_id release window_end db = (Ok (), db')"
      using assms(2) ok by (auto simp: is_ok_iff)
    then show ?thesis
    proof (rule schedule_writes)
      fix row assume "sc_pool_id row = digest_bytes pool" "sc_round_id row = uint round_id"
        "\<forall>r \<in> set (db_release_schedules db). \<not> schedule_key (digest_bytes pool) (uint round_id) r"
        and db': "db' = db\<lparr>db_release_schedules := db_release_schedules db @ [row]\<rparr>"
      then have "unique_rows same_schedule_key (db_release_schedules db')"
        using assms(1) by (simp add: store_inv_def unique_rows_append same_schedule_key_def)
      moreover have "sealed_cohort (cr_blake3 cr) (se_json env) db' p r root n
          = sealed_cohort (cr_blake3 cr) (se_json env) db p r root n" for p r root n
        by (simp add: sealed_cohort_def db')
      ultimately show ?thesis using assms(1) by (simp add: store_inv_def extends_def db')
    qed (use assms(1) in simp)
  qed
qed

section \<open>Histories\<close>

fun store_calls :: "('sk, 'vk) crypto \<Rightarrow> (env \<times> store_op) list \<Rightarrow> Db \<Rightarrow> Db" where
  "store_calls cr [] db = db"
| "store_calls cr ((env, op) # calls) db = store_calls cr calls (snd (store_call cr env op db))"

lemma store_calls_step:
  assumes "store_inv (cr_blake3 cr) js db" "\<forall>(env, op) \<in> set calls. se_json env = js"
  shows "store_inv (cr_blake3 cr) js (store_calls cr calls db) \<and> extends db (store_calls cr calls db)"
  using assms
proof (induction calls arbitrary: db)
  case Nil
  then show ?case by simp
next
  case (Cons call calls)
  obtain env op where call: "call = (env, op)" by (cases call)
  let ?db = "snd (store_call cr env op db)"
  have js: "se_json env = js" using Cons.prems(2) call by simp
  have "store_call cr env op db = (fst (store_call cr env op db), ?db)" by simp
  then have step: "store_inv (cr_blake3 cr) js ?db" "extends db ?db"
    using store_call_step Cons.prems(1) js by blast+
  have "store_inv (cr_blake3 cr) js (store_calls cr calls ?db)
      \<and> extends ?db (store_calls cr calls ?db)"
    using Cons.IH [OF step(1)] Cons.prems(2) by simp
  then show ?case using extends_trans [OF step(2)] call by auto
qed

text \<open>The databases an opened, initially empty store can reach.\<close>

definition reachable_db :: "('sk, 'vk) crypto \<Rightarrow> json \<Rightarrow> Db \<Rightarrow> bool" where
  "reachable_db cr js db \<longleftrightarrow>
    (\<exists>env0 db0 calls. memory_store env0 = (Ok (), db0)
       \<and> (\<forall>(env, op) \<in> set calls. se_json env = js) \<and> db = store_calls cr calls db0)"

lemma memory_store_empty:
  assumes "memory_store env = (Ok (), db)"
  shows "db_join_tickets db = [] \<and> db_cohort_roots db = [] \<and> db_cohort_proofs db = []
    \<and> db_release_schedules db = []"
  using assms
  by (auto simp: memory_store_def migrate_def transaction_Ok_iff result_simps empty_db_def
      split: result.splits if_splits)

lemma reachable_inv:
  assumes "reachable_db cr js db"
  shows "store_inv (cr_blake3 cr) js db"
proof -
  from assms obtain env0 db0 calls where db0: "memory_store env0 = (Ok (), db0)"
    and js: "\<forall>(env, op) \<in> set calls. se_json env = js" and db: "db = store_calls cr calls db0"
    unfolding reachable_db_def by blast
  have "store_inv (cr_blake3 cr) js db0"
    using memory_store_empty [OF db0] by (intro store_inv_empty) auto
  from store_calls_step [OF this js] show ?thesis by (simp add: db)
qed

text \<open>\<open>serde_json\<close> reads back the proofs it wrote.\<close>

definition json_ok :: "json \<Rightarrow> bool" where
  "json_ok js \<longleftrightarrow> (\<forall>p text. js_proof_to_string js p = Some text \<longrightarrow> js_proof_from_str js text = Some p)"

section \<open>Reading back\<close>

lemma fetch_proof_SomeD:
  assumes "fetch_proof env pool round_id c db = Ok (Some p)"
  obtains row where "row \<in> set (db_cohort_proofs db)"
    "proof_key (digest_bytes pool) (uint round_id) (digest_bytes c) row"
    "js_proof_from_str (se_json env) (pf_proof_json row) = Some p"
proof (cases "query_row (proof_key (digest_bytes pool) (uint round_id) (digest_bytes c))
    (db_cohort_proofs db)")
  case None
  then show ?thesis using assms by (simp add: fetch_proof_def result_simps)
next
  case (Some row)
  then have "js_proof_from_str (se_json env) (pf_proof_json row) = Some p"
    using assms by (simp add: fetch_proof_def result_simps)
  then show ?thesis using query_row_SomeD [OF Some] that by blast
qed

lemma fetch_root_Some:
  assumes "store_inv blake3 js db" "row \<in> set (db_cohort_roots db)"
    and "root_key (digest_bytes pool) (uint round_id) row" "uint round_id < 2 ^ 63"
    and "se_fault env SelectRoot = None"
  obtains root n where "fetch_root env pool round_id db = Ok (Some (root, of_nat n))"
    "sealed_cohort blake3 js db (digest_bytes pool) (uint round_id) root n"
proof -
  from assms(2,3) obtain found where
    found: "query_row (root_key (digest_bytes pool) (uint round_id)) (db_cohort_roots db) = Some found"
    by (cases "query_row (root_key (digest_bytes pool) (uint round_id)) (db_cohort_roots db)")
      (auto simp: query_row_None_iff)
  have "found \<in> set (db_cohort_roots db)"
    and key: "ro_pool_id found = digest_bytes pool" "ro_round_id found = uint round_id"
    using query_row_SomeD [OF found] by (auto simp: root_key_def)
  then obtain root n where row: "ro_root found = digest_bytes root"
    "length (digest_bytes root) = 32" "ro_cohort_size found = int n"
    and cohort: "sealed_cohort blake3 js db (digest_bytes pool) (uint round_id) root n"
    using store_inv_root [OF assms(1), of found] by metis
  have "n < 2 ^ 32" using cohort by (auto simp: sealed_cohort_def)
  then have "fetch_root env pool round_id db = Ok (Some (root, of_nat n))"
    using assms(4,5) found row
    by (simp add: fetch_root_def as_i64_def run_stmt_def execute_def digest_def)
  then show ?thesis using cohort that by blast
qed

text \<open>A sealed cohort and its persisted proofs, through the Merkle interface.\<close>

lemma sealed_proof_row:
  assumes "sealed_cohort blake3 js db (digest_bytes pool) (uint round_id) root n"
    and "row \<in> set (db_cohort_proofs db)"
    and "proof_key (digest_bytes pool) (uint round_id) (digest_bytes c) row" "json_ok js"
  obtains p where "js_proof_from_str js (pf_proof_json row) = Some p" "cp_leaf_hash p = c"
    "CohortProof_verify blake3 p root round_id = Ok ()"
    "digest_bytes c \<in> tr_commitment ` {t \<in> set (db_join_tickets db).
        ticket_of (digest_bytes pool) (uint round_id) t}"
proof -
  from assms(1) obtain leaves tree where
    tree: "MerkleCohort_build blake3 leaves = Ok tree" "MerkleCohort_root tree = Ok root"
    and members: "digest_bytes ` set leaves \<subseteq> tr_commitment `
      {t \<in> set (db_join_tickets db). ticket_of (digest_bytes pool) (uint round_id) t}"
    and rows: "\<forall>row \<in> set (db_cohort_proofs db).
        pf_pool_id row = digest_bytes pool \<and> pf_round_id row = uint round_id \<longrightarrow>
        (\<exists>leaf \<in> set leaves. \<exists>p. pf_commitment row = digest_bytes leaf
           \<and> MerkleCohort_proof tree leaf (word_of_int (uint round_id)) = Ok p
           \<and> js_proof_to_string js p = Some (pf_proof_json row))"
    unfolding sealed_cohort_def by blast
  from rows assms(2,3) obtain leaf p where leaf: "leaf \<in> set leaves"
    "digest_bytes c = digest_bytes leaf" "MerkleCohort_proof tree leaf round_id = Ok p"
    "js_proof_to_string js p = Some (pf_proof_json row)"
    by (fastforce simp: proof_key_def)
  then have c: "leaf = c" by (simp add: Digest32.expand)
  show ?thesis
  proof (rule that)
    show "js_proof_from_str js (pf_proof_json row) = Some p"
      using leaf(4) assms(4) by (simp add: json_ok_def)
    show "cp_leaf_hash p = c"
      using member_proof_verifies [OF tree(1) leaf(1), of round_id] leaf(3) c by auto
    show "CohortProof_verify blake3 p root round_id = Ok ()"
      using merkle.prove_complete [OF tree leaf(1), of round_id] leaf(3) by auto
    show "digest_bytes c \<in> tr_commitment ` {t \<in> set (db_join_tickets db).
        ticket_of (digest_bytes pool) (uint round_id) t}"
      using members leaf(1) c by blast
  qed
qed

text \<open>
  C17. Whatever operations ran, and wherever SQLite failed, a proof read from the store is
  right: it proves exactly the requested commitment, the store has an immutable root for
  that round, and the proof verifies against this root and round.
\<close>

theorem stored_proofs_verify:
  assumes "reachable_db cr js db" "json_ok js" "se_json env = js"
    and "fetch_proof env pool round_id c db = Ok (Some p)"
    and "se_fault env SelectRoot = None"
  shows "cp_leaf_hash p = c \<and> (\<exists>root n. fetch_root env pool round_id db = Ok (Some (root, n))
    \<and> CohortProof_verify (cr_blake3 cr) p root round_id = Ok ())"
proof -
  note inv = reachable_inv [OF assms(1)]
  from assms(4) obtain row where row: "row \<in> set (db_cohort_proofs db)"
    "proof_key (digest_bytes pool) (uint round_id) (digest_bytes c) row"
    "js_proof_from_str js (pf_proof_json row) = Some p"
    using assms(3) fetch_proof_SomeD by blast
  have small: "uint round_id < 2 ^ 63"
    using assms(4) by (auto simp: fetch_proof_def result_simps)
  from row(1,2) inv obtain r where "r \<in> set (db_cohort_roots db)"
    "root_key (digest_bytes pool) (uint round_id) r"
    by (auto simp: store_inv_def proof_key_def)
  from inv this small assms(5) obtain root n where
    root: "fetch_root env pool round_id db = Ok (Some (root, of_nat n))"
    "sealed_cohort (cr_blake3 cr) js db (digest_bytes pool) (uint round_id) root n"
    by (rule fetch_root_Some)
  from root(2) row(1,2) assms(2) obtain p' where
    "js_proof_from_str js (pf_proof_json row) = Some p'" "cp_leaf_hash p' = c"
    "CohortProof_verify (cr_blake3 cr) p' root round_id = Ok ()"
    by (rule sealed_proof_row)
  then show ?thesis using row(3) root(1) by auto
qed

lemma fetch_proof_Some:
  assumes "sealed_cohort blake3 (se_json env) db (digest_bytes pool) (uint round_id) root n"
    and "row \<in> set (db_cohort_proofs db)"
    and "proof_key (digest_bytes pool) (uint round_id) (digest_bytes c) row"
    and "json_ok (se_json env)" "uint round_id < 2 ^ 63" "se_fault env SelectProof = None"
  obtains p where "fetch_proof env pool round_id c db = Ok (Some p)" "cp_leaf_hash p = c"
    "CohortProof_verify blake3 p root round_id = Ok ()"
proof -
  let ?key = "proof_key (digest_bytes pool) (uint round_id) (digest_bytes c)"
  from assms(2,3) obtain found where
    found: "query_row ?key (db_cohort_proofs db) = Some found"
    by (cases "query_row ?key (db_cohort_proofs db)") (auto simp: query_row_None_iff)
  then have "found \<in> set (db_cohort_proofs db)" "?key found" by (auto dest: query_row_SomeD)
  with assms(1) obtain p where p: "js_proof_from_str (se_json env) (pf_proof_json found) = Some p"
    "cp_leaf_hash p = c" "CohortProof_verify blake3 p root round_id = Ok ()"
    using assms(4) by (rule sealed_proof_row)
  have "fetch_proof env pool round_id c db = Ok (Some p)"
    using found p(1) assms(5,6)
    by (simp add: fetch_proof_def as_i64_def run_stmt_def execute_def)
  then show ?thesis using p that by blast
qed

lemma query_row_append:
  "query_row p rows = Some r \<Longrightarrow> query_row p (rows @ new) = Some r"
  by (induction rows) (auto simp: query_row_def)

lemma extends_fetch_proof:
  assumes "extends db db'" "fetch_proof env pool round_id c db = Ok (Some p)"
  shows "fetch_proof env pool round_id c db' = Ok (Some p)"
proof (cases "query_row (proof_key (digest_bytes pool) (uint round_id) (digest_bytes c))
    (db_cohort_proofs db)")
  case None
  then show ?thesis using assms(2) by (simp add: fetch_proof_def result_simps)
next
  case (Some row)
  obtain ps where "db_cohort_proofs db' = db_cohort_proofs db @ ps"
    using assms(1) by (auto simp: extends_def)
  then have "query_row (proof_key (digest_bytes pool) (uint round_id) (digest_bytes c))
      (db_cohort_proofs db') = Some row"
    using query_row_append [OF Some] by simp
  then show ?thesis using assms(2) Some
    by (cases "uint round_id < 2 ^ 63") (simp_all add: fetch_proof_def as_i64_def)
qed

lemma seal_covers:
  assumes "reachable_db cr js db" "json_ok js" "se_json env = js"
    and "fetch_root env pool round_id db = Ok None"
    and "seal_cohort (cr_blake3 cr) env pool round_id minimum db = (Ok (root, n), db')"
    and "t \<in> set (db_join_tickets db)" "ticket_of (digest_bytes pool) (uint round_id) t"
    and "se_json env' = js" "se_fault env' SelectProof = None" "extends db' db''"
  shows "minimum \<le> n
    \<and> unat n = length (filter (ticket_of (digest_bytes pool) (uint round_id)) (db_join_tickets db))
    \<and> (\<exists>p. fetch_proof env' pool round_id (Digest32 (tr_commitment t)) db'' = Ok (Some p)
         \<and> cp_leaf_hash p = Digest32 (tr_commitment t)
         \<and> CohortProof_verify (cr_blake3 cr) p root round_id = Ok ())"
proof -
  note inv = reachable_inv [OF assms(1)]
  have uniq: "unique_rows same_proof_key (db_cohort_proofs db)"
    using inv by (simp add: store_inv_def)
  have inv': "store_inv (cr_blake3 cr) js db'"
    using seal_inv [OF inv [folded assms(3)] assms(5,4)] assms(3) by simp
  from assms(5,4) uniq show ?thesis
  proof (rule seal_writes)
    fix leaves tree row new e
    assume ls: "map digest_bytes leaves = sort (map tr_commitment
         (filter (ticket_of (digest_bytes pool) (uint round_id)) (db_join_tickets db)))"
      and rid: "uint round_id < 2 ^ 63"
      and n: "length leaves < 2 ^ 32" "n = of_nat (length leaves)" "minimum \<le> n"
      and row: "ro_pool_id row = digest_bytes pool" "ro_round_id row = uint round_id"
        "ro_root row = digest_bytes root"
      and new: "list_all2
          (\<lambda>leaf row. proof_key (digest_bytes pool) (uint round_id) (digest_bytes leaf) row
             \<and> (\<exists>p. MerkleCohort_proof tree leaf round_id = Ok p
                  \<and> js_proof_to_string (se_json env) p = Some (pf_proof_json row))) leaves new"
      and db': "db' = db\<lparr>db_cohort_roots := db_cohort_roots db @ [row],
             db_cohort_proofs := db_cohort_proofs db @ new,
             db_immutable_events := db_immutable_events db @ [e]\<rparr>"
    have "row \<in> set (db_cohort_roots db')" by (simp add: db')
    from inv' this obtain root' m where "ro_root row = digest_bytes root'"
      and cohort: "sealed_cohort (cr_blake3 cr) js db' (digest_bytes pool) (uint round_id) root' m"
      by (rule store_inv_root) (use row(1,2) in simp)
    then have root: "root' = root" using row(3) by (simp add: Digest32.expand)
    have "length leaves = length (map digest_bytes leaves)" by simp
    then have size: "unat n
        = length (filter (ticket_of (digest_bytes pool) (uint round_id)) (db_join_tickets db))"
      unfolding ls using n by (simp add: unsigned_of_nat take_bit_nat_eq_self)
    have "tr_commitment t \<in> set (map digest_bytes leaves)" unfolding ls using assms(6,7) by simp
    then obtain leaf where leaf: "leaf \<in> set leaves" "tr_commitment t = digest_bytes leaf" by auto
    from list_all2_left [OF new leaf(1)] obtain r where "r \<in> set (db_cohort_proofs db')"
      "proof_key (digest_bytes pool) (uint round_id) (digest_bytes leaf) r"
      by (auto simp: db')
    with cohort [unfolded root, folded assms(8)] obtain p where
      p: "fetch_proof env' pool round_id leaf db' = Ok (Some p)" "cp_leaf_hash p = leaf"
      "CohortProof_verify (cr_blake3 cr) p root round_id = Ok ()"
      using assms(2) [folded assms(8)] rid assms(9) by (rule fetch_proof_Some)
    then show ?thesis using extends_fetch_proof [OF assms(10) p(1)] leaf size n(3) by auto
  qed
qed

text \<open>
  C18. Sealing covers everyone: when a round is sealed for the first time, the returned
  count is the number of tickets accepted for the round and reaches the minimum, and every
  one of these tickets can from then on read a proof of its commitment that verifies
  against the returned root, whatever operations follow.
\<close>

theorem seal_covers_every_ticket:
  assumes "reachable_db cr js db" "json_ok js" "se_json env = js"
    and "fetch_root env pool round_id db = Ok None"
    and "seal_cohort (cr_blake3 cr) env pool round_id minimum db = (Ok (root, n), db')"
    and "t \<in> set (db_join_tickets db)" "ticket_of (digest_bytes pool) (uint round_id) t"
    and "\<forall>(env, op) \<in> set calls. se_json env = js"
    and "se_json env' = js" "se_fault env' SelectProof = None"
  shows "minimum \<le> n
    \<and> unat n = length (filter (ticket_of (digest_bytes pool) (uint round_id)) (db_join_tickets db))
    \<and> (\<exists>p. fetch_proof env' pool round_id (Digest32 (tr_commitment t)) (store_calls cr calls db')
          = Ok (Some p)
         \<and> cp_leaf_hash p = Digest32 (tr_commitment t)
         \<and> CohortProof_verify (cr_blake3 cr) p root round_id = Ok ())"
proof -
  have "store_inv (cr_blake3 cr) js db'"
    using seal_inv [OF reachable_inv [OF assms(1), folded assms(3)] assms(5,4)] assms(3) by simp
  from store_calls_step [OF this assms(8)] have "extends db' (store_calls cr calls db')" by simp
  with assms(1-7,9,10) show ?thesis by (rule seal_covers)
qed

lemma extends_fetch_root:
  assumes "extends db db'" "fetch_root env pool round_id db = Ok (Some rn)"
  shows "fetch_root env pool round_id db' = Ok (Some rn)"
proof (cases "query_row (root_key (digest_bytes pool) (uint round_id)) (db_cohort_roots db)")
  case None
  then show ?thesis using assms(2) by (simp add: fetch_root_def result_simps)
next
  case (Some row)
  obtain rs where "db_cohort_roots db' = db_cohort_roots db @ rs"
    using assms(1) by (auto simp: extends_def)
  then have "query_row (root_key (digest_bytes pool) (uint round_id)) (db_cohort_roots db') = Some row"
    using query_row_append [OF Some] by simp
  then show ?thesis using assms(2) Some 
    by (cases "uint round_id < 2 ^ 63") (simp_all add: fetch_root_def as_i64_def)
qed

text \<open>
  C19. A root is immutable and sealing is idempotent: once a root and count are stored for
  a round, they are returned after every further sequence of operations, and a further
  sealing, with any minimum, returns them and changes nothing.
\<close>

theorem sealed_root_immutable:
  assumes "reachable_db cr js db" "\<forall>(env, op) \<in> set calls. se_json env = js"
    and "fetch_root env pool round_id db = Ok (Some rn)"
  shows "fetch_root env pool round_id (store_calls cr calls db) = Ok (Some rn)
    \<and> seal_cohort (cr_blake3 cr) env pool round_id minimum (store_calls cr calls db)
        = (Ok rn, store_calls cr calls db)"
proof -
  have "extends db (store_calls cr calls db)"
    using store_calls_step [OF reachable_inv [OF assms(1)] assms(2)] by simp
  then have "fetch_root env pool round_id (store_calls cr calls db) = Ok (Some rn)"
    using assms(3) by (rule extends_fetch_root)
  then show ?thesis by (simp add: seal_cohort_eq)
qed

end
