(* ===== verification/MP_Store_Laws.thy ===== *)
theory MP_Store_Laws
  imports MP_Sealing
begin

text \<open>
  Further laws of the store: the exact outcome of accepting a ticket, the fate of tickets
  accepted after sealing, release schedules that are set once, rows that read back at the
  types the code expects, and a concrete environment on
  which the assumptions of the store's theorems hold.
\<close>

section \<open>Accepting tickets\<close>

definition healthy :: "env \<Rightarrow> bool" where
  "healthy env \<longleftrightarrow> (\<forall>stmt. se_fault env stmt = None)"

lemma healthy_simps:
  assumes "healthy env"
  shows "run_stmt env stmt m = map_err Sqlite m" "execute env stmt m = m"
    "statement env stmt conv f db = (case f db of
       Ok db' \<Rightarrow> (Ok (), db') | Err e \<Rightarrow> (Err (conv e), db) | Panic \<Rightarrow> (Panic, db))"
  using assms by (simp_all add: healthy_def run_stmt_def execute_def statement_def)

lemma transaction_healthy:
  assumes "healthy env"
  shows "transaction env body db =
    (case body db of
       (Ok a, inside) \<Rightarrow> (Ok a, inside) | (Err e, inside) \<Rightarrow> (Err e, db) | (Panic, inside) \<Rightarrow> (Panic, db))"
  using assms by (simp add: transaction_def healthy_simps split: result.splits prod.splits)

lemma migrate_healthy:
  assumes "healthy env"
  shows "migrate env db = (Ok (), if 1 \<in> fst ` set (db_schema_migrations db) then db
    else db\<lparr>db_schema_migrations := db_schema_migrations db @ [(1, se_now env InsertMigration)]\<rparr>)"
  by (simp add: migrate_def bind_cmd_def transaction_healthy [OF assms] healthy_simps [OF assms])

lemma accept_outcome:
  assumes "healthy env" "JoinTicket_commitment cr ticket = Ok c" "length (digest_bytes c) = 32"
    and "js_ticket_to_string (se_json env) ticket = Some json" "uint (jt_round_id ticket) < 2 ^ 63"
  shows "accept_ticket cr env ticket db =
    (if \<exists>r \<in> set (db_join_tickets db). tr_commitment r = digest_bytes c
          \<or> tr_pool_id r = digest_bytes (jt_pool_id ticket)
            \<and> tr_round_id r = uint (jt_round_id ticket)
            \<and> tr_coordination_key r = jt_coordination_public_key ticket
     then (Err DuplicateTicket, db)
     else (Ok c, db\<lparr>
       db_join_tickets := db_join_tickets db @
         [\<lparr>tr_pool_id = digest_bytes (jt_pool_id ticket), tr_round_id = uint (jt_round_id ticket),
           tr_commitment = digest_bytes c,
           tr_coordination_key = jt_coordination_public_key ticket,
           tr_ticket_json = json, tr_accepted_at = se_now env InsertTicket\<rparr>],
       db_immutable_events := db_immutable_events db @
         [\<lparr>ev_pool_id = Some (digest_bytes (jt_pool_id ticket)),
           ev_round_id = Some (uint (jt_round_id ticket)),
           ev_event_type = ''ticket_accepted'', ev_payload_hash = digest_bytes c,
           ev_occurred_at = se_now env InsertEvent\<rparr>]\<rparr>))"
proof -
  let ?row = "\<lparr>tr_pool_id = digest_bytes (jt_pool_id ticket),
     tr_round_id = uint (jt_round_id ticket), tr_commitment = digest_bytes c,
     tr_coordination_key = jt_coordination_public_key ticket,
     tr_ticket_json = json, tr_accepted_at = se_now env InsertTicket\<rparr>"
  have clash: "list_ex (ticket_clash ?row) (db_join_tickets db) \<longleftrightarrow>
    (\<exists>r \<in> set (db_join_tickets db). tr_commitment r = digest_bytes c
          \<or> tr_pool_id r = digest_bytes (jt_pool_id ticket)
            \<and> tr_round_id r = uint (jt_round_id ticket)
            \<and> tr_coordination_key r = jt_coordination_public_key ticket)"
    unfolding list_ex_iff ticket_clash_def by (simp, metis)
  have ins: "insert_ticket ?row (db_join_tickets db) =
      (if list_ex (ticket_clash ?row) (db_join_tickets db) then Err ConstraintViolation
       else Ok (db_join_tickets db @ [?row]))"
    using assms(3) by (simp add: insert_ticket_def insert_row_def)
  show ?thesis
    using assms(2,4,5) ins unfolding clash [symmetric]
    by (simp add: accept_ticket_def bind_cmd_def lift_def transaction_healthy [OF assms(1)]
        healthy_simps [OF assms(1)] as_i64_def event_def insert_error_def)
qed

text \<open>
  The exact outcome of accepting a ticket when SQLite works: if the commitment was
  ever accepted, in any round, or the coordination key was accepted for the same pool and
  round, the ticket is rejected as a duplicate and nothing changes; otherwise the call
  returns the commitment, adds exactly this ticket and one event, and changes nothing else.
\<close>

theorem accept_ticket_outcome:
  assumes "healthy env" "JoinTicket_commitment cr ticket = Ok c" "length (digest_bytes c) = 32"
    and "js_ticket_to_string (se_json env) ticket = Some json" "uint (jt_round_id ticket) < 2 ^ 63"
  shows "accept_ticket cr env ticket db =
    (if \<exists>r \<in> set (db_join_tickets db). tr_commitment r = digest_bytes c
          \<or> tr_pool_id r = digest_bytes (jt_pool_id ticket)
            \<and> tr_round_id r = uint (jt_round_id ticket)
            \<and> tr_coordination_key r = jt_coordination_public_key ticket
     then (Err DuplicateTicket, db)
     else (Ok c, db\<lparr>
       db_join_tickets := db_join_tickets db @
         [\<lparr>tr_pool_id = digest_bytes (jt_pool_id ticket), tr_round_id = uint (jt_round_id ticket),
           tr_commitment = digest_bytes c,
           tr_coordination_key = jt_coordination_public_key ticket,
           tr_ticket_json = json, tr_accepted_at = se_now env InsertTicket\<rparr>],
       db_immutable_events := db_immutable_events db @
         [\<lparr>ev_pool_id = Some (digest_bytes (jt_pool_id ticket)),
           ev_round_id = Some (uint (jt_round_id ticket)),
           ev_event_type = ''ticket_accepted'', ev_payload_hash = digest_bytes c,
           ev_occurred_at = se_now env InsertEvent\<rparr>]\<rparr>))"
  using assms by (rule accept_outcome)

section \<open>Late tickets\<close>

lemma sealed_proofs_frozen:
  assumes "extends db db'" "r \<in> set (db_cohort_roots db)" "root_key pool rid r"
    and "row \<in> set (db_cohort_proofs db')" "pf_pool_id row = pool" "pf_round_id row = rid"
  shows "row \<in> set (db_cohort_proofs db)"
  using assms unfolding extends_def by auto

text \<open>
  C31. The store accepts tickets for a round that is already sealed, and such a ticket
  never gets a proof: neither now nor after any further operations, sealing included, since
  the stored root is final.
\<close>

theorem late_ticket_never_proved:
  assumes "reachable_db cr js db" "json_ok js" "se_json env = js"
    and "fetch_root env (jt_pool_id ticket) (jt_round_id ticket) db = Ok (Some rn)"
    and "accept_ticket cr env ticket db = (Ok c, db')"
    and "\<forall>(env, op) \<in> set calls. se_json env = js" "se_fault env' SelectProof = None"
  shows "fetch_proof env' (jt_pool_id ticket) (jt_round_id ticket) c (store_calls cr calls db')
    = Ok None"
proof -
  let ?pool = "digest_bytes (jt_pool_id ticket)" and ?rid = "uint (jt_round_id ticket)"
  let ?fin = "store_calls cr calls db'"
  note inv = reachable_inv [OF assms(1)]
  have inv': "store_inv (cr_blake3 cr) js db'" using accept_ticket_inv [OF inv assms(5)] .
  have "query_row (root_key ?pool ?rid) (db_cohort_roots db) \<noteq> None"
  proof
    assume "query_row (root_key ?pool ?rid) (db_cohort_roots db) = None"
    then show False using assms(4) by (simp add: fetch_root_def result_simps)
  qed
  then obtain r where r: "r \<in> set (db_cohort_roots db)" "root_key ?pool ?rid r"
    by (auto dest: query_row_SomeD)
  from assms(5) show ?thesis
  proof (rule accept_ticket_writes)
    fix row e
    assume new: "tr_commitment row = digest_bytes c"
      "\<forall>t \<in> set (db_join_tickets db). \<not> ticket_clash row t" and small: "?rid < 2 ^ 63"
      and db': "db' = db\<lparr>db_join_tickets := db_join_tickets db @ [row],
             db_immutable_events := db_immutable_events db @ [e]\<rparr>"
    have "\<not> proof_key ?pool ?rid (digest_bytes c) q" if "q \<in> set (db_cohort_proofs ?fin)" for q
    proof
      assume key: "proof_key ?pool ?rid (digest_bytes c) q"
      have "extends db' ?fin" using store_calls_step [OF inv' assms(6)] by simp
      then have "q \<in> set (db_cohort_proofs db')"
        by (rule sealed_proofs_frozen [where r = r])
          (use r that key in \<open>auto simp: db' proof_key_def\<close>)
      then have q: "q \<in> set (db_cohort_proofs db)" by (simp add: db')
      from inv r(1) obtain root n where
        "sealed_cohort (cr_blake3 cr) js db (ro_pool_id r) (ro_round_id r) root n"
        by (rule store_inv_root)
      then have "sealed_cohort (cr_blake3 cr) js db ?pool ?rid root n"
        using r(2) by (simp add: root_key_def)
      then have "digest_bytes c \<in> tr_commitment `
          {t \<in> set (db_join_tickets db). ticket_of ?pool ?rid t}"
        using q key assms(2) by (rule sealed_proof_row)
      then show False using new by (auto simp: ticket_clash_def)
    qed
    then have "query_row (proof_key ?pool ?rid (digest_bytes c)) (db_cohort_proofs ?fin) = None"
      by (simp add: query_row_None_iff)
    then show ?thesis using small assms(7)
      by (simp add: fetch_proof_def as_i64_def run_stmt_def execute_def)
  qed
qed

section \<open>Schedules\<close>

lemma schedule_stored:
  assumes "schedule_release env pool round_id release window_end db = (Ok (), db')"
  obtains row where
    "query_row (schedule_key (digest_bytes pool) (uint round_id)) (db_release_schedules db') = Some row"
    "sc_release_slot row = uint release" "sc_window_end_slot row = uint window_end"
    "uint round_id < 2 ^ 63"
proof (cases "query_row (schedule_key (digest_bytes pool) (uint round_id)) (db_release_schedules db)")
  case None
  let ?row = "\<lparr>sc_pool_id = digest_bytes pool, sc_round_id = uint round_id,
     sc_release_slot = uint release, sc_window_end_slot = uint window_end,
     sc_created_at = se_now env InsertSchedule\<rparr>"
  have db': "db' = db\<lparr>db_release_schedules := db_release_schedules db @ [?row]\<rparr>"
    and small: "uint round_id < 2 ^ 63"
    using assms None by (simp_all add: schedule_release_def result_simps)
  have "query_row (schedule_key (digest_bytes pool) (uint round_id)) (rows @ [?row]) = Some ?row"
    if "query_row (schedule_key (digest_bytes pool) (uint round_id)) rows = None" for rows
    using that by (induction rows) (auto simp: query_row_def schedule_key_def split: if_splits)
  then show ?thesis using that [of ?row] None db' small by simp
next
  case (Some row)
  then show ?thesis using assms that [of row]
    by (auto simp: schedule_release_def result_simps split: if_splits)
qed

text \<open>
  C23. A release is scheduled once: after a schedule was accepted for a round, and whatever
  operations and failures follow, as long as its row can be read the same schedule is accepted
  again without any change and every other one is refused as conflicting, also without any
  change.
\<close>

theorem schedule_release_once:
  assumes "reachable_db cr js db"
    and "schedule_release env pool round_id release window_end db = (Ok (), db')"
    and "se_json env = js" "\<forall>(env, op) \<in> set calls. se_json env = js"
    and "se_fault env' SelectSchedule = None" "db'' = store_calls cr calls db'"
  shows "schedule_release env' pool round_id release' window_end' db'' =
    (if release' = release \<and> window_end' = window_end then (Ok (), db'')
     else (Err ConflictingSchedule, db''))"
proof -
  have "store_call cr env (OpScheduleRelease pool round_id release window_end) db = (Ok (), db')"
    using assms(2) by simp
  then have "store_inv (cr_blake3 cr) js db'"
    using store_call_step [of cr env db] reachable_inv [OF assms(1)] assms(3) by blast
  then have ext: "extends db' db''" using store_calls_step assms(4,6) by blast
  from assms(2) obtain row where
    q: "query_row (schedule_key (digest_bytes pool) (uint round_id)) (db_release_schedules db')
      = Some row"
    and row: "sc_release_slot row = uint release" "sc_window_end_slot row = uint window_end"
    and small: "uint round_id < 2 ^ 63"
    by (rule schedule_stored)
  from ext obtain ss where "db_release_schedules db'' = db_release_schedules db' @ ss"
    by (auto simp: extends_def)
  then have "query_row (schedule_key (digest_bytes pool) (uint round_id)) (db_release_schedules db'')
      = Some row"
    using query_row_append [OF q] by simp
  then show ?thesis using row small assms(5)
    by (auto simp: schedule_release_def select_schedule_def bind_cmd_def lift_def as_i64_def run_stmt_def execute_def
        word_uint_eq_iff)
qed

section \<open>Sealing succeeds\<close>

lemma root_digest32:
  assumes "\<forall>bs. length (blake3 bs) = 32" "\<forall>d \<in> set leaves. digest32 d"
    and "MerkleCohort_build blake3 leaves = Ok tree" "MerkleCohort_root tree = Ok root"
  shows "digest32 root"
proof -
  let ?top = "last (tower blake3 (sort leaves))"
  have ne: "sort leaves \<noteq> []" using assms(3) by (auto simp: build_Ok_iff)
  then have "root = hd ?top" using assms(3,4) root_tower [OF ne] by (auto simp: build_Ok_iff)
  moreover have "?top \<noteq> []" using last_tower_length [OF ne, of blake3] by auto
  moreover have "?top \<in> set (tower blake3 (sort leaves))" by simp
  moreover have "\<forall>level \<in> set (tower blake3 (sort leaves)). \<forall>d \<in> set level. digest32 d"
    using tower_digest32 [OF assms(1), of "sort leaves"] assms(2) by simp
  ultimately show ?thesis using hd_in_set by metis
qed

lemma insert_proofs_total:
  assumes "healthy env" "\<forall>p. \<exists>text. js_proof_to_string (se_json env) p = Some text"
    and "uint round_id < 2 ^ 63" "distinct leaves"
    and "\<forall>leaf \<in> set leaves. \<exists>p. MerkleCohort_proof tree leaf round_id = Ok p"
    and "\<forall>r \<in> set (db_cohort_proofs db). \<forall>leaf \<in> set leaves.
           \<not> proof_key (digest_bytes pool) (uint round_id) (digest_bytes leaf) r"
  shows "\<exists>db'. insert_proofs env tree pool round_id i leaves db = (Ok (), db')"
  using assms(4-6)
proof (induction leaves arbitrary: i db)
  case Nil
  then show ?case by (simp add: lift_def)
next
  case (Cons leaf leaves)
  obtain p json where p: "MerkleCohort_proof tree leaf round_id = Ok p"
    "js_proof_to_string (se_json env) p = Some json"
    using Cons.prems(2) assms(2) by fastforce
  let ?row = "\<lparr>pf_pool_id = digest_bytes pool, pf_round_id = uint round_id,
     pf_commitment = digest_bytes leaf, pf_proof_json = json\<rparr>"
  let ?db = "db\<lparr>db_cohort_proofs := db_cohort_proofs db @ [?row]\<rparr>"
  have "\<not> proof_key (digest_bytes pool) (uint round_id) (digest_bytes leaf') ?row"
    if "leaf' \<in> set leaves" for leaf'
    using that Cons.prems(1) by (auto simp: proof_key_def dest: Digest32.expand)
  then obtain db' where
    "insert_proofs env tree pool round_id (Suc i) leaves ?db = (Ok (), db')"
    using Cons.IH [of ?db "Suc i"] Cons.prems by auto
  moreover have "\<not> list_ex
      (\<lambda>b. proof_key (digest_bytes pool) (uint round_id) (digest_bytes leaf) b) (db_cohort_proofs db)"
    using Cons.prems(3) by (auto simp: list_ex_iff)
  ultimately show ?case using p assms(3)
    by (simp add: bind_cmd_def lift_def healthy_simps [OF assms(1)] as_i64_def insert_row_def)
qed

lemma distinct_commitments:
  assumes "unique_rows ticket_clash rows"
  shows "distinct (map tr_commitment rows)"
  using assms unfolding unique_rows_def
  by (induction rows) (auto simp: ticket_clash_def)

lemma select_leaves_total:
  assumes "store_inv blake3 js db" "healthy env"
  obtains leaves where "select_leaves env pool rid db = Ok leaves" "distinct leaves"
    "\<forall>d \<in> set leaves. digest32 d"
    "length leaves = length (filter (ticket_of pool rid) (db_join_tickets db))"
proof -
  let ?cs = "sort (map tr_commitment (filter (ticket_of pool rid) (db_join_tickets db)))"
  have len: "\<forall>c \<in> set ?cs. length c = 32" using assms(1) by (auto simp: store_inv_def)
  have "distinct (map tr_commitment (db_join_tickets db))"
    using distinct_commitments assms(1) by (auto simp: store_inv_def)
  then have "distinct ?cs" by (simp add: distinct_map_filter)
  then have dist: "distinct (map Digest32 ?cs)" by (simp add: distinct_map inj_on_def)
  have "map digest ?cs = map Ok (map Digest32 ?cs)" using len by (simp add: digest_def)
  then have "traverse digest ?cs = Ok (map Digest32 ?cs)" unfolding traverse_Ok_iff .
  then have "select_leaves env pool rid db = Ok (map Digest32 ?cs)"
    by (simp add: select_leaves_def healthy_simps [OF assms(2)])
  then show ?thesis using that dist len by (auto simp: digest32_def)
qed

lemma seal_total:
  assumes "reachable_db cr js db" "healthy env" "se_json env = js"
    and "\<forall>p. \<exists>text. js_proof_to_string js p = Some text" "\<forall>bs. length (cr_blake3 cr bs) = 32"
    and "fetch_root env pool round_id db = Ok None"
    and "n = length (filter (ticket_of (digest_bytes pool) (uint round_id)) (db_join_tickets db))"
    and "1 \<le> n" "n \<le> 100000" "unat minimum \<le> n"
  shows "\<exists>root db'. seal_cohort (cr_blake3 cr) env pool round_id minimum db
    = (Ok (root, of_nat n), db')"
proof -
  let ?b = "cr_blake3 cr" and ?pool = "digest_bytes pool" and ?rid = "uint round_id"
  note inv = reachable_inv [OF assms(1)]
  note h = healthy_simps [OF assms(2)]
  note none = fetch_root_None [OF assms(6)]
  have small: "?rid < 2 ^ 63" using assms(6) by (auto simp: fetch_root_def result_simps)
  from inv assms(2) obtain leaves where
    leaves: "select_leaves env ?pool ?rid db = Ok leaves" "distinct leaves"
      "\<forall>d \<in> set leaves. digest32 d" and len: "length leaves = n"
    unfolding assms(7) by (rule select_leaves_total)
  obtain tree where tree: "MerkleCohort_build ?b leaves = Ok tree"
    using leaves(2) len assms(8,9) by (cases leaves) (simp_all add: build_Ok_iff MAX_LEAVES_def)
  obtain root where root: "MerkleCohort_root tree = Ok root"
    using merkle.root_total [OF tree] by blast
  have proofs: "\<forall>leaf \<in> set leaves. \<exists>p. MerkleCohort_proof tree leaf round_id = Ok p"
    using merkle.prove_complete [OF tree root] by blast
  have "\<forall>r \<in> set (db_cohort_proofs db). \<forall>leaf \<in> set leaves.
      \<not> proof_key ?pool ?rid (digest_bytes leaf) r"
    using inv none by (auto simp: store_inv_def proof_key_def)
  then have rows: "\<exists>db'. insert_proofs env tree pool round_id 0 leaves
      (db\<lparr>db_cohort_roots := rs\<rparr>) = (Ok (), db')" for rs
    using insert_proofs_total [OF assms(2) _ small leaves(2) proofs, of "db\<lparr>db_cohort_roots := rs\<rparr>"]
      assms(3,4) by simp
  have mini: "\<not> (of_nat n :: u32) < minimum"
    using assms(9,10) by (simp add: word_less_nat_alt unsigned_of_nat take_bit_nat_eq_self not_less)
  have "length (digest_bytes root) = 32"
    using root_digest32 [OF assms(5) leaves(3) tree root] by (simp add: digest32_def)
  moreover have "\<not> list_ex (\<lambda>b. root_key ?pool ?rid b) (db_cohort_roots db)"
    using none by (auto simp: list_ex_iff)
  ultimately have "\<exists>db'. seal_body ?b env pool round_id minimum db = (Ok (root, of_nat n), db')"
    using small leaves(1) len tree root mini assms(9)
      rows [of "db_cohort_roots db @ [\<lparr>ro_pool_id = ?pool, ro_round_id = ?rid,
        ro_root = digest_bytes root, ro_cohort_size = uint (of_nat n :: u32),
        ro_published_at = se_now env InsertRoot\<rparr>]"]
    by (auto simp: seal_body_def bind_cmd_def lift_def as_i64_def h insert_row_def event_def
        Let_def ensure_def)
  then show ?thesis using assms(6)
    by (auto simp: seal_cohort_eq transaction_healthy [OF assms(2)])
qed

text \<open>
  C26. Sealing works: with a working SQLite, a serialiser that accepts every proof and a
  32-byte hash, an unsealed round whose tickets reach the minimum and number at least one
  and at most 100000 is sealed, with the number of its tickets as the count.
\<close>

theorem seal_succeeds:
  assumes "reachable_db cr js db" "healthy env" "se_json env = js"
    and "\<forall>p. \<exists>text. js_proof_to_string js p = Some text" "\<forall>bs. length (cr_blake3 cr bs) = 32"
    and "fetch_root env pool round_id db = Ok None"
    and "n = length (filter (ticket_of (digest_bytes pool) (uint round_id)) (db_join_tickets db))"
    and "1 \<le> n" "n \<le> 100000" "unat minimum \<le> n"
  shows "\<exists>root db'. seal_cohort (cr_blake3 cr) env pool round_id minimum db
    = (Ok (root, of_nat n), db')"
  using assms by (rule seal_total)

section \<open>Well-typed rows\<close>

lemma fetch_root_absent:
  assumes "healthy env" "uint rid < 2 ^ 63"
    and "\<forall>r \<in> set (db_cohort_roots db). \<not> root_key (digest_bytes pool) (uint rid) r"
  shows "fetch_root env pool rid db = Ok None"
proof -
  have "query_row (root_key (digest_bytes pool) (uint rid)) (db_cohort_roots db) = None"
    using assms(3) query_row_None_iff by blast
  then show ?thesis using assms(2)
    by (simp add: fetch_root_def as_i64_def healthy_simps [OF assms(1)])
qed

text \<open>
  C33. The store is well typed: whatever operations and failures led to a database, its rows
  read back at the types the code expects. Without a failing statement, reading a root or a
  proof and collecting the leaves of a round never report a corrupt digest, a count out of
  range or an unreadable proof, and every leaf is a 32-byte digest; a proof is found only
  where a root is.
\<close>

theorem store_reads_well_typed:
  assumes "reachable_db cr js db" "json_ok js" "healthy env" "se_json env = js" "uint rid < 2 ^ 63"
  shows "\<exists>found prf leaves. fetch_root env pool rid db = Ok found \<and> fetch_proof env pool rid c db = Ok prf
    \<and> select_leaves env (digest_bytes pool) (uint rid) db = Ok leaves \<and> (\<forall>d \<in> set leaves. digest32 d)
    \<and> (prf \<noteq> None \<longrightarrow> found \<noteq> None)"
proof -
  note inv = reachable_inv [OF assms(1)]
  have no_fault: "se_fault env stmt = None" for stmt using assms(3) by (simp add: healthy_def)
  obtain leaves where leaves: "select_leaves env (digest_bytes pool) (uint rid) db = Ok leaves"
    "\<forall>d \<in> set leaves. digest32 d"
    using select_leaves_total [OF inv assms(3)] by metis
  have root: "(\<exists>x. fetch_root env pool rid db = Ok (Some x))"
    if r: "r \<in> set (db_cohort_roots db)" "root_key (digest_bytes pool) (uint rid) r" for r
    using fetch_root_Some [OF inv r assms(5) no_fault] by blast
  have found: "\<exists>found. fetch_root env pool rid db = Ok found"
    using root fetch_root_absent [OF assms(3,5)] by blast
  show ?thesis
  proof (cases "query_row (proof_key (digest_bytes pool) (uint rid) (digest_bytes c)) (db_cohort_proofs db)")
    case None
    then have "fetch_proof env pool rid c db = Ok None"
      using assms(5) by (simp add: fetch_proof_def as_i64_def healthy_simps [OF assms(3)])
    then show ?thesis using found leaves by blast
  next
    case (Some row)
    then have row: "row \<in> set (db_cohort_proofs db)"
      "proof_key (digest_bytes pool) (uint rid) (digest_bytes c) row"
      using query_row_SomeD by metis+
    then obtain r where r: "r \<in> set (db_cohort_roots db)" "root_key (digest_bytes pool) (uint rid) r"
      using inv unfolding store_inv_def proof_key_def by metis
    obtain d n where "sealed_cohort (cr_blake3 cr) js db (digest_bytes pool) (uint rid) d n"
      using store_inv_root [OF inv r(1)] r(2) unfolding root_key_def by metis
    from sealed_proof_row [OF this row assms(2)]
    obtain p where "js_proof_from_str js (pf_proof_json row) = Some p" by blast
    then have "fetch_proof env pool rid c db = Ok (Some p)"
      using Some assms(4,5) by (simp add: fetch_proof_def as_i64_def healthy_simps [OF assms(3)])
    then show ?thesis using root [OF r] leaves by blast
  qed
qed

section \<open>A concrete environment\<close>

text \<open>
  A text codec for proofs, standing in for \<open>serde_json\<close>: every field is a byte string,
  each byte is marked with a dot and each string is closed by a slash.
\<close>

fun put_lists :: "bytes list \<Rightarrow> string" where
  "put_lists [] = []"
| "put_lists (bs # bss) = concat (map (\<lambda>b. [CHR ''.'', char_of (unat b)]) bs) @ CHR ''/'' # put_lists bss"

fun get_lists :: "bytes \<Rightarrow> string \<Rightarrow> bytes list option" where
  "get_lists acc [] = (if acc = [] then Some [] else None)"
| "get_lists acc [x] = (if x = CHR ''/'' then Some [acc] else None)"
| "get_lists acc (x # y # cs) =
     (if x = CHR ''/'' then map_option (\<lambda>bss. acc # bss) (get_lists [] (y # cs))
      else get_lists (acc @ [of_nat (of_char y)]) cs)"

lemma byte_mod [simp]: "unat (b :: u8) mod 256 = unat b"
proof -
  have "unat b < 2 ^ LENGTH(8)" by (rule unsigned_less)
  then show ?thesis by simp
qed

lemma get_put_lists: "get_lists acc (put_lists (bs # bss)) = Some ((acc @ bs) # bss)"
proof (induction bss arbitrary: acc bs)
  case Nil
  show ?case by (induction bs arbitrary: acc) auto
next
  case (Cons cs bss)
  show ?case
  proof (induction bs arbitrary: acc)
    case Nil
    obtain x ys where put: "put_lists (cs # bss) = x # ys" by (cases cs) auto
    then have "get_lists [] (x # ys) = Some (cs # bss)" using Cons.IH [of "[]" cs] by simp
    then show ?case using put by simp
  next
    case (Cons b bs)
    then show ?case by simp
  qed
qed

definition proof_lists :: "CohortProof \<Rightarrow> bytes list" where
  "proof_lists p = digest_bytes (cp_leaf_hash p) # le_bytes 4 (unat (cp_leaf_index p))
     # digest_bytes (cp_merkle_root p) # le_bytes 8 (unat (cp_round_id p))
     # map digest_bytes (cp_sibling_hashes p)"

fun lists_proof :: "bytes list \<Rightarrow> CohortProof option" where
  "lists_proof (leaf # index # root # round # siblings) =
     Some \<lparr>cp_leaf_hash = Digest32 leaf, cp_leaf_index = of_nat (le_value index),
       cp_sibling_hashes = map Digest32 siblings, cp_merkle_root = Digest32 root,
       cp_round_id = of_nat (le_value round)\<rparr>"
| "lists_proof _ = None"

lemma le_value_word:
  assumes "LENGTH('a) = 8 * n"
  shows "(of_nat (le_value (le_bytes n (unat w))) :: 'a::len word) = w"
proof -
  have "unat w < 2 ^ LENGTH('a)" by (rule unsigned_less)
  then have "unat w < 256 ^ n" using assms by (simp add: power_mult)
  then show ?thesis by (simp add: le_value_le_bytes)
qed

lemma lists_proof_lists: "lists_proof (proof_lists p) = Some p"
  by (simp add: proof_lists_def le_value_word comp_def)

definition sample_json :: json where
  "sample_json = \<lparr>
     js_config_to_string = (\<lambda>_. Some ''config''),
     js_round_to_string = (\<lambda>_. Some ''round''),
     js_round_from_str = (\<lambda>_. None),
     js_ticket_to_string = (\<lambda>_. Some ''ticket''),
     js_proof_to_string = (\<lambda>p. Some (put_lists (proof_lists p))),
     js_proof_from_str = (\<lambda>s. Option.bind (get_lists [] s) lists_proof)\<rparr>"

lemma sample_json_ok: "json_ok sample_json"
proof -
  have "get_lists [] (put_lists (proof_lists p)) = Some (proof_lists p)" for p
    using get_put_lists [of "[]" "hd (proof_lists p)" "tl (proof_lists p)"]
    by (simp add: proof_lists_def del: put_lists.simps)
  then show ?thesis by (simp add: json_ok_def sample_json_def lists_proof_lists)
qed

definition sample_env :: env where
  "sample_env = \<lparr>se_json = sample_json, se_fault = (\<lambda>_. None), se_now = (\<lambda>_. ''now'')\<rparr>"

lemma sample_env_healthy: "healthy sample_env"
  by (simp add: healthy_def sample_env_def)

lemma sample_env_json: "se_json sample_env = sample_json"
  by (simp add: sample_env_def)

lemma sample_open: "memory_store sample_env = (Ok (), snd (memory_store sample_env))"
  by (simp add: prod_eq_iff memory_store_def migrate_healthy [OF sample_env_healthy]
      healthy_simps [OF sample_env_healthy])

definition sample_db :: "(env \<times> store_op) list \<Rightarrow> Db" where
  "sample_db calls = store_calls sample_crypto calls (snd (memory_store sample_env))"

lemma sample_db_reachable:
  assumes "\<forall>(env, op) \<in> set calls. se_json env = sample_json"
  shows "reachable_db sample_crypto sample_json (sample_db calls)"
proof -
  show ?thesis using assms sample_open unfolding reachable_db_def sample_db_def by blast
qed

lemma sample_db_snoc:
  "sample_db (calls @ [(env, op)]) = snd (store_call sample_crypto env op (sample_db calls))"
proof -
  have "store_calls cr (calls @ [(env, op)]) db = snd (store_call cr env op (store_calls cr calls db))"
    for cr :: "('sk, 'vk) crypto" and db
    by (induction cr calls db rule: store_calls.induct) simp_all
  then show ?thesis by (simp add: sample_db_def)
qed

definition sample_pool_id :: Digest32 where
  "sample_pool_id = Digest32 (replicate 32 1)"

definition ticket_digest :: "u8 \<Rightarrow> Digest32" where
  "ticket_digest k = Digest32_hash (cr_blake3 sample_crypto) (ascii ''join-ticket'')
     (replicate 32 k @ replicate 64 k)"

lemma sample_commitment: "JoinTicket_commitment sample_crypto (sample_ticket k) = Ok (ticket_digest k)"
  by (simp add: JoinTicket_commitment_def canonical_bytes_def sample_ticket_def ticket_digest_def
      sample_crypto_def)

lemma sample_blake3_length: "\<forall>bs. length (cr_blake3 sample_crypto bs) = 32"
  by (simp add: sample_crypto_def min_def)

lemma ticket_digest_length: "length (digest_bytes (ticket_digest k)) = 32"
  using sample_blake3_length by (simp add: ticket_digest_def Digest32_hash_def)

lemma ticket_digests_differ:
  "digest_bytes (ticket_digest 9) \<noteq> digest_bytes (ticket_digest 5)"
  "digest_bytes (ticket_digest 4) \<noteq> digest_bytes (ticket_digest 5)"
  "digest_bytes (ticket_digest 4) \<noteq> digest_bytes (ticket_digest 9)"
  by code_simp+

lemma sample_ticket_fields:
  "jt_pool_id (sample_ticket k) = sample_pool_id" "jt_round_id (sample_ticket k) = 7"
  "jt_coordination_public_key (sample_ticket k) = replicate 32 k"
  "js_ticket_to_string (se_json sample_env) (sample_ticket k) = Some ''ticket''"
  by (simp_all add: sample_ticket_def sample_pool_id_def sample_env_def sample_json_def)

definition sample_row :: "u8 \<Rightarrow> TicketRow" where
  "sample_row k = \<lparr>tr_pool_id = digest_bytes sample_pool_id, tr_round_id = 7,
     tr_commitment = digest_bytes (ticket_digest k), tr_coordination_key = replicate 32 k,
     tr_ticket_json = ''ticket'', tr_accepted_at = ''now''\<rparr>"

definition sample_event :: "u8 \<Rightarrow> EventRow" where
  "sample_event k = \<lparr>ev_pool_id = Some (digest_bytes sample_pool_id), ev_round_id = Some 7,
     ev_event_type = ''ticket_accepted'', ev_payload_hash = digest_bytes (ticket_digest k),
     ev_occurred_at = ''now''\<rparr>"

lemma sample_accept:
  assumes "\<forall>r \<in> set (db_join_tickets db). tr_commitment r \<noteq> digest_bytes (ticket_digest k)
    \<and> tr_coordination_key r \<noteq> replicate 32 k"
  shows "accept_ticket sample_crypto sample_env (sample_ticket k) db =
    (Ok (ticket_digest k), db\<lparr>db_join_tickets := db_join_tickets db @ [sample_row k],
       db_immutable_events := db_immutable_events db @ [sample_event k]\<rparr>)"
  using assms accept_outcome [OF sample_env_healthy sample_commitment ticket_digest_length
      sample_ticket_fields(4), of k db]
  by (auto simp: sample_ticket_fields sample_row_def sample_event_def sample_env_def)

definition accepted_calls :: "(env \<times> store_op) list" where
  "accepted_calls = [(sample_env, OpAcceptTicket (sample_ticket 9)),
     (sample_env, OpAcceptTicket (sample_ticket 5))]"

definition two_tickets :: Db where
  "two_tickets = sample_db accepted_calls"

lemma two_tickets_reachable: "reachable_db sample_crypto sample_json two_tickets"
  unfolding two_tickets_def
  by (rule sample_db_reachable) (simp add: accepted_calls_def sample_env_json)

lemma two_tickets_tables:
  "db_join_tickets two_tickets = [sample_row 9, sample_row 5]"
  "db_cohort_roots two_tickets = []" "db_release_schedules two_tickets = []"
proof -
  have "replicate 32 (9 :: u8) \<noteq> replicate 32 5" by simp
  then show "db_join_tickets two_tickets = [sample_row 9, sample_row 5]"
    "db_cohort_roots two_tickets = []" "db_release_schedules two_tickets = []"
    using memory_store_empty [OF sample_open] ticket_digests_differ
    by (simp_all add: two_tickets_def sample_db_def accepted_calls_def sample_accept sample_row_def)
qed

lemma two_tickets_facts:
  "fetch_root sample_env sample_pool_id 7 two_tickets = Ok None"
  "length (filter (ticket_of (digest_bytes sample_pool_id) (uint (7 :: u64)))
     (db_join_tickets two_tickets)) = 2"
  by (simp_all add: two_tickets_tables fetch_root_def as_i64_def
      healthy_simps [OF sample_env_healthy] query_row_def ticket_of_def sample_row_def)

lemma sample_proofs_total: "\<forall>p. \<exists>s. js_proof_to_string sample_json p = Some s"
  by (simp add: sample_json_def)

theorem seal_succeeds_witness:
  "\<exists>root db'. seal_cohort (cr_blake3 sample_crypto) sample_env sample_pool_id 7 2 two_tickets
     = (Ok (root, of_nat 2), db')"
  by (rule seal_succeeds [OF two_tickets_reachable sample_env_healthy sample_env_json
        sample_proofs_total sample_blake3_length two_tickets_facts(1)])
    (use two_tickets_facts(2) in simp_all)

theorem accept_ticket_outcome_witness:
  "accept_ticket sample_crypto sample_env (sample_ticket 5) two_tickets
     = (Err DuplicateTicket, two_tickets)"
  using accept_ticket_outcome [OF sample_env_healthy sample_commitment ticket_digest_length
      sample_ticket_fields(4), of 5 two_tickets]
  by (simp add: two_tickets_tables sample_row_def sample_ticket_fields)

text \<open>A disk that is full when the event of an accepted ticket is written.\<close>

definition full_disk :: env where
  "full_disk = sample_env\<lparr>se_fault :=
     (\<lambda>stmt. if stmt = InsertEvent then Some (SqliteFailure 13) else None)\<rparr>"

lemma full_disk_accept:
  "fst (accept_ticket sample_crypto full_disk (sample_ticket 4) two_tickets)
     = Err (Sqlite (SqliteFailure 13))"
  using ticket_digests_differ ticket_digest_length [of 4] sample_ticket_fields(4) [of 4]
  by (simp add: accept_ticket_def sample_commitment bind_cmd_def lift_def transaction_def
      run_stmt_def execute_def statement_def full_disk_def sample_ticket_fields as_i64_def
      insert_ticket_def insert_row_def ticket_clash_def two_tickets_tables sample_row_def event_def)

text \<open>The ticket was inserted before the event failed; it is gone afterwards.\<close>

theorem store_ops_atomic_witness:
  "\<exists>db'. store_call sample_crypto full_disk (OpAcceptTicket (sample_ticket 4)) two_tickets
      = (Err (Sqlite (SqliteFailure 13)), db') \<and> db' = two_tickets"
proof -
  obtain db' where
    "store_call sample_crypto full_disk (OpAcceptTicket (sample_ticket 4)) two_tickets
      = (Err (Sqlite (SqliteFailure 13)), db')"
    using full_disk_accept by (simp add: case_prod_beta)
  then show ?thesis using store_ops_atomic [of sample_crypto full_disk] by fastforce
qed

text \<open>The sample store after sealing.\<close>

definition sealed_db :: Db where
  "sealed_db = snd (seal_cohort (cr_blake3 sample_crypto) sample_env sample_pool_id 7 2 two_tickets)"

lemma sealed_db_reachable: "reachable_db sample_crypto sample_json sealed_db"
proof -
  have "sealed_db = sample_db (accepted_calls @ [(sample_env, OpSealCohort sample_pool_id 7 2)])"
    unfolding sample_db_snoc by (simp add: sealed_db_def two_tickets_def case_prod_beta)
  then show ?thesis
    using sample_db_reachable [of "accepted_calls @ [(sample_env, OpSealCohort sample_pool_id 7 2)]"]
    by (simp add: accepted_calls_def sample_env_json)
qed

lemma sealed_db_sealed:
  obtains root where "seal_cohort (cr_blake3 sample_crypto) sample_env sample_pool_id 7 2 two_tickets
     = (Ok (root, of_nat 2), sealed_db)"
proof -
  have "\<exists>root db'. seal_cohort (cr_blake3 sample_crypto) sample_env sample_pool_id 7 2 two_tickets
     = (Ok (root, of_nat 2), db')"
    by (rule seal_total [OF two_tickets_reachable sample_env_healthy sample_env_json
          sample_proofs_total sample_blake3_length two_tickets_facts(1)])
      (use two_tickets_facts(2) in simp_all)
  then show ?thesis using that by (auto simp: sealed_db_def)
qed

lemma sample_member:
  "sample_row 9 \<in> set (db_join_tickets two_tickets)"
  "ticket_of (digest_bytes sample_pool_id) (uint (7 :: u64)) (sample_row 9)"
  "Digest32 (tr_commitment (sample_row 9)) = ticket_digest 9"
  by (simp_all add: two_tickets_tables ticket_of_def sample_row_def)

lemma sample_no_faults: "se_fault sample_env stmt = None"
  by (simp add: sample_env_def)

theorem seal_covers_every_ticket_witness:
  "\<exists>root p. fetch_proof sample_env sample_pool_id 7 (ticket_digest 9) sealed_db = Ok (Some p)
    \<and> CohortProof_verify (cr_blake3 sample_crypto) p root 7 = Ok ()"
proof -
  obtain root where sealed: "seal_cohort (cr_blake3 sample_crypto) sample_env sample_pool_id 7 2
      two_tickets = (Ok (root, of_nat 2), sealed_db)"
    by (rule sealed_db_sealed)
  show ?thesis
    using seal_covers_every_ticket [OF two_tickets_reachable sample_json_ok sample_env_json
        two_tickets_facts(1) sealed sample_member(1,2), of "[]" sample_env] sample_member(3)
      sample_env_json sample_no_faults
    by auto
qed

lemma sealed_db_proof:
  obtains p where "fetch_proof sample_env sample_pool_id 7 (ticket_digest 9) sealed_db = Ok (Some p)"
proof -
  obtain root where sealed: "seal_cohort (cr_blake3 sample_crypto) sample_env sample_pool_id 7 2
      two_tickets = (Ok (root, of_nat 2), sealed_db)"
    by (rule sealed_db_sealed)
  show ?thesis
    using seal_covers [OF two_tickets_reachable sample_json_ok sample_env_json
        two_tickets_facts(1) sealed sample_member(1,2) sample_env_json sample_no_faults
        extends_refl] sample_member(3) that
    by auto
qed

theorem stored_proofs_verify_witness:
  "\<exists>p root n. cp_leaf_hash p = ticket_digest 9
    \<and> fetch_root sample_env sample_pool_id 7 sealed_db = Ok (Some (root, n))
    \<and> CohortProof_verify (cr_blake3 sample_crypto) p root 7 = Ok ()"
proof -
  obtain p where "fetch_proof sample_env sample_pool_id 7 (ticket_digest 9) sealed_db = Ok (Some p)"
    by (rule sealed_db_proof)
  from stored_proofs_verify [OF sealed_db_reachable sample_json_ok sample_env_json this
      sample_no_faults] show ?thesis by blast
qed

lemma sealed_db_root:
  obtains rn where "fetch_root sample_env sample_pool_id 7 sealed_db = Ok (Some rn)"
proof -
  obtain p where "fetch_proof sample_env sample_pool_id 7 (ticket_digest 9) sealed_db = Ok (Some p)"
    by (rule sealed_db_proof)
  then obtain row where "row \<in> set (db_cohort_proofs sealed_db)"
    "proof_key (digest_bytes sample_pool_id) (uint (7 :: u64)) (digest_bytes (ticket_digest 9)) row"
    by (rule fetch_proof_SomeD)
  then obtain r where "r \<in> set (db_cohort_roots sealed_db)"
    "root_key (digest_bytes sample_pool_id) (uint (7 :: u64)) r"
    using reachable_inv [OF sealed_db_reachable] by (auto simp: store_inv_def proof_key_def)
  with reachable_inv [OF sealed_db_reachable] show ?thesis
    by (rule fetch_root_Some [OF _ _ _ _ sample_no_faults]) (simp, rule that)
qed

theorem sealed_root_immutable_witness:
  "\<exists>rn. seal_cohort (cr_blake3 sample_crypto) sample_env sample_pool_id 7 5
      (store_calls sample_crypto [(sample_env, OpAcceptTicket (sample_ticket 4))] sealed_db)
    = (Ok rn, store_calls sample_crypto [(sample_env, OpAcceptTicket (sample_ticket 4))] sealed_db)"
proof -
  obtain rn where root: "fetch_root sample_env sample_pool_id 7 sealed_db = Ok (Some rn)"
    by (rule sealed_db_root)
  have "\<forall>(env, op) \<in> set [(sample_env, OpAcceptTicket (sample_ticket 4))]. se_json env = sample_json"
    by (simp add: sample_env_json)
  from sealed_root_immutable [OF sealed_db_reachable this root] show ?thesis by blast
qed

lemma sealed_db_tickets: "db_join_tickets sealed_db = [sample_row 9, sample_row 5]"
proof -
  obtain root where sealed: "seal_cohort (cr_blake3 sample_crypto) sample_env sample_pool_id 7 2
      two_tickets = (Ok (root, of_nat 2), sealed_db)"
    by (rule sealed_db_sealed)
  have "unique_rows same_proof_key (db_cohort_proofs two_tickets)"
    using reachable_inv [OF two_tickets_reachable] by (simp add: store_inv_def)
  from sealed two_tickets_facts(1) this show ?thesis
  proof (rule seal_writes)
    fix row new e
    assume db: "sealed_db = two_tickets\<lparr>db_cohort_roots := db_cohort_roots two_tickets @ [row],
      db_cohort_proofs := db_cohort_proofs two_tickets @ new,
      db_immutable_events := db_immutable_events two_tickets @ [e]\<rparr>"
    show ?thesis unfolding db by (simp add: two_tickets_tables)
  qed
qed

theorem late_ticket_never_proved_witness:
  "\<exists>db'. accept_ticket sample_crypto sample_env (sample_ticket 4) sealed_db
      = (Ok (ticket_digest 4), db')
    \<and> fetch_proof sample_env sample_pool_id 7 (ticket_digest 4)
        (store_calls sample_crypto [(sample_env, OpSealCohort sample_pool_id 7 2)] db') = Ok None"
proof -
  obtain rn where root: "fetch_root sample_env (jt_pool_id (sample_ticket 4))
      (jt_round_id (sample_ticket 4)) sealed_db = Ok (Some rn)"
    unfolding sample_ticket_fields by (rule sealed_db_root)
  have "replicate 32 (9 :: u8) \<noteq> replicate 32 4" "replicate 32 (5 :: u8) \<noteq> replicate 32 4"
    by simp_all
  then obtain db' where late: "accept_ticket sample_crypto sample_env (sample_ticket 4) sealed_db
      = (Ok (ticket_digest 4), db')"
    using sample_accept [of sealed_db 4] sealed_db_tickets ticket_digests_differ(2,3)
    by (auto simp: sample_row_def)
  have "\<forall>(env, op) \<in> set [(sample_env, OpSealCohort sample_pool_id 7 2)]. se_json env = sample_json"
    by (simp add: sample_env_json)
  from late_ticket_never_proved [OF sealed_db_reachable sample_json_ok sample_env_json root late this
      sample_no_faults] late show ?thesis unfolding sample_ticket_fields by blast
qed

theorem schedule_release_once_witness:
  "\<exists>db'. schedule_release sample_env sample_pool_id 7 40 50 two_tickets = (Ok (), db')
    \<and> schedule_release sample_env sample_pool_id 7 41 50 db' = (Err ConflictingSchedule, db')"
proof -
  obtain db' where first: "schedule_release sample_env sample_pool_id 7 40 50 two_tickets = (Ok (), db')"
    by (simp add: schedule_release_def select_schedule_def bind_cmd_def lift_def as_i64_def two_tickets_tables
        healthy_simps [OF sample_env_healthy] query_row_def insert_row_def)
  have "\<forall>(env, op) \<in> set []. se_json env = sample_json" by simp
  from schedule_release_once [OF two_tickets_reachable first sample_env_json this sample_no_faults
      refl, of 41 50] show ?thesis using first by simp
qed

theorem store_reads_well_typed_witness:
  "\<exists>found prf. fetch_root sample_env sample_pool_id 7 sealed_db = Ok found
     \<and> fetch_proof sample_env sample_pool_id 7 (ticket_digest 9) sealed_db = Ok prf"
  using store_reads_well_typed [OF sealed_db_reachable sample_json_ok sample_env_healthy sample_env_json,
      of 7 sample_pool_id "ticket_digest 9"] by auto

end
