(* ===== verification/MP_Coordinator.thy ===== *)
theory MP_Coordinator
  imports MP_Store_Laws
begin

text \<open>
  The coordinator (\<open>src/crates/mirror-pool-coordinator/src/lib.rs\<close>): rate limiting, ticket
  admission, sealing and proofs over the store, the HTTP handlers and the status codes.

  The service runs handlers concurrently, with the store and the rate counter each behind a
  mutex. \<open>submit_ticket\<close> takes the rate lock once, in \<open>check_rate\<close>, and then the store
  lock once, around the count and the insertion; these are its two atomic steps, and a
  history is an arbitrary interleaving of such steps of any number of requests. Clock
  readings, the slot source, JSON and hex decoding and the network are arguments.
\<close>

section \<open>State and operations\<close>

record CoordinatorConfig =
  cc_binding :: TicketBinding
  cc_listen :: string
  cc_minimum_participants :: u32
  cc_maximum_participants :: u32
  cc_requests_per_minute :: u32
  cc_max_body_bytes :: nat

text \<open>Instants are nanoseconds since an arbitrary origin.\<close>

record RateState =
  rs_window_started :: nat
  rs_accepted :: u32

datatype CoordinatorError =
    InvalidTicket
  | InvalidCommitment
  | RateLimited
  | CohortFull
  | ProofNotFound
  | RpcClock
  | Store StoreError
  | Io nat

record Coordinator =
  co_config :: CoordinatorConfig
  co_store :: Db
  co_rate :: RateState

type_synonym 'a coordinator_result = "('a, CoordinatorError) result"

definition Coordinator_new :: "CoordinatorConfig \<Rightarrow> Db \<Rightarrow> nat \<Rightarrow> Coordinator" where
  "Coordinator_new config store now =
     \<lparr>co_config = config, co_store = store,
      co_rate = \<lparr>rs_window_started = now, rs_accepted = 0\<rparr>\<rparr>"

definition WINDOW :: nat where
  "WINDOW = 60 * 10 ^ 9"

text \<open>
  \<open>now\<close> is read by \<open>elapsed()\<close>, \<open>restart\<close> by the \<open>Instant::now()\<close> of the reset.
\<close>

definition check_rate ::
  "CoordinatorConfig \<Rightarrow> nat \<Rightarrow> nat \<Rightarrow> RateState \<Rightarrow> unit coordinator_result \<times> RateState" where
  "check_rate config now restart rate =
    (let rate = if now - rs_window_started rate \<ge> WINDOW
                then \<lparr>rs_window_started = restart, rs_accepted = 0\<rparr> else rate
     in if rs_accepted rate \<ge> cc_requests_per_minute config then (Err RateLimited, rate)
        else (Ok (), rate\<lparr>rs_accepted := saturating_add (rs_accepted rate) 1\<rparr>))"

text \<open>The part of \<open>submit_ticket\<close> under the store lock.\<close>

definition admit ::
  "('sk, 'vk) crypto \<Rightarrow> CoordinatorConfig \<Rightarrow> env \<Rightarrow> JoinTicket \<Rightarrow> Db
     \<Rightarrow> Digest32 coordinator_result \<times> Db" where
  "admit cr config env ticket store =
    (case map_err Store (ticket_count env (tb_pool_id (cc_binding config))
                           (tb_round_id (cc_binding config)) store) of
       Err e \<Rightarrow> (Err e, store)
     | Panic \<Rightarrow> (Panic, store)
     | Ok n \<Rightarrow>
         if n \<ge> cc_maximum_participants config then (Err CohortFull, store)
         else (case accept_ticket cr env ticket store of (m, store') \<Rightarrow> (map_err Store m, store')))"

definition submit_ticket ::
  "('sk, 'vk) crypto \<Rightarrow> env \<Rightarrow> nat \<Rightarrow> nat \<Rightarrow> JoinTicket \<Rightarrow> u64 \<Rightarrow> Coordinator
     \<Rightarrow> Digest32 coordinator_result \<times> Coordinator" where
  "submit_ticket cr env now restart ticket current_slot self =
    (case check_rate (co_config self) now restart (co_rate self) of
       (m, rate) \<Rightarrow>
         let self = self\<lparr>co_rate := rate\<rparr> in
         case and_then m (\<lambda>_. map_err (\<lambda>_. CoordinatorError.InvalidTicket)
                (JoinTicket_verify cr ticket current_slot (cc_binding (co_config self)))) of
           Err e \<Rightarrow> (Err e, self)
         | Panic \<Rightarrow> (Panic, self)
         | Ok _ \<Rightarrow>
             (case admit cr (co_config self) env ticket (co_store self) of
                (m, store) \<Rightarrow> (m, self\<lparr>co_store := store\<rparr>)))"

definition seal_round ::
  "('sk, 'vk) crypto \<Rightarrow> env \<Rightarrow> Coordinator \<Rightarrow> (Digest32 \<times> u32) coordinator_result \<times> Coordinator" where
  "seal_round cr env self =
    (case seal_cohort (cr_blake3 cr) env (tb_pool_id (cc_binding (co_config self)))
            (tb_round_id (cc_binding (co_config self)))
            (cc_minimum_participants (co_config self)) (co_store self) of
       (m, store) \<Rightarrow> (map_err Store m, self\<lparr>co_store := store\<rparr>))"

definition proof_of ::
  "env \<Rightarrow> Digest32 \<Rightarrow> Coordinator \<Rightarrow> CohortProof option coordinator_result" where
  "proof_of env commitment self =
     map_err Store (fetch_proof env (tb_pool_id (cc_binding (co_config self)))
       (tb_round_id (cc_binding (co_config self))) commitment (co_store self))"

section \<open>HTTP handlers\<close>

text \<open>
  \<open>POST /v1/tickets\<close>: the slot comes from the trusted source, never from the request.
\<close>

definition http_submit ::
  "('sk, 'vk) crypto \<Rightarrow> env \<Rightarrow> u64 coordinator_result \<Rightarrow> nat \<Rightarrow> nat \<Rightarrow> JoinTicket \<Rightarrow> Coordinator
     \<Rightarrow> Digest32 coordinator_result \<times> Coordinator" where
  "http_submit cr env slot_source now restart ticket self =
    (case slot_source of
       Err e \<Rightarrow> (Err e, self)
     | Panic \<Rightarrow> (Panic, self)
     | Ok current_slot \<Rightarrow> submit_ticket cr env now restart ticket current_slot self)"

text \<open>The RPC client's answer, with every failure reported as an unavailable clock.\<close>

definition rpc_current_slot :: "u64 option \<Rightarrow> u64 coordinator_result" where
  "rpc_current_slot get_slot = ok_or get_slot RpcClock"

text \<open>\<open>POST /v1/cohort/seal\<close>; \<open>show_u32\<close> is the decimal \<open>to_string\<close>.\<close>

definition http_seal ::
  "('sk, 'vk) crypto \<Rightarrow> (u32 \<Rightarrow> string) \<Rightarrow> env \<Rightarrow> Coordinator
     \<Rightarrow> (string \<times> string) list coordinator_result \<times> Coordinator" where
  "http_seal cr show_u32 env self =
    (case seal_round cr env self of
       (m, self) \<Rightarrow>
         (and_then m (\<lambda>(root, n).
            Ok [(''count'', show_u32 n), (''root'', to_hex (cr_hex_encode cr) root)]), self))"

text \<open>\<open>GET /v1/proofs/{commitment}\<close>\<close>

definition http_proof ::
  "(string \<Rightarrow> bytes option) \<Rightarrow> env \<Rightarrow> string \<Rightarrow> Coordinator \<Rightarrow> CohortProof coordinator_result" where
  "http_proof hex_decode env hex_value self =
    and_then (ok_or (hex_decode hex_value) InvalidCommitment) (\<lambda>bs.
    and_then (ensure (length bs = 32) InvalidCommitment) (\<lambda>_.
    and_then (proof_of env (Digest32 bs) self) (\<lambda>found.
    ok_or found ProofNotFound)))"

fun status_code :: "CoordinatorError \<Rightarrow> nat" where
  "status_code CoordinatorError.InvalidTicket = 400"
| "status_code InvalidCommitment = 400"
| "status_code RateLimited = 429"
| "status_code CohortFull = 409"
| "status_code ProofNotFound = 404"
| "status_code (Store e) = (if e \<in> {DuplicateTicket, ConflictingSchedule} then 409 else 500)"
| "status_code RpcClock = 503"
| "status_code (Io _) = 500"

section \<open>Bounded admission\<close>

text \<open>
  What the coordinator relies on in a store: an exact count, insertions that add at most one
  entry, and failures that change nothing.
\<close>

locale admission_store =
  fixes entries :: "'s \<Rightarrow> nat"
    and tally :: "'e \<Rightarrow> 's \<Rightarrow> (u32, 'x) result"
    and insert :: "'e \<Rightarrow> 't \<Rightarrow> 's \<Rightarrow> ('c, 'x) result \<times> 's"
  assumes tally_exact: "tally e s = Ok n \<Longrightarrow> unat n = entries s"
    and insert_adds: "insert e t s = (Ok c, s') \<Longrightarrow> entries s' \<le> entries s + 1"
    and insert_fails: "insert e t s = (m, s') \<Longrightarrow> \<not> is_ok m \<Longrightarrow> s' = s"
begin

lemma guarded_insert:
  assumes "tally e s = Ok n" "n < limit" "insert e t s = (m, s')" "entries s \<le> unat limit"
  shows "entries s' \<le> unat limit"
proof (cases "is_ok m")
  case True
  then obtain c where "insert e t s = (Ok c, s')" using assms(3) by (auto simp: is_ok_iff)
  then have "entries s' \<le> entries s + 1" by (rule insert_adds)
  moreover have "entries s < unat limit"
    using tally_exact [OF assms(1)] assms(2) by (simp add: word_less_nat_alt)
  ultimately show ?thesis by simp
next
  case False
  then show ?thesis using insert_fails assms(3,4) by blast
qed

end

definition cohort_entries :: "CoordinatorConfig \<Rightarrow> Db \<Rightarrow> nat" where
  "cohort_entries config db =
     length (filter (ticket_of (digest_bytes (tb_pool_id (cc_binding config)))
       (uint (tb_round_id (cc_binding config)))) (db_join_tickets db))"

interpretation sqlite_store: admission_store "cohort_entries config"
  "\<lambda>env. ticket_count env (tb_pool_id (cc_binding config)) (tb_round_id (cc_binding config))"
  "accept_ticket cr"
  for config :: CoordinatorConfig and cr :: "('sk, 'vk) crypto"
proof unfold_locales
  fix env s n
  assume "ticket_count env (tb_pool_id (cc_binding config)) (tb_round_id (cc_binding config)) s = Ok n"
  then show "unat n = cohort_entries config s"
    by (auto simp: ticket_count_def cohort_entries_def result_simps Let_def unsigned_of_nat
        take_bit_nat_eq_self split: if_splits)
next
  fix env ticket s c s'
  assume "accept_ticket cr env ticket s = (Ok c, s')"
  then show "cohort_entries config s' \<le> cohort_entries config s + 1"
    by (rule accept_ticket_writes) (simp add: cohort_entries_def)
next
  fix env ticket s m s'
  assume "accept_ticket cr env ticket s = (m, s')" "\<not> is_ok m"
  then show "s' = s" using accept_ticket_atomic [of cr env ticket]
    unfolding atomic_op_def by (metis fst_conv snd_conv)
qed

lemma admit_cases:
  assumes "admit cr config env ticket db = (m, db')"
  obtains "db' = db" "\<not> is_ok m"
    | n where "ticket_count env (tb_pool_id (cc_binding config)) (tb_round_id (cc_binding config)) db
          = Ok n" "n < cc_maximum_participants config"
        "db' = snd (accept_ticket cr env ticket db)"
        "m = map_err Store (fst (accept_ticket cr env ticket db))"
proof (cases "ticket_count env (tb_pool_id (cc_binding config)) (tb_round_id (cc_binding config)) db")
  case (Ok n)
  show ?thesis
  proof (cases "n < cc_maximum_participants config")
    case True
    then show ?thesis using assms Ok that(2) [of n]
      by (auto simp: admit_def not_le [symmetric] split: prod.splits)
  next
    case False
    then show ?thesis using assms Ok that(1) by (auto simp: admit_def not_less)
  qed
next
  case (Err e)
  then show ?thesis using assms that(1) by (auto simp: admit_def)
next
  case Panic
  then show ?thesis using assms that(1) by (auto simp: admit_def)
qed

lemma admit_bounded:
  assumes "admit cr config env ticket db = (m, db')"
    and "cohort_entries config db \<le> unat (cc_maximum_participants config)"
  shows "cohort_entries config db' \<le> unat (cc_maximum_participants config)"
  using assms(1)
proof (cases rule: admit_cases)
  case 1
  then show ?thesis using assms(2) by simp
next
  case (2 n)
  have "accept_ticket cr env ticket db = (fst (accept_ticket cr env ticket db), db')"
    using 2(3) by simp
  then show ?thesis by (rule sqlite_store.guarded_insert [OF 2(1,2) _ assms(2)])
qed

section \<open>Interleavings\<close>

text \<open>
  The atomic steps of the service. An admission is reached only with a ticket that was
  verified at the slot read for its request.
\<close>

datatype coord_step =
    RateStep nat nat
  | AdmitStep env JoinTicket u64
  | SealStep env

fun run_step :: "('sk, 'vk) crypto \<Rightarrow> coord_step \<Rightarrow> Coordinator \<Rightarrow> Coordinator" where
  "run_step cr (RateStep now restart) co =
     co\<lparr>co_rate := snd (check_rate (co_config co) now restart (co_rate co))\<rparr>"
| "run_step cr (AdmitStep env ticket slot) co =
     (if JoinTicket_verify cr ticket slot (cc_binding (co_config co)) = Ok ()
      then co\<lparr>co_store := snd (admit cr (co_config co) env ticket (co_store co))\<rparr> else co)"
| "run_step cr (SealStep env) co = snd (seal_round cr env co)"

fun step_json :: "json \<Rightarrow> coord_step \<Rightarrow> bool" where
  "step_json js (RateStep _ _) = True"
| "step_json js (AdmitStep env _ _) = (se_json env = js)"
| "step_json js (SealStep env) = (se_json env = js)"

definition run_steps :: "('sk, 'vk) crypto \<Rightarrow> coord_step list \<Rightarrow> Coordinator \<Rightarrow> Coordinator" where
  "run_steps cr = fold (run_step cr)"

text \<open>A request is a rate step followed, possibly, by an admission.\<close>

lemma submit_ticket_steps:
  "\<exists>steps. snd (submit_ticket cr env now restart ticket slot co) = run_steps cr steps co
     \<and> set steps \<subseteq> {RateStep now restart, AdmitStep env ticket slot}"
proof -
  let ?co = "co\<lparr>co_rate := snd (check_rate (co_config co) now restart (co_rate co))\<rparr>"
  have "snd (submit_ticket cr env now restart ticket slot co) = ?co
    \<or> snd (submit_ticket cr env now restart ticket slot co) = run_step cr (AdmitStep env ticket slot) ?co"
    by (auto simp: submit_ticket_def Let_def map_err_Ok_iff and_then_Ok_iff
        split: prod.splits result.splits)
  then show ?thesis
  proof
    assume "snd (submit_ticket cr env now restart ticket slot co) = ?co"
    then show ?thesis by (intro exI [of _ "[RateStep now restart]"]) (simp add: run_steps_def)
  next
    assume "snd (submit_ticket cr env now restart ticket slot co)
      = run_step cr (AdmitStep env ticket slot) ?co"
    then show ?thesis
      by (intro exI [of _ "[RateStep now restart, AdmitStep env ticket slot]"])
        (simp add: run_steps_def)
  qed
qed

text \<open>Every row of the ticket table comes from a verified ticket of the configured round.\<close>

definition admitted :: "('sk, 'vk) crypto \<Rightarrow> CoordinatorConfig \<Rightarrow> TicketRow \<Rightarrow> bool" where
  "admitted cr config row \<longleftrightarrow>
    (\<exists>ticket slot. JoinTicket_verify cr ticket slot (cc_binding config) = Ok ()
       \<and> JoinTicket_commitment cr ticket = Ok (Digest32 (tr_commitment row))
       \<and> tr_coordination_key row = jt_coordination_public_key ticket
       \<and> tr_pool_id row = digest_bytes (tb_pool_id (cc_binding config))
       \<and> tr_round_id row = uint (tb_round_id (cc_binding config)))"

lemma store_calls_append:
  "store_calls cr (xs @ ys) db = store_calls cr ys (store_calls cr xs db)"
  by (induction cr xs db rule: store_calls.induct) simp_all

lemma reachable_call:
  assumes "reachable_db cr js db" "se_json env = js"
  shows "reachable_db cr js (snd (store_call cr env op db))"
proof -
  from assms(1) obtain env0 db0 calls where db0: "memory_store env0 = (Ok (), db0)"
    "\<forall>(env, op) \<in> set calls. se_json env = js" "db = store_calls cr calls db0"
    unfolding reachable_db_def by blast
  then show ?thesis unfolding reachable_db_def
    by (intro exI [of _ env0] exI [of _ db0] exI [of _ "calls @ [(env, op)]"])
      (use assms(2) in \<open>simp add: store_calls_append\<close>)
qed

definition coord_inv :: "('sk, 'vk) crypto \<Rightarrow> json \<Rightarrow> CoordinatorConfig \<Rightarrow> Coordinator \<Rightarrow> bool" where
  "coord_inv cr js config co \<longleftrightarrow> co_config co = config
     \<and> reachable_db cr js (co_store co)
     \<and> cohort_entries config (co_store co) \<le> unat (cc_maximum_participants config)
     \<and> (\<forall>row \<in> set (db_join_tickets (co_store co)). admitted cr config row)"

lemma admit_inv:
  assumes "coord_inv cr js config co" "se_json env = js"
    and "JoinTicket_verify cr ticket slot (cc_binding config) = Ok ()"
  shows "coord_inv cr js config (co\<lparr>co_store := snd (admit cr config env ticket (co_store co))\<rparr>)"
proof -
  let ?db = "co_store co"
  obtain m db' where ad: "admit cr config env ticket ?db = (m, db')" by (cases "admit cr config env ticket ?db")
  then show ?thesis
  proof (cases rule: admit_cases)
    case 1
    then show ?thesis using assms(1) ad by (simp add: coord_inv_def)
  next
    case (2 n)
    have bounded: "cohort_entries config db' \<le> unat (cc_maximum_participants config)"
      using admit_bounded [OF ad] assms(1) by (simp add: coord_inv_def)
    have "reachable_db cr js (snd (store_call cr env (OpAcceptTicket ticket) ?db))"
      using assms(1,2) by (intro reachable_call) (simp_all add: coord_inv_def)
    then have reach: "reachable_db cr js db'" using 2(3) by (simp add: case_prod_beta)
    have "admitted cr config row" if "row \<in> set (db_join_tickets db')" for row
    proof (cases "row \<in> set (db_join_tickets ?db)")
      case True
      then show ?thesis using assms(1) by (simp add: coord_inv_def)
    next
      case False
      obtain r where acc: "accept_ticket cr env ticket ?db = (r, db')"
        using 2(3) by (cases "accept_ticket cr env ticket ?db") simp
      have "is_ok r"
        using False that sqlite_store.insert_fails [OF acc] by blast
      then obtain c where "accept_ticket cr env ticket ?db = (Ok c, db')"
        using acc by (auto simp: is_ok_iff)
      then show ?thesis
      proof (rule accept_ticket_writes)
        fix new e
        assume new: "JoinTicket_commitment cr ticket = Ok c"
          "tr_pool_id new = digest_bytes (jt_pool_id ticket)"
          "tr_round_id new = uint (jt_round_id ticket)" "tr_commitment new = digest_bytes c"
          "tr_coordination_key new = jt_coordination_public_key ticket"
          and db': "db' = ?db\<lparr>db_join_tickets := db_join_tickets ?db @ [new],
             db_immutable_events := db_immutable_events ?db @ [e]\<rparr>"
        have "row = new" using False that by (simp add: db')
        then show ?thesis unfolding admitted_def using new assms(3)
          by (intro exI [of _ ticket] exI [of _ slot]) (simp add: verify_ticket_Ok_iff)
      qed
    qed
    then show ?thesis using bounded reach assms(1) ad by (simp add: coord_inv_def)
  qed
qed

lemma seal_tickets:
  assumes "store_inv blake3 (se_json env) db"
  shows "db_join_tickets (snd (seal_cohort blake3 env pool round_id minimum db)) = db_join_tickets db"
proof (cases "snd (seal_cohort blake3 env pool round_id minimum db) = db")
  case True
  then show ?thesis by simp
next
  case False
  obtain m db' where seal: "seal_cohort blake3 env pool round_id minimum db = (m, db')"
    by (cases "seal_cohort blake3 env pool round_id minimum db")
  have ok: "is_ok m" using seal_cohort_atomic [of blake3 env pool round_id minimum] seal False
    unfolding atomic_op_def by (metis fst_conv snd_conv)
  then obtain root n where rn: "seal_cohort blake3 env pool round_id minimum db = (Ok (root, n), db')"
    using seal by (auto simp: is_ok_iff)
  have none: "fetch_root env pool round_id db = Ok None"
    using rn False by (auto simp: seal_cohort_eq split: result.splits option.splits)
  have "unique_rows same_proof_key (db_cohort_proofs db)" using assms by (simp add: store_inv_def)
  from rn none this show ?thesis
  proof (rule seal_writes)
    fix row new e
    assume db': "db' = db\<lparr>db_cohort_roots := db_cohort_roots db @ [row],
      db_cohort_proofs := db_cohort_proofs db @ new,
      db_immutable_events := db_immutable_events db @ [e]\<rparr>"
    show ?thesis by (simp add: rn db')
  qed
qed

lemma run_step_inv:
  assumes "coord_inv cr js config co" "step_json js step"
  shows "coord_inv cr js config (run_step cr step co)"
proof (cases step)
  case (RateStep now restart)
  then show ?thesis using assms(1) by (simp add: coord_inv_def)
next
  case (AdmitStep env ticket slot)
  then show ?thesis using assms admit_inv [OF assms(1), of env ticket slot]
    by (auto simp: coord_inv_def)
next
  case (SealStep env)
  let ?b = "cc_binding config"
  let ?m = "cc_minimum_participants config"
  have co: "co_config co = config" "reachable_db cr js (co_store co)"
    using assms(1) by (simp_all add: coord_inv_def)
  let ?db = "snd (seal_cohort (cr_blake3 cr) env (tb_pool_id ?b) (tb_round_id ?b) ?m (co_store co))"
  have "reachable_db cr js (snd (store_call cr env
      (OpSealCohort (tb_pool_id ?b) (tb_round_id ?b) ?m) (co_store co)))"
    using assms(2) SealStep co(2) by (intro reachable_call) simp_all
  then have "reachable_db cr js ?db" by (simp add: case_prod_beta)
  moreover have "db_join_tickets ?db = db_join_tickets (co_store co)"
    using seal_tickets reachable_inv [OF co(2)] assms(2) SealStep by simp
  ultimately show ?thesis using assms(1) co SealStep
    by (simp add: coord_inv_def seal_round_def case_prod_beta cohort_entries_def)
qed

lemma run_steps_inv:
  assumes "coord_inv cr js config co" "\<forall>step \<in> set steps. step_json js step"
  shows "coord_inv cr js config (run_steps cr steps co)"
  using assms
proof (induction steps arbitrary: co)
  case Nil
  then show ?case by (simp add: run_steps_def)
next
  case (Cons step steps)
  then have "coord_inv cr js config (run_step cr step co)" by (intro run_step_inv) simp_all
  then show ?case using Cons.IH Cons.prems(2) by (simp add: run_steps_def)
qed

lemma coordinator_new_inv:
  assumes "memory_store env0 = (Ok (), db0)"
  shows "coord_inv cr js config (Coordinator_new config db0 now)"
proof -
  have "db_join_tickets db0 = []" using memory_store_empty [OF assms] by simp
  moreover have "reachable_db cr js db0" unfolding reachable_db_def
    by (intro exI [of _ env0] exI [of _ db0] exI [of _ "[]"]) (simp add: assms)
  ultimately show ?thesis by (simp add: coord_inv_def Coordinator_new_def cohort_entries_def)
qed

text \<open>
  However the atomic steps of concurrent requests interleave, and wherever SQLite
  fails: the number of tickets of the configured round never exceeds the configured
  maximum, and every stored ticket belongs to that pool and round and was verified, with
  the expected template and before its expiry, when it was admitted.
\<close>

theorem admissions_bounded_and_verified:
  assumes "memory_store env0 = (Ok (), db0)" "\<forall>step \<in> set steps. step_json js step"
    and "co = run_steps cr steps (Coordinator_new config db0 now)"
  shows "cohort_entries config (co_store co) \<le> unat (cc_maximum_participants config)
    \<and> (\<forall>row \<in> set (db_join_tickets (co_store co)). \<exists>ticket slot.
         JoinTicket_verify cr ticket slot (cc_binding config) = Ok ()
       \<and> JoinTicket_commitment cr ticket = Ok (Digest32 (tr_commitment row))
       \<and> tr_coordination_key row = jt_coordination_public_key ticket
       \<and> tr_pool_id row = digest_bytes (tb_pool_id (cc_binding config))
       \<and> tr_round_id row = uint (tb_round_id (cc_binding config)))"
  using run_steps_inv [OF coordinator_new_inv [OF assms(1)] assms(2), of cr config now] assms(3)
  by (simp add: coord_inv_def admitted_def)

section \<open>Rate limiting\<close>

lemma check_rate_accepted:
  assumes "rs_accepted rate \<le> cc_requests_per_minute config"
    and "check_rate config now restart rate = (m, rate')"
  shows "rs_accepted rate' \<le> cc_requests_per_minute config"
proof -
  have bump: "saturating_add a 1 \<le> b" if "a < b" for a b :: u32
    using checked_add_one_below(2) [OF that] saturating_add_one_below [OF that] by simp
  then show ?thesis using assms by (auto simp: check_rate_def Let_def not_le split: if_splits)
qed

text \<open>A sequence of calls, each with its clock readings, and the number that pass.\<close>

fun rate_run :: "CoordinatorConfig \<Rightarrow> (nat \<times> nat) list \<Rightarrow> RateState \<Rightarrow> nat \<times> RateState" where
  "rate_run config [] rate = (0, rate)"
| "rate_run config ((now, restart) # calls) rate =
     (case check_rate config now restart rate of
        (m, rate) \<Rightarrow> case rate_run config calls rate of
          (n, rate) \<Rightarrow> ((if is_ok m then 1 else 0) + n, rate))"

text \<open>Calls before the window is over share the allowance that is left.\<close>

lemma rate_run_same_window:
  assumes "\<forall>(now, restart) \<in> set calls. now - rs_window_started rate < WINDOW"
    and "rs_accepted rate \<le> cc_requests_per_minute config"
  shows "fst (rate_run config calls rate) + unat (rs_accepted rate)
    \<le> unat (cc_requests_per_minute config)"
  using assms
proof (induction calls arbitrary: rate)
  case Nil
  then show ?case by (simp add: word_le_nat_alt)
next
  case (Cons call calls)
  obtain now restart where call: "call = (now, restart)" by (cases call)
  have early: "\<not> WINDOW \<le> now - rs_window_started rate" using Cons.prems(1) call by auto
  show ?case
  proof (cases "rs_accepted rate < cc_requests_per_minute config")
    case True
    let ?next = "rate\<lparr>rs_accepted := rs_accepted rate + 1\<rparr>"
    have step: "check_rate config now restart rate = (Ok (), ?next)"
      using True early
      by (simp add: check_rate_def Let_def saturating_add_one_below [OF True] not_le)
    have "unat (rs_accepted rate + 1) = unat (rs_accepted rate) + 1"
      using checked_add_unat [OF checked_add_one_below(1) [OF True]] by simp
    moreover have "fst (rate_run config calls ?next) + unat (rs_accepted ?next)
        \<le> unat (cc_requests_per_minute config)"
      using Cons.IH [of ?next] Cons.prems(1) checked_add_one_below(2) [OF True] by simp
    ultimately show ?thesis using call step by (simp add: case_prod_beta)
  next
    case False
    then have "check_rate config now restart rate = (Err RateLimited, rate)"
      using early by (simp add: check_rate_def Let_def not_less)
    then show ?thesis using call Cons.IH [of rate] Cons.prems by (simp add: case_prod_beta)
  qed
qed

definition within_minute :: "nat \<Rightarrow> (nat \<times> nat) list \<Rightarrow> bool" where
  "within_minute t calls \<longleftrightarrow>
     (\<forall>(now, restart) \<in> set calls. t \<le> now \<and> now \<le> restart \<and> restart < t + WINDOW)"

lemma rate_run_restarted:
  assumes "within_minute t calls" "t \<le> rs_window_started rate"
    and "rs_accepted rate \<le> cc_requests_per_minute config"
  shows "fst (rate_run config calls rate) \<le> unat (cc_requests_per_minute config)"
proof -
  have "\<forall>(now, restart) \<in> set calls. now - rs_window_started rate < WINDOW"
    using assms(1,2) by (fastforce simp: within_minute_def)
  from rate_run_same_window [OF this assms(3)] show ?thesis by simp
qed

lemma rate_run_minute:
  assumes "within_minute t calls" "rs_accepted rate \<le> cc_requests_per_minute config"
  shows "fst (rate_run config calls rate) + unat (rs_accepted rate)
    \<le> 2 * unat (cc_requests_per_minute config)"
  using assms
proof (induction calls arbitrary: rate)
  case Nil
  then show ?case by (simp add: word_le_nat_alt)
next
  case (Cons call calls)
  let ?limit = "cc_requests_per_minute config"
  obtain now restart where call: "call = (now, restart)" by (cases call)
  have times: "t \<le> now" "now \<le> restart" and rest: "within_minute t calls"
    using Cons.prems(1) call by (auto simp: within_minute_def)
  consider (expired) "WINDOW \<le> now - rs_window_started rate"
    | (pass) "\<not> WINDOW \<le> now - rs_window_started rate" "rs_accepted rate < ?limit"
    | (limited) "\<not> WINDOW \<le> now - rs_window_started rate" "\<not> rs_accepted rate < ?limit"
    by blast
  then show ?case
  proof cases
    case expired
    let ?fresh = "\<lparr>rs_window_started = restart, rs_accepted = 0\<rparr>"
    have "check_rate config now restart rate = check_rate config now restart ?fresh"
      using expired times(2) by (simp add: check_rate_def WINDOW_def)
    then have "rate_run config (call # calls) rate = rate_run config (call # calls) ?fresh"
      using call by simp
    then have "fst (rate_run config (call # calls) rate) \<le> unat ?limit"
      using rate_run_restarted [OF Cons.prems(1), of ?fresh config] times by simp
    then show ?thesis using Cons.prems(2) by (simp add: word_le_nat_alt)
  next
    case pass
    let ?next = "rate\<lparr>rs_accepted := rs_accepted rate + 1\<rparr>"
    have "check_rate config now restart rate = (Ok (), ?next)"
      using pass by (simp add: check_rate_def Let_def saturating_add_one_below [OF pass(2)] not_le)
    moreover have "unat (rs_accepted rate + 1) = unat (rs_accepted rate) + 1"
      using checked_add_unat [OF checked_add_one_below(1) [OF pass(2)]] by simp
    ultimately show ?thesis
      using call Cons.IH [OF rest, of ?next] checked_add_one_below(2) [OF pass(2)]
      by (simp add: case_prod_beta)
  next
    case limited
    then have "check_rate config now restart rate = (Err RateLimited, rate)"
      by (simp add: check_rate_def Let_def not_less)
    then show ?thesis using call Cons.IH [OF rest Cons.prems(2)] by (simp add: case_prod_beta)
  qed
qed

text \<open>
  C28. The rate limit: from any state of the counter, and for calls whose clock readings
  all fall within one minute, at most twice the configured number of submissions pass the
  limiter; and if the window does not restart among them, at most the configured number.
  (The limiter counts in consecutive windows, so a burst may straddle two.)
\<close>

theorem rate_limited:
  assumes "within_minute t calls" "rs_accepted rate \<le> cc_requests_per_minute config"
  shows "fst (rate_run config calls rate) \<le> 2 * unat (cc_requests_per_minute config)
    \<and> ((\<forall>(now, restart) \<in> set calls. now - rs_window_started rate < WINDOW) \<longrightarrow>
         fst (rate_run config calls rate) \<le> unat (cc_requests_per_minute config))"
  using rate_run_minute [OF assms] rate_run_same_window [of calls rate config, OF _ assms(2)]
  by auto

section \<open>Failing closed\<close>

lemma submit_ticket_cases:
  assumes "submit_ticket cr env now restart ticket slot co = (m, co')"
  obtains "\<not> is_ok m" "co_store co' = co_store co"
    | "JoinTicket_verify cr ticket slot (cc_binding (co_config co)) = Ok ()"
      "fst (check_rate (co_config co) now restart (co_rate co)) = Ok ()"
      "admit cr (co_config co) env ticket (co_store co) = (m, co_store co')"
proof -
  obtain q rate where rate: "check_rate (co_config co) now restart (co_rate co) = (q, rate)"
    by (cases "check_rate (co_config co) now restart (co_rate co)")
  let ?check = "and_then q (\<lambda>_. map_err (\<lambda>_. CoordinatorError.InvalidTicket)
      (JoinTicket_verify cr ticket slot (cc_binding (co_config co))))"
  show ?thesis
  proof (cases ?check)
    case (Ok u)
    then have ok: "q = Ok ()" "JoinTicket_verify cr ticket slot (cc_binding (co_config co)) = Ok ()"
      by (simp_all add: and_then_Ok_iff map_err_Ok_iff)
    then show ?thesis using assms rate that(2)
      by (auto simp: submit_ticket_def Let_def split: prod.splits)
  next
    case (Err e)
    then show ?thesis using assms rate that(1) by (auto simp: submit_ticket_def Let_def)
  next
    case Panic
    then show ?thesis using assms rate that(1) by (auto simp: submit_ticket_def Let_def)
  qed
qed

text \<open>
  C27. Submission fails closed: if the trusted slot source fails, the request fails with
  its error and the service is unchanged; every other failure (rate, verification, full
  cohort, duplicate, SQLite) leaves the store unchanged. Success means that the slot was
  read, the ticket verified at this slot, the cohort had room, and the store gained exactly
  this ticket.
\<close>

theorem submission_fails_closed:
  assumes "http_submit cr env slot_source now restart ticket co = (m, co')"
  shows "(\<forall>e. slot_source = Err e \<longrightarrow> m = Err e \<and> co' = co)
    \<and> (\<not> is_ok m \<longrightarrow> co_store co' = co_store co)
    \<and> (\<forall>c. m = Ok c \<longrightarrow> (\<exists>slot row. slot_source = Ok slot
         \<and> JoinTicket_verify cr ticket slot (cc_binding (co_config co)) = Ok ()
         \<and> JoinTicket_commitment cr ticket = Ok c
         \<and> cohort_entries (co_config co) (co_store co)
             < unat (cc_maximum_participants (co_config co))
         \<and> tr_commitment row = digest_bytes c
         \<and> db_join_tickets (co_store co') = db_join_tickets (co_store co) @ [row]))"
proof (cases slot_source)
  case (Ok slot)
  then have "submit_ticket cr env now restart ticket slot co = (m, co')"
    using assms by (simp add: http_submit_def)
  then show ?thesis
  proof (cases rule: submit_ticket_cases)
    case 1
    then show ?thesis using Ok by auto
  next
    case 2
    from 2(3) show ?thesis
    proof (cases rule: admit_cases)
      case 1
      then show ?thesis using Ok by auto
    next
      case (2 n)
      have room: "cohort_entries (co_config co) (co_store co)
          < unat (cc_maximum_participants (co_config co))"
        using sqlite_store.tally_exact [OF 2(1)] 2(2) by (simp add: word_less_nat_alt)
      obtain r where acc: "accept_ticket cr env ticket (co_store co) = (r, co_store co')"
        using 2(3) by (cases "accept_ticket cr env ticket (co_store co)") simp
      have m: "m = map_err Store r" using 2(4) acc by simp
      have "\<exists>row. JoinTicket_commitment cr ticket = Ok c \<and> tr_commitment row = digest_bytes c
          \<and> db_join_tickets (co_store co') = db_join_tickets (co_store co) @ [row]"
        if "m = Ok c" for c
      proof -
        have "accept_ticket cr env ticket (co_store co) = (Ok c, co_store co')"
          using that m acc by (simp add: map_err_Ok_iff)
        then show ?thesis
        proof (rule accept_ticket_writes)
          fix row e
          assume "JoinTicket_commitment cr ticket = Ok c" "tr_commitment row = digest_bytes c"
            and db': "co_store co' = co_store co
              \<lparr>db_join_tickets := db_join_tickets (co_store co) @ [row],
               db_immutable_events := db_immutable_events (co_store co) @ [e]\<rparr>"
          then show ?thesis unfolding db' by auto
        qed
      qed
      moreover have "co_store co' = co_store co" if "\<not> is_ok m"
        using that m sqlite_store.insert_fails [OF acc] by (cases r) auto
      ultimately show ?thesis using Ok room \<open>JoinTicket_verify _ _ _ _ = Ok ()\<close> by auto
    qed
  qed
next
  case (Err e)
  then show ?thesis using assms by (auto simp: http_submit_def)
next
  case Panic
  then show ?thesis using assms by (auto simp: http_submit_def)
qed

section \<open>A concrete service\<close>

definition sample_service :: CoordinatorConfig where
  "sample_service = \<lparr>cc_binding = sample_binding, cc_listen = ''127.0.0.1:8787'',
     cc_minimum_participants = 2, cc_maximum_participants = 3, cc_requests_per_minute = 2,
     cc_max_body_bytes = 65536\<rparr>"

definition sample_coordinator :: Coordinator where
  "sample_coordinator = Coordinator_new sample_service (snd (memory_store sample_env)) 0"

lemma sample_open_tickets: "db_join_tickets (snd (memory_store sample_env)) = []"
  using memory_store_empty [OF sample_open] by simp

theorem admissions_bounded_and_verified_witness:
  "cohort_entries sample_service (co_store (run_steps sample_crypto
      [RateStep 1 1, AdmitStep sample_env (sample_ticket 9) 50, SealStep sample_env]
      sample_coordinator)) \<le> 3"
proof -
  have "\<forall>step \<in> set [RateStep 1 1, AdmitStep sample_env (sample_ticket 9) 50, SealStep sample_env].
      step_json sample_json step"
    by (simp add: sample_env_json)
  from admissions_bounded_and_verified [OF sample_open this refl,
      where cr = sample_crypto and config = sample_service and now = 0]
  show ?thesis unfolding sample_coordinator_def by (simp add: sample_service_def)
qed

theorem rate_limited_witness:
  "fst (rate_run sample_service [(5, 5), (6, 6), (7, 7), (8, 8), (9, 9)]
     \<lparr>rs_window_started = 0, rs_accepted = 1\<rparr>) \<le> 4"
proof -
  have "within_minute 5 [(5, 5), (6, 6), (7, 7), (8, 8), (9, 9)]"
    by (simp add: within_minute_def WINDOW_def)
  from rate_limited [OF this, of "\<lparr>rs_window_started = 0, rs_accepted = 1\<rparr>" sample_service]
  show ?thesis by (simp add: sample_service_def del: rate_run.simps)
qed

theorem submission_fails_closed_witness:
  "\<exists>co'. http_submit sample_crypto sample_env (Err RpcClock) 1 1 (sample_ticket 9) sample_coordinator
      = (Err RpcClock, co') \<and> co' = sample_coordinator"
proof -
  obtain m co' where "http_submit sample_crypto sample_env (Err RpcClock) 1 1 (sample_ticket 9)
      sample_coordinator = (m, co')"
    by (cases "http_submit sample_crypto sample_env (Err RpcClock) 1 1 (sample_ticket 9)
      sample_coordinator")
  with submission_fails_closed [OF this] show ?thesis by auto
qed

end
