(* ===== verification/MP_Simulator.thy ===== *)
theory MP_Simulator
  imports MP_Core "HOL-Library.Char_ord"
begin

text \<open>
  The evaluation simulator (\<open>src/crates/mirror-pool-simulator/src/lib.rs\<close>): scenario
  validation, the participant loop, the observer's fingerprints and the metrics.

  The pseudo-random generator is another package: its state and the four functions the code
  calls are arguments. Arithmetic on \<open>f64\<close> is a record of operations as well, so that every
  statement below holds for whatever rounding the hardware does; where a statement needs a
  law of it, such as the exactness of small integers, the law is a hypothesis. Integer
  arithmetic panics on overflow, as the workspace's release profile keeps overflow checks.
\<close>

section \<open>Parameters\<close>

record 'f f64 =
  f_of_nat :: "nat \<Rightarrow> 'f"
  f_decimal :: "nat \<Rightarrow> nat \<Rightarrow> 'f"
  f_epsilon :: 'f
  f_add :: "'f \<Rightarrow> 'f \<Rightarrow> 'f"
  f_sub :: "'f \<Rightarrow> 'f \<Rightarrow> 'f"
  f_mul :: "'f \<Rightarrow> 'f \<Rightarrow> 'f"
  f_div :: "'f \<Rightarrow> 'f \<Rightarrow> 'f"
  f_ln :: "'f \<Rightarrow> 'f"
  f_exp :: "'f \<Rightarrow> 'f"
  f_abs :: "'f \<Rightarrow> 'f"
  f_less :: "'f \<Rightarrow> 'f \<Rightarrow> bool"
  f_le :: "'f \<Rightarrow> 'f \<Rightarrow> bool"
  f_clamp :: "'f \<Rightarrow> 'f \<Rightarrow> 'f \<Rightarrow> 'f"
  f_round_usize :: "'f \<Rightarrow> nat"

record ('g, 'f) generator =
  rg_seed_from_u64 :: "u64 \<Rightarrow> 'g"
  rg_gen_bool :: "'f \<Rightarrow> 'g \<Rightarrow> bool \<times> 'g"
  rg_gen_range_u64 :: "u64 \<Rightarrow> 'g \<Rightarrow> u64 \<times> 'g"
  rg_gen_range_f64 :: "'f \<Rightarrow> 'f \<Rightarrow> 'g \<Rightarrow> 'f \<times> 'g"

text \<open>
  \<open>f_decimal m k\<close> is the literal \<open>m\<close> divided by ten to the \<open>k\<close>; \<open>rg_gen_range_u64 hi\<close>
  draws from \<open>0..=hi\<close>.
\<close>

section \<open>Data\<close>

datatype ReleaseStrategy = FixedSlot | NarrowWindow | RandomizedWithinWindow | LatencyAware

record ObserverFeatures =
  of_timing :: bool
  of_instruction_shape :: bool
  of_fee_behavior :: bool
  of_funding_graph :: bool
  of_amount_bucket :: bool
  of_historical_behavior :: bool

definition ObserverFeatures_default :: ObserverFeatures where
  "ObserverFeatures_default = \<lparr>of_timing = True, of_instruction_shape = True,
     of_fee_behavior = True, of_funding_graph = True, of_amount_bucket = True,
     of_historical_behavior = True\<rparr>"

record 'f Scenario =
  sc_scenario_version :: u16
  sc_seed :: u64
  sc_participant_count :: u32
  sc_backend :: PrivacyBackend
  sc_release_strategy :: ReleaseStrategy
  sc_execution_window_slots :: u64
  sc_dropout_rate :: 'f
  sc_longitudinal_periods :: u16
  sc_observer_features :: ObserverFeatures

record 'f Observation =
  ob_participant :: u32
  ob_executed :: bool
  ob_slot :: u64
  ob_fingerprint :: string
  ob_score :: 'f
  ob_true_link :: bool

record 'f EvaluationMetrics =
  em_announced_cohort_size :: u32
  em_observed_cohort_size :: u32
  em_completion_rate :: 'f
  em_execution_spread_slots :: u64
  em_median_timing_deviation :: 'f
  em_p95_timing_deviation :: 'f
  em_unique_fingerprint_rate :: 'f
  em_minimum_k_anonymity :: u32
  em_shannon_entropy :: 'f
  em_effective_anonymity_set :: 'f
  em_normalized_entropy :: 'f
  em_linkage_precision :: 'f
  em_linkage_recall :: 'f
  em_linkage_f1 :: 'f
  em_roc_auc :: 'f
  em_false_positive_rate :: 'f
  em_false_negative_rate :: 'f

record 'f EvaluationReport =
  er_scenario :: "'f Scenario"
  er_metrics :: "'f EvaluationMetrics"
  er_trace_hash :: Digest32
  er_limitations :: "string list"

datatype EvaluationError = InvalidScenario | Serialization

section \<open>Observations\<close>

definition validate :: "'f f64 \<Rightarrow> 'f Scenario \<Rightarrow> (unit, EvaluationError) result" where
  "validate F s =
    (if sc_scenario_version s \<noteq> 1 \<or> sc_participant_count s < 2
        \<or> sc_participant_count s > 100000 \<or> sc_execution_window_slots s = 0
        \<or> \<not> (f_le F (f_decimal F 0 0) (sc_dropout_rate s)
              \<and> f_less F (sc_dropout_rate s) (f_decimal F 1 0))
     then Err InvalidScenario else Ok ())"

fun show_nat :: "nat \<Rightarrow> string" where
  "show_nat n =
    (if n < 10 then [char_of (48 + n)] else show_nat (n div 10) @ [char_of (48 + n mod 10)])"

declare show_nat.simps [simp del]

definition target_slot :: u64 where
  "target_slot = 10000"

text \<open>The largest offset a strategy may draw.\<close>

fun release_range :: "ReleaseStrategy \<Rightarrow> u64 \<Rightarrow> u64" where
  "release_range FixedSlot w = 0"
| "release_range NarrowWindow w = min w 3"
| "release_range RandomizedWithinWindow w = w"
| "release_range LatencyAware w = min w 2"

definition release_slot ::
  "('g, 'f) generator \<Rightarrow> 'f Scenario \<Rightarrow> 'g \<Rightarrow> (u64 \<times> 'g, EvaluationError) result" where
  "release_slot R s g =
    (if sc_release_strategy s = FixedSlot then Ok (target_slot, g)
     else case rg_gen_range_u64 R
                 (release_range (sc_release_strategy s) (sc_execution_window_slots s)) g of
       (offset, g) \<Rightarrow>
         (case checked_add target_slot offset of None \<Rightarrow> Panic | Some slot \<Rightarrow> Ok (slot, g)))"

text \<open>The six values the observer reads, in the order of the fingerprint.\<close>

definition features :: "'f Scenario \<Rightarrow> u32 \<Rightarrow> u64 \<Rightarrow> u64 list" where
  "features s participant slot =
    (let o' = sc_observer_features s; p = (ucast participant :: u64) in
     [if of_timing o' then slot mod 4 else 0,
      if of_instruction_shape o' then p mod 5 else 0,
      if of_fee_behavior o' then p mod 3 else 0,
      if of_funding_graph o' then p mod 7 else 0,
      if of_amount_bucket o' then p mod 4 else 0,
      if of_historical_behavior o' then p mod ucast (max (sc_longitudinal_periods s) 1) else 0])"

fun join_colon :: "string list \<Rightarrow> string" where
  "join_colon [] = []"
| "join_colon [x] = x"
| "join_colon (x # y # ys) = x @ CHR '':'' # join_colon (y # ys)"

definition fingerprint :: "u64 list \<Rightarrow> string" where
  "fingerprint vs = join_colon (map (\<lambda>v. show_nat (unat v)) vs)"

definition signal :: "u64 list \<Rightarrow> u32" where
  "signal vs = foldl (+) 0 (map ucast vs)"

definition observe ::
  "'f f64 \<Rightarrow> ('g, 'f) generator \<Rightarrow> 'f Scenario \<Rightarrow> u32 \<Rightarrow> 'g
     \<Rightarrow> ('f Observation \<times> 'g, EvaluationError) result" where
  "observe F R s participant g =
    (case rg_gen_bool R (sc_dropout_rate s) g of
       (dropped, g) \<Rightarrow>
         and_then (release_slot R s g) (\<lambda>(slot, g).
         let vs = features s participant slot in
         case rg_gen_range_f64 R (f_decimal F 0 0) (f_decimal F 15 2) g of
           (noise, g) \<Rightarrow>
             Ok (\<lparr>ob_participant = participant, ob_executed = (\<not> dropped), ob_slot = slot,
                  ob_fingerprint = fingerprint vs,
                  ob_score = f_clamp F (f_add F (f_div F (f_of_nat F (unat (signal vs)))
                      (f_decimal F 28 0)) noise) (f_decimal F 0 0) (f_decimal F 1 0),
                  ob_true_link = (participant mod 2 = 0)\<rparr>, g)))"

fun observe_all ::
  "'f f64 \<Rightarrow> ('g, 'f) generator \<Rightarrow> 'f Scenario \<Rightarrow> u32 list \<Rightarrow> 'g
     \<Rightarrow> ('f Observation list, EvaluationError) result" where
  "observe_all F R s [] g = Ok []"
| "observe_all F R s (p # ps) g =
     and_then (observe F R s p g) (\<lambda>(o', g).
     and_then (observe_all F R s ps g) (\<lambda>os. Ok (o' # os)))"

section \<open>Metrics\<close>

definition ratio :: "'f f64 \<Rightarrow> 'f \<Rightarrow> 'f \<Rightarrow> 'f" where
  "ratio F a b = (if f_less F (f_decimal F 0 0) b then f_div F a b else f_decimal F 0 0)"

definition confusion_step ::
  "'f f64 \<Rightarrow> 'f \<Rightarrow> 'f \<times> 'f \<times> 'f \<times> 'f \<Rightarrow> 'f Observation \<Rightarrow> 'f \<times> 'f \<times> 'f \<times> 'f" where
  "confusion_step F threshold c ob =
    (case c of (tp, fp, tn, fn) \<Rightarrow>
       let one = f_decimal F 1 0 in
       case (f_le F threshold (ob_score ob), ob_true_link ob) of
         (True, True) \<Rightarrow> (f_add F tp one, fp, tn, fn)
       | (True, False) \<Rightarrow> (tp, f_add F fp one, tn, fn)
       | (False, False) \<Rightarrow> (tp, fp, f_add F tn one, fn)
       | (False, True) \<Rightarrow> (tp, fp, tn, f_add F fn one))"

definition confusion ::
  "'f f64 \<Rightarrow> 'f Observation list \<Rightarrow> 'f \<Rightarrow> 'f \<times> 'f \<times> 'f \<times> 'f" where
  "confusion F obs threshold =
    (let z = f_decimal F 0 0 in foldl (confusion_step F threshold) (z, z, z, z) obs)"

definition auc_win :: "'f f64 \<Rightarrow> 'f Observation \<Rightarrow> 'f Observation \<Rightarrow> 'f" where
  "auc_win F p n =
    (if f_less F (ob_score n) (ob_score p) then f_decimal F 1 0
     else if f_less F (f_abs F (f_sub F (ob_score p) (ob_score n))) (f_epsilon F)
     then f_decimal F 5 1 else f_decimal F 0 0)"

definition auc :: "'f f64 \<Rightarrow> 'f Observation list \<Rightarrow> 'f" where
  "auc F obs =
    (let positives = filter ob_true_link obs; negatives = filter (\<lambda>o'. \<not> ob_true_link o') obs in
     if positives = [] \<or> negatives = [] then f_decimal F 5 1
     else f_div F
       (foldl (f_add F) (f_decimal F 0 0)
         (concat (map (\<lambda>p. map (auc_win F p) negatives) positives)))
       (f_of_nat F (length positives * length negatives)))"

text \<open>\<open>*groups.entry(k).or_default() += 1\<close> on a map ordered by key.\<close>

fun count_key :: "string \<Rightarrow> (string \<times> u32) list \<Rightarrow> (string \<times> u32) list" where
  "count_key k [] = [(k, 1)]"
| "count_key k ((k', n) # groups) =
    (if k = k' then (k', n + 1) # groups
     else if k < k' then (k, 1) # (k', n) # groups
     else (k', n) # count_key k groups)"

definition group_counts :: "string list \<Rightarrow> (string \<times> u32) list" where
  "group_counts ks = foldl (\<lambda>groups k. count_key k groups) [] ks"

definition abs_diff :: "u64 \<Rightarrow> u64 \<Rightarrow> u64" where
  "abs_diff a b = (if a < b then b - a else a - b)"

definition saturating_sub :: "'a::len word \<Rightarrow> 'a word \<Rightarrow> 'a word" where
  "saturating_sub a b = (if b \<le> a then a - b else 0)"

definition max_or :: "'a::linorder \<Rightarrow> 'a list \<Rightarrow> 'a" where
  "max_or d xs = (case xs of [] \<Rightarrow> d | y # ys \<Rightarrow> foldl max y ys)"

definition min_or :: "'a::linorder \<Rightarrow> 'a list \<Rightarrow> 'a" where
  "min_or d xs = (case xs of [] \<Rightarrow> d | y # ys \<Rightarrow> foldl min y ys)"

definition spread :: "u64 \<Rightarrow> u64 list \<Rightarrow> u64" where
  "spread target slots = saturating_sub (max_or target slots) (min_or target slots)"

definition percentile :: "'f f64 \<Rightarrow> u64 list \<Rightarrow> 'f \<Rightarrow> ('f, EvaluationError) result" where
  "percentile F deviations fraction =
    (if deviations = [] then Ok (f_decimal F 0 0)
     else let i = f_round_usize F (f_mul F (f_of_nat F (length deviations - 1)) fraction) in
       and_then (index_slice deviations i) (\<lambda>d. Ok (f_of_nat F (unat d))))"

definition entropy_of :: "'f f64 \<Rightarrow> u32 \<Rightarrow> u32 list \<Rightarrow> 'f" where
  "entropy_of F observed counts =
     foldl (\<lambda>acc c.
       let p = f_div F (f_of_nat F (unat c)) (f_of_nat F (unat (max observed 1))) in
       f_sub F acc (f_mul F p (f_ln F p))) (f_decimal F 0 0) counts"

definition observed_size :: "'f Observation list \<Rightarrow> u32" where
  "observed_size executed =
     (if length executed < 2 ^ 32 then of_nat (length executed) else - 1)"

definition metrics ::
  "'f f64 \<Rightarrow> 'f Observation list \<Rightarrow> u32 \<Rightarrow> u64 \<Rightarrow> ('f EvaluationMetrics, EvaluationError) result" where
  "metrics F obs announced target =
    (let executed = filter ob_executed obs;
         observed = observed_size executed;
         deviations = sort (map (\<lambda>o'. abs_diff (ob_slot o') target) executed);
         groups = group_counts (map ob_fingerprint executed);
         counts = map snd groups;
         entropy = entropy_of F observed counts;
         unique = f_of_nat F (length (filter (\<lambda>n. n = 1) counts)) in
     case confusion F executed (f_decimal F 5 1) of (tp, fp, tn, fn) \<Rightarrow>
       let precision = ratio F tp (f_add F tp fp); recall = ratio F tp (f_add F tp fn) in
       and_then (percentile F deviations (f_decimal F 5 1)) (\<lambda>median.
       and_then (percentile F deviations (f_decimal F 95 2)) (\<lambda>p95.
       Ok \<lparr>em_announced_cohort_size = announced, em_observed_cohort_size = observed,
           em_completion_rate = ratio F (f_of_nat F (unat observed)) (f_of_nat F (unat announced)),
           em_execution_spread_slots = spread target (map ob_slot executed),
           em_median_timing_deviation = median, em_p95_timing_deviation = p95,
           em_unique_fingerprint_rate = ratio F unique (f_of_nat F (unat observed)),
           em_minimum_k_anonymity = min_or 0 counts,
           em_shannon_entropy = entropy, em_effective_anonymity_set = f_exp F entropy,
           em_normalized_entropy =
             (if observed > 1 then f_div F entropy (f_ln F (f_of_nat F (unat observed)))
              else f_decimal F 0 0),
           em_linkage_precision = precision, em_linkage_recall = recall,
           em_linkage_f1 =
             (if f_less F (f_decimal F 0 0) (f_add F precision recall)
              then f_div F (f_mul F (f_mul F (f_decimal F 2 0) precision) recall)
                     (f_add F precision recall)
              else f_decimal F 0 0),
           em_roc_auc = auc F executed,
           em_false_positive_rate = ratio F fp (f_add F fp tn),
           em_false_negative_rate = ratio F fn (f_add F fn tp)\<rparr>)))"

definition limitations :: "string list" where
  "limitations =
    [''Synthetic observations do not prove real-world anonymity or unlinkability.'',
     ''The coordinator sees submitted tickets; network and funding metadata may relink users.'',
     ''Synchronization can create a detectable cohort fingerprint.'']"

definition evaluate ::
  "'f f64 \<Rightarrow> ('g, 'f) generator \<Rightarrow> (bytes \<Rightarrow> bytes) \<Rightarrow> ('f Observation list \<Rightarrow> bytes option)
     \<Rightarrow> 'f Scenario \<Rightarrow> ('f EvaluationReport, EvaluationError) result" where
  "evaluate F R blake3 to_vec scenario =
    and_then (validate F scenario) (\<lambda>_.
    and_then (observe_all F R scenario (map of_nat [0..<unat (sc_participant_count scenario)])
                (rg_seed_from_u64 R (sc_seed scenario))) (\<lambda>observations.
    and_then (metrics F observations (sc_participant_count scenario) target_slot) (\<lambda>m.
    and_then (ok_or (to_vec observations) EvaluationError.Serialization) (\<lambda>trace.
    Ok \<lparr>er_scenario = scenario, er_metrics = m,
        er_trace_hash = Digest32_hash blake3 (ascii ''evaluation-trace'') trace,
        er_limitations = limitations\<rparr>))))"

section \<open>Fingerprints\<close>

definition read_nat :: "string \<Rightarrow> nat" where
  "read_nat cs = foldl (\<lambda>n c. 10 * n + (of_char c - 48)) 0 cs"

lemma read_show_nat: "read_nat (show_nat n) = n"
proof (induction n rule: show_nat.induct)
  case (1 n)
  show ?case
  proof (cases "n < 10")
    case True
    then show ?thesis by (simp add: show_nat.simps [of n] read_nat_def)
  next
    case False
    have "read_nat (show_nat (n div 10) @ [char_of (48 + n mod 10)])
        = 10 * read_nat (show_nat (n div 10)) + n mod 10"
      by (simp add: read_nat_def)
    then show ?thesis using 1 [OF False] False by (simp add: show_nat.simps [of n])
  qed
qed

lemma digit_not_colon: "(d :: nat) < 10 \<Longrightarrow> char_of (48 + d) \<noteq> CHR '':''"
proof
  assume "d < 10" "char_of (48 + d) = CHR '':''"
  then have "of_char (char_of (48 + d) :: char) = (of_char (CHR '':'') :: nat)" by simp
  then show False using \<open>d < 10\<close> by simp
qed

lemma show_nat_no_colon: "CHR '':'' \<notin> set (show_nat n)"
proof (induction n rule: show_nat.induct)
  case (1 n)
  then show ?case using digit_not_colon [of n] digit_not_colon [of "n mod 10"]
    by (cases "n < 10") (auto simp: show_nat.simps [of n])
qed

lemma append_colon_eq:
  assumes "c \<notin> set xs" "c \<notin> set ys" "xs @ c # us = ys @ c # vs"
  shows "xs = ys \<and> us = vs"
  using assms by (induction xs arbitrary: ys) (auto simp: Cons_eq_append_conv)

lemma join_colon_inj:
  assumes "\<forall>x \<in> set xs \<union> set ys. CHR '':'' \<notin> set x" "length xs = length ys"
    and "join_colon xs = join_colon ys"
  shows "xs = ys"
  using assms
proof (induction xs arbitrary: ys rule: join_colon.induct)
  case 1
  then show ?case by simp
next
  case (2 x)
  then show ?case by (cases ys) auto
next
  case (3 x x' xs)
  then obtain y y' zs where ys: "ys = y # y' # zs" by (auto simp: length_Suc_conv Suc_length_conv)
  have eq: "x = y \<and> join_colon (x' # xs) = join_colon (y' # zs)"
    using 3(2,4) ys by (intro append_colon_eq [of "CHR '':''"]) auto
  then have "x' # xs = y' # zs" using 3(2,3) ys by (intro "3.IH") auto
  then show ?case using eq ys by simp
qed

text \<open>The textual fingerprint separates exactly the observed feature values.\<close>

lemma fingerprint_inj:
  assumes "length vs = length ws"
  shows "fingerprint vs = fingerprint ws \<longleftrightarrow> vs = ws"
proof
  assume "fingerprint vs = fingerprint ws"
  then have "map (\<lambda>v. show_nat (unat v)) vs = map (\<lambda>v. show_nat (unat v)) ws"
    unfolding fingerprint_def using assms
    by (intro join_colon_inj) (auto simp: show_nat_no_colon)
  moreover have "inj (\<lambda>v :: u64. show_nat (unat v))"
    by (rule injI) (metis read_show_nat word_unat_eq_iff)
  ultimately show "vs = ws" by (simp add: inj_map_eq_map)
qed simp

section \<open>Grouping\<close>

lemma count_key_sorted:
  "sorted_wrt (<) (map fst groups) \<Longrightarrow>
     sorted_wrt (<) (map fst (count_key k groups))
   \<and> set (map fst (count_key k groups)) = insert k (set (map fst groups))"
  by (induction k groups rule: count_key.induct) (auto simp: less_trans)

lemma map_of_count_key:
  "sorted_wrt (<) (map fst groups) \<Longrightarrow>
     map_of (count_key k groups)
       = (map_of groups)(k \<mapsto> (case map_of groups k of None \<Rightarrow> 1 | Some n \<Rightarrow> n + 1))"
proof (induction k groups rule: count_key.induct)
  case (2 k k' n groups)
  have "k \<notin> set (map fst groups)" if "k < k'" using 2(2) that by auto
  then have "map_of groups k = None" if "k < k'" using that by (simp add: map_of_eq_None_iff)
  then show ?case using 2 by (auto simp: fun_eq_iff)
qed simp

lemma group_counts_correct:
  "sorted_wrt (<) (map fst (group_counts ks))
 \<and> map_of (group_counts ks)
     = (\<lambda>k. if k \<in> set ks then Some (of_nat (length (filter ((=) k) ks))) else None)"
proof (induction ks rule: rev_induct)
  case Nil
  show ?case by (simp add: group_counts_def fun_eq_iff)
next
  case (snoc k ks)
  have "filter ((=) k) ks = []" if "k \<notin> set ks" using that by (auto simp: filter_empty_conv)
  moreover have "group_counts (ks @ [k]) = count_key k (group_counts ks)"
    by (simp add: group_counts_def)
  ultimately show ?case
    using snoc count_key_sorted [of "group_counts ks" k] map_of_count_key [of "group_counts ks" k]
    by (auto simp: fun_eq_iff)
qed

lemma group_counts_values:
  "set (map snd (group_counts ks)) = (\<lambda>k. of_nat (length (filter ((=) k) ks))) ` set ks"
proof -
  have dist: "distinct (map fst (group_counts ks))"
    using group_counts_correct strict_sorted_iff by blast
  have m: "map_of (group_counts ks)
     = (\<lambda>k. if k \<in> set ks then Some (of_nat (length (filter ((=) k) ks))) else None)"
    using group_counts_correct by blast
  have "(k, n) \<in> set (group_counts ks)
      \<longleftrightarrow> k \<in> set ks \<and> n = of_nat (length (filter ((=) k) ks))" for k n
    using map_of_eq_Some_iff [OF dist, of k n] m by (auto split: if_splits)
  then show ?thesis by force
qed

lemma min_or_Min: "xs \<noteq> [] \<Longrightarrow> min_or d xs = Min (set xs)"
proof (cases xs)
  case (Cons y ys)
  have "foldl min y ys = fold min ys y"
    by (induction ys arbitrary: y) (simp_all add: min.commute)
  then show ?thesis using Cons Min.set_eq_fold [of y ys] by (simp add: min_or_def)
qed simp

lemma max_or_Max: "xs \<noteq> [] \<Longrightarrow> max_or d xs = Max (set xs)"
proof (cases xs)
  case (Cons y ys)
  have "foldl max y ys = fold max ys y"
    by (induction ys arbitrary: y) (simp_all add: max.commute)
  then show ?thesis using Cons Max.set_eq_fold [of y ys] by (simp add: max_or_def)
qed simp

section \<open>Anonymity groups\<close>

definition group_of :: "'f Observation list \<Rightarrow> 'f Observation \<Rightarrow> nat" where
  "group_of obs o' = length (filter (\<lambda>x. ob_fingerprint x = ob_fingerprint o') obs)"

lemma metrics_fields:
  assumes "metrics F obs announced target = Ok m"
  shows "em_announced_cohort_size m = announced"
    "em_observed_cohort_size m = observed_size (filter ob_executed obs)"
    "em_execution_spread_slots m = spread target (map ob_slot (filter ob_executed obs))"
    "em_minimum_k_anonymity m
       = min_or 0 (map snd (group_counts (map ob_fingerprint (filter ob_executed obs))))"
  using assms by (auto simp: metrics_def Let_def result_simps split: prod.splits)

lemma group_values:
  "set (map snd (group_counts (map ob_fingerprint obs))) = (\<lambda>o'. of_nat (group_of obs o')) ` set obs"
proof -
  have "length (filter ((=) k) (map ob_fingerprint obs))
      = length (filter (\<lambda>x. ob_fingerprint x = k) obs)" for k
    by (induction obs) auto
  then show ?thesis unfolding group_counts_values by (auto simp: group_of_def image_image)
qed

lemma unat_small_of_nat: "n < 2 ^ 32 \<Longrightarrow> unat (of_nat n :: u32) = n"
  by (simp add: unsigned_of_nat take_bit_nat_eq_self)

lemma group_of_less: "length obs < 2 ^ 32 \<Longrightarrow> group_of obs o' < 2 ^ 32"
  unfolding group_of_def using length_filter_le le_less_trans by blast

lemma minimum_k:
  assumes "metrics F obs announced target = Ok m" "length obs < 2 ^ 32"
  shows "(filter ob_executed obs = [] \<longrightarrow> em_minimum_k_anonymity m = 0)
    \<and> (\<forall>o' \<in> set (filter ob_executed obs).
         unat (em_minimum_k_anonymity m) \<le> group_of (filter ob_executed obs) o')
    \<and> (filter ob_executed obs \<noteq> [] \<longrightarrow>
         (\<exists>o' \<in> set (filter ob_executed obs).
            unat (em_minimum_k_anonymity m) = group_of (filter ob_executed obs) o'))"
proof (cases "filter ob_executed obs = []")
  case True
  then show ?thesis using metrics_fields(4) [OF assms(1)] by (simp add: group_counts_def min_or_def)
next
  case False
  let ?ex = "filter ob_executed obs"
  let ?K = "(\<lambda>o'. of_nat (group_of ?ex o') :: u32) ` set ?ex"
  have small: "length ?ex < 2 ^ 32" using assms(2) length_filter_le le_less_trans by blast
  have unat: "unat (of_nat (group_of ?ex o') :: u32) = group_of ?ex o'" for o'
    using unat_small_of_nat group_of_less [OF small] by blast
  have "map snd (group_counts (map ob_fingerprint ?ex)) \<noteq> []"
    using group_values [of ?ex] False by auto
  then have k: "em_minimum_k_anonymity m = Min ?K"
    using metrics_fields(4) [OF assms(1)] min_or_Min group_values by metis
  have "set ?ex \<noteq> {}" using False by (simp only: set_empty not_False_eq_True)
  then have "Min ?K \<in> ?K" by (intro Min_in) simp_all
  then have attained: "\<exists>o' \<in> set ?ex. unat (Min ?K) = group_of ?ex o'" using unat by auto
  have "unat (Min ?K) \<le> group_of ?ex o'" if "o' \<in> set ?ex" for o'
  proof -
    have "Min ?K \<le> of_nat (group_of ?ex o')" using that by (intro Min_le) simp_all
    then show ?thesis using unat [of o'] by (simp add: word_le_nat_alt)
  qed
  then show ?thesis using attained False unfolding k by blast
qed

text \<open>
  C35. The reported \<open>minimum_k_anonymity\<close> is what it says: when somebody executed, it is the
  size of the smallest group of executed observations with equal fingerprints, so every
  executed observation shares its fingerprint with at least that many and some group has
  exactly that size; when nobody executed it is 0.
\<close>

theorem minimum_k_is_smallest_group:
  assumes "metrics F obs announced target = Ok m" "length obs < 2 ^ 32"
  shows "(filter ob_executed obs = [] \<longrightarrow> em_minimum_k_anonymity m = 0)
    \<and> (\<forall>o' \<in> set (filter ob_executed obs).
         unat (em_minimum_k_anonymity m) \<le> group_of (filter ob_executed obs) o')
    \<and> (filter ob_executed obs \<noteq> [] \<longrightarrow>
         (\<exists>o' \<in> set (filter ob_executed obs).
            unat (em_minimum_k_anonymity m) = group_of (filter ob_executed obs) o'))"
  using assms by (rule minimum_k)

section \<open>Runs\<close>

text \<open>The generator draws within the requested range.\<close>

definition rng_ok :: "('g, 'f) generator \<Rightarrow> bool" where
  "rng_ok R \<longleftrightarrow> (\<forall>hi g. fst (rg_gen_range_u64 R hi g) \<le> hi)"

text \<open>
  Rounding \<open>n * 0.5\<close> and \<open>n * 0.95\<close> to the nearest integer does not exceed \<open>n\<close>.
\<close>

definition f64_index_ok :: "'f f64 \<Rightarrow> bool" where
  "f64_index_ok F \<longleftrightarrow> (\<forall>n. f_round_usize F (f_mul F (f_of_nat F n) (f_decimal F 5 1)) \<le> n
     \<and> f_round_usize F (f_mul F (f_of_nat F n) (f_decimal F 95 2)) \<le> n)"

definition in_window :: "'f Scenario \<Rightarrow> 'f Observation \<Rightarrow> bool" where
  "in_window s o' \<longleftrightarrow> unat target_slot \<le> unat (ob_slot o')
     \<and> unat (ob_slot o') \<le> unat target_slot
         + unat (release_range (sc_release_strategy s) (sc_execution_window_slots s))"

lemma release_slot_Ok:
  assumes "release_slot R s g = Ok (slot, g')" "rng_ok R"
  shows "unat target_slot \<le> unat slot \<and> unat slot \<le> unat target_slot
    + unat (release_range (sc_release_strategy s) (sc_execution_window_slots s))"
proof (cases "sc_release_strategy s = FixedSlot")
  case True
  then show ?thesis using assms(1) by (simp add: release_slot_def)
next
  case False
  let ?hi = "release_range (sc_release_strategy s) (sc_execution_window_slots s)"
  obtain r g1 where r: "rg_gen_range_u64 R ?hi g = (r, g1)"
    by (cases "rg_gen_range_u64 R ?hi g")
  have "unat r \<le> unat ?hi"
    using assms(2) r unfolding rng_ok_def by (metis fst_conv word_le_nat_alt)
  moreover have "checked_add target_slot r = Some slot"
    using assms(1) False r by (auto simp: release_slot_def split: option.splits)
  ultimately show ?thesis using checked_add_unat by fastforce
qed

lemma release_slot_total:
  assumes "rng_ok R"
    and "10000 + unat (release_range (sc_release_strategy s) (sc_execution_window_slots s)) < 2 ^ 64"
  shows "\<exists>p. release_slot R s g = Ok p"
proof (cases "sc_release_strategy s = FixedSlot")
  case True
  then show ?thesis by (simp add: release_slot_def)
next
  case False
  let ?hi = "release_range (sc_release_strategy s) (sc_execution_window_slots s)"
  obtain r g1 where r: "rg_gen_range_u64 R ?hi g = (r, g1)"
    by (cases "rg_gen_range_u64 R ?hi g")
  have "unat r \<le> unat ?hi"
    using assms(1) r unfolding rng_ok_def by (metis fst_conv word_le_nat_alt)
  then have "unat target_slot + unat r < 2 ^ 64" using assms(2) by (simp add: target_slot_def)
  then show ?thesis using False r by (simp add: release_slot_def checked_add_def)
qed

lemma observe_Ok:
  assumes "observe F R s p g = Ok (o', g')" "rng_ok R"
  shows "ob_participant o' = p \<and> ob_fingerprint o' = fingerprint (features s p (ob_slot o'))
    \<and> in_window s o'"
proof -
  obtain slot g1 where slot: "release_slot R s (snd (rg_gen_bool R (sc_dropout_rate s) g)) = Ok (slot, g1)"
    and o': "ob_participant o' = p" "ob_slot o' = slot"
      "ob_fingerprint o' = fingerprint (features s p slot)"
    using assms(1) by (auto simp: observe_def Let_def case_prod_beta and_then_Ok_iff)
  then show ?thesis using release_slot_Ok [OF slot assms(2)] by (simp add: in_window_def)
qed

lemma observe_total:
  assumes "rng_ok R"
    and "10000 + unat (release_range (sc_release_strategy s) (sc_execution_window_slots s)) < 2 ^ 64"
  shows "\<exists>q. observe F R s p g = Ok q"
proof -
  obtain d g1 where d: "rg_gen_bool R (sc_dropout_rate s) g = (d, g1)"
    by (cases "rg_gen_bool R (sc_dropout_rate s) g")
  obtain q where "release_slot R s g1 = Ok q" using release_slot_total [OF assms] by blast
  then show ?thesis using d by (simp add: observe_def Let_def split: prod.splits)
qed

lemma observe_all_Ok:
  assumes "observe_all F R s ps g = Ok os" "rng_ok R"
  shows "list_all2 (\<lambda>p o'. ob_participant o' = p
    \<and> ob_fingerprint o' = fingerprint (features s p (ob_slot o')) \<and> in_window s o') ps os"
  using assms
proof (induction ps arbitrary: g os)
  case (Cons p ps)
  then obtain o' g' os' where step: "observe F R s p g = Ok (o', g')"
    "observe_all F R s ps g' = Ok os'" "os = o' # os'"
    by (auto simp: and_then_Ok_iff)
  then show ?case using Cons.IH [OF step(2) Cons.prems(2)] observe_Ok [OF step(1) Cons.prems(2)]
    by simp
qed simp

lemma observe_all_total:
  assumes "rng_ok R"
    and "10000 + unat (release_range (sc_release_strategy s) (sc_execution_window_slots s)) < 2 ^ 64"
  shows "\<exists>os. observe_all F R s ps g = Ok os"
proof (induction ps arbitrary: g)
  case (Cons p ps)
  obtain o' g' where "observe F R s p g = Ok (o', g')" using observe_total [OF assms] by fastforce
  then show ?case using Cons.IH [of g'] by auto
qed simp

lemma percentile_total:
  assumes "\<forall>n. f_round_usize F (f_mul F (f_of_nat F n) x) \<le> n"
  shows "\<exists>v. percentile F ds x = Ok v"
proof (cases "ds = []")
  case False
  have "f_round_usize F (f_mul F (f_of_nat F (length ds - 1)) x) \<le> length ds - 1" using assms by blast
  then have "f_round_usize F (f_mul F (f_of_nat F (length ds - 1)) x) < length ds"
    using False by (cases ds) auto
  then show ?thesis by (simp add: percentile_def Let_def index_slice_def)
qed (simp add: percentile_def)

lemma metrics_total:
  assumes "f64_index_ok F"
  shows "\<exists>m. metrics F obs announced target = Ok m"
proof -
  let ?ds = "sort (map (\<lambda>o'. abs_diff (ob_slot o') target) (filter ob_executed obs))"
  obtain a b where "percentile F ?ds (f_decimal F 5 1) = Ok a"
    "percentile F ?ds (f_decimal F 95 2) = Ok b"
    using assms percentile_total unfolding f64_index_ok_def by metis
  then show ?thesis by (simp add: metrics_def Let_def case_prod_beta)
qed

lemma release_range_le: "release_range st w \<le> w"
  by (cases st) simp_all

lemma spread_le:
  assumes "\<forall>x \<in> set slots. lo \<le> unat x \<and> unat x \<le> lo + r"
  shows "unat (spread target slots) \<le> r"
proof (cases "slots = []")
  case True
  then show ?thesis by (simp add: spread_def saturating_sub_def max_or_def min_or_def)
next
  case False
  then have "Max (set slots) \<in> set slots" "Min (set slots) \<in> set slots" by simp_all
  then have "unat (Max (set slots)) \<le> lo + r" "lo \<le> unat (Min (set slots))"
    using assms by blast+
  then show ?thesis using False
    by (auto simp: spread_def saturating_sub_def max_or_Max min_or_Min unat_sub)
qed

lemma evaluate_Ok:
  assumes "evaluate F R blake3 to_vec s = Ok rep"
  obtains os where "validate F s = Ok ()"
    "observe_all F R s (map of_nat [0..<unat (sc_participant_count s)])
       (rg_seed_from_u64 R (sc_seed s)) = Ok os"
    "metrics F os (sc_participant_count s) target_slot = Ok (er_metrics rep)"
    "er_scenario rep = s"
  using assms by (auto simp: evaluate_def and_then_Ok_iff ok_or_Ok_iff)

lemma observed_small:
  "length os < 2 ^ 32 \<Longrightarrow> unat (observed_size (filter ob_executed os)) = length (filter ob_executed os)"
  using length_filter_le [of ob_executed os] unat_small_of_nat
  by (simp add: observed_size_def del: length_filter_le)

lemma observe_all_no_Err: "observe_all F R s ps g \<noteq> Err e"
proof (induction ps arbitrary: g)
  case (Cons p ps)
  have "observe F R s p g \<noteq> Err e" for g
    by (auto simp: observe_def release_slot_def Let_def and_then_Err_iff split: prod.splits option.splits if_splits)
  then show ?case using Cons by (auto simp: and_then_Err_iff)
qed simp

lemma release_range_wide:
  assumes "2 ^ 64 \<le> 10000 + unat (release_range st w)"
  shows "st = RandomizedWithinWindow \<and> 2 ^ 64 \<le> 10000 + unat w"
proof -
  have "unat (min w 3) \<le> unat (3 :: u64)" "unat (min w 2) \<le> unat (2 :: u64)"
    by (simp_all only: word_le_nat_alt [symmetric] min.cobounded2)
  then show ?thesis using assms by (cases st) auto
qed

lemma evaluate_cases:
  assumes "rng_ok R" "f64_index_ok F" "\<forall>os. to_vec os \<noteq> None"
  shows "(validate F s = Ok () \<longrightarrow>
      (\<exists>rep. evaluate F R blake3 to_vec s = Ok rep \<and> er_scenario rep = s)
      \<or> evaluate F R blake3 to_vec s = Panic
        \<and> sc_release_strategy s = RandomizedWithinWindow
        \<and> 2 ^ 64 \<le> 10000 + unat (sc_execution_window_slots s))
    \<and> (validate F s \<noteq> Ok () \<longrightarrow> evaluate F R blake3 to_vec s = Err InvalidScenario)"
proof -
  let ?ps = "map of_nat [0..<unat (sc_participant_count s)]"
    and ?g = "rg_seed_from_u64 R (sc_seed s)"
  have valid: "validate F s = Ok () \<or> validate F s = Err InvalidScenario"
    by (simp add: validate_def)
  show ?thesis
  proof (cases "\<exists>os. observe_all F R s ?ps ?g = Ok os")
    case True
    then obtain os where os: "observe_all F R s ?ps ?g = Ok os" by blast
    obtain m where "metrics F os (sc_participant_count s) target_slot = Ok m"
      using metrics_total [OF assms(2)] by blast
    moreover obtain trace where "to_vec os = Some trace" using assms(3) by fastforce
    ultimately show ?thesis using os valid by (auto simp: evaluate_def)
  next
    case False
    then have "observe_all F R s ?ps ?g = Panic"
      using observe_all_no_Err by (metis result.exhaust)
    moreover have "\<not> 10000 + unat (release_range (sc_release_strategy s) (sc_execution_window_slots s)) < 2 ^ 64"
      using observe_all_total [OF assms(1)] False by blast
    ultimately show ?thesis using valid release_range_wide
      by (auto simp: evaluate_def not_less)
  qed
qed

lemma evaluate_returns:
  assumes "rng_ok R" "f64_index_ok F" "\<forall>os. to_vec os \<noteq> None"
    and "10000 + unat (sc_execution_window_slots s) < 2 ^ 64"
  shows "(validate F s = Ok () \<longrightarrow>
      (\<exists>rep. evaluate F R blake3 to_vec s = Ok rep \<and> er_scenario rep = s))
    \<and> (validate F s \<noteq> Ok () \<longrightarrow> evaluate F R blake3 to_vec s = Err InvalidScenario)"
  using evaluate_cases [OF assms(1-3), of s blake3] assms(4) by auto

text \<open>
  C34. The outcome of every evaluation: with a generator that keeps to its range and a serialiser
  that accepts the trace, a scenario that does not validate is reported as invalid, and one that
  does is evaluated. The only exception is a randomised release whose window is so wide that
  the target slot and the largest offset do not fit 64 bits, which validation does not rule out:
  there the sum may overflow, and then the evaluation panics. No other step panics (no
  percentile index is out of range) and no other error is possible.
\<close>

theorem evaluate_total:
  assumes "rng_ok R" "f64_index_ok F" "\<forall>os. to_vec os \<noteq> None"
  shows "(validate F s = Ok () \<longrightarrow>
      (\<exists>rep. evaluate F R blake3 to_vec s = Ok rep \<and> er_scenario rep = s)
      \<or> evaluate F R blake3 to_vec s = Panic
        \<and> sc_release_strategy s = RandomizedWithinWindow
        \<and> 2 ^ 64 \<le> 10000 + unat (sc_execution_window_slots s))
    \<and> (validate F s \<noteq> Ok () \<longrightarrow> evaluate F R blake3 to_vec s = Err InvalidScenario)"
  using assms by (rule evaluate_cases)

lemma evaluation_bounded:
  assumes "evaluate F R blake3 to_vec s = Ok rep" "rng_ok R"
  shows "em_announced_cohort_size (er_metrics rep) = sc_participant_count s
    \<and> 2 \<le> unat (sc_participant_count s) \<and> unat (sc_participant_count s) \<le> 100000
    \<and> em_observed_cohort_size (er_metrics rep) \<le> em_announced_cohort_size (er_metrics rep)
    \<and> em_execution_spread_slots (er_metrics rep)
        \<le> release_range (sc_release_strategy s) (sc_execution_window_slots s)"
proof -
  from assms(1) obtain os where valid: "validate F s = Ok ()"
    and os: "observe_all F R s (map of_nat [0..<unat (sc_participant_count s)])
       (rg_seed_from_u64 R (sc_seed s)) = Ok os"
    and m: "metrics F os (sc_participant_count s) target_slot = Ok (er_metrics rep)"
    by (rule evaluate_Ok)
  have size: "2 \<le> unat (sc_participant_count s)" "unat (sc_participant_count s) \<le> 100000"
    using valid by (auto simp: validate_def word_le_nat_alt word_less_nat_alt split: if_splits)
  note all = observe_all_Ok [OF os assms(2)]
  have len: "length os = unat (sc_participant_count s)" using list_all2_lengthD [OF all] by simp
  have "unat (observed_size (filter ob_executed os)) \<le> unat (sc_participant_count s)"
    using observed_small [of os] len size length_filter_le [of ob_executed os] by simp
  moreover have "\<forall>x \<in> set (map ob_slot (filter ob_executed os)). unat target_slot \<le> unat x
      \<and> unat x \<le> unat target_slot
          + unat (release_range (sc_release_strategy s) (sc_execution_window_slots s))"
    using list_all2_right [OF all] by (fastforce simp: in_window_def)
  note spread_le [OF this, of target_slot]
  ultimately show ?thesis using size metrics_fields [OF m] by (simp add: word_le_nat_alt)
qed

text \<open>
  What a report can show: the announced size is the participant count, between 2 and
  100000; the observed size counts the participants that executed and is at most the
  announced one; and the execution spread is within the range of the release strategy: 0 for
  a fixed slot, at most 3 and 2 slots for the narrow and the latency-aware window, and at
  most the execution window otherwise.
\<close>

theorem evaluate_bounds:
  assumes "evaluate F R blake3 to_vec s = Ok rep" "rng_ok R"
  shows "em_announced_cohort_size (er_metrics rep) = sc_participant_count s
    \<and> 2 \<le> unat (sc_participant_count s) \<and> unat (sc_participant_count s) \<le> 100000
    \<and> em_observed_cohort_size (er_metrics rep) \<le> em_announced_cohort_size (er_metrics rep)
    \<and> em_execution_spread_slots (er_metrics rep)
        \<le> release_range (sc_release_strategy s) (sc_execution_window_slots s)"
  by (rule evaluation_bounded [OF assms])

text \<open>
  An observer without features puts every participant into one group.
\<close>

lemma blind_observer_one_group:
  assumes "evaluate F R blake3 to_vec s = Ok rep" "rng_ok R"
    and "sc_observer_features s = \<lparr>of_timing = False, of_instruction_shape = False,
      of_fee_behavior = False, of_funding_graph = False, of_amount_bucket = False,
      of_historical_behavior = False\<rparr>"
  shows "em_minimum_k_anonymity (er_metrics rep) = em_observed_cohort_size (er_metrics rep)"
proof -
  from assms(1) obtain os where valid: "validate F s = Ok ()"
    and os: "observe_all F R s (map of_nat [0..<unat (sc_participant_count s)])
       (rg_seed_from_u64 R (sc_seed s)) = Ok os"
    and m: "metrics F os (sc_participant_count s) target_slot = Ok (er_metrics rep)"
    by (rule evaluate_Ok)
  note all = observe_all_Ok [OF os assms(2)]
  have small: "length os < 2 ^ 32"
    using list_all2_lengthD [OF all] valid
    by (auto simp: validate_def word_le_nat_alt word_less_nat_alt split: if_splits)
  have fp: "ob_fingerprint o' = fingerprint [0, 0, 0, 0, 0, 0]" if "o' \<in> set os" for o'
    using list_all2_right [OF all that] by (auto simp: features_def Let_def assms(3))
  then have "group_of (filter ob_executed os) o' = length (filter ob_executed os)"
    if "o' \<in> set (filter ob_executed os)" for o'
    unfolding group_of_def using that by (subst filter_True) auto
  then have "unat (em_minimum_k_anonymity (er_metrics rep)) = length (filter ob_executed os)"
    using minimum_k [OF m small] by (cases "filter ob_executed os = []") auto
  then show ?thesis using observed_small [OF small] metrics_fields(2) [OF m]
    by (simp add: word_unat_eq_iff)
qed

section \<open>A concrete instance\<close>

text \<open>
  Fixed-point arithmetic in hundredths and a generator that always draws the upper end.
\<close>

definition hundredths :: "int f64" where
  "hundredths = \<lparr>f_of_nat = (\<lambda>n. 100 * int n), f_decimal = (\<lambda>m k. 100 * int m div 10 ^ k),
     f_epsilon = 1, f_add = (+), f_sub = (-), f_mul = (\<lambda>a b. a * b div 100),
     f_div = (\<lambda>a b. 100 * a div b), f_ln = (\<lambda>x. x - 100), f_exp = (\<lambda>x. x + 100), f_abs = abs,
     f_less = (<), f_le = (\<le>), f_clamp = (\<lambda>x lo hi. max lo (min x hi)),
     f_round_usize = (\<lambda>x. nat ((x + 50) div 100))\<rparr>"

definition upper_end :: "(unit, int) generator" where
  "upper_end = \<lparr>rg_seed_from_u64 = (\<lambda>_. ()), rg_gen_bool = (\<lambda>_ g. (False, g)),
     rg_gen_range_u64 = (\<lambda>hi g. (hi, g)), rg_gen_range_f64 = (\<lambda>lo hi g. (lo, g))\<rparr>"

lemma hundredths_index_ok: "f64_index_ok hundredths"
proof -
  have "(m * int n + 50) div 100 \<le> int n" if "m \<le> 100" for m n
  proof -
    have "m * int n \<le> 100 * int n" using that by (rule mult_right_mono) simp
    then have "(m * int n + 50) div 100 \<le> (50 + 100 * int n) div 100" by (intro zdiv_mono1) simp_all
    also have "\<dots> = int n" by (subst div_mult_self2) simp_all
    finally show ?thesis .
  qed
  from this [of 50] this [of 95]
  show ?thesis by (simp add: f64_index_ok_def hundredths_def nat_le_iff mult.commute)
qed

lemma upper_end_ok: "rng_ok upper_end"
  by (simp add: rng_ok_def upper_end_def)

definition small_scenario :: "u64 \<Rightarrow> int Scenario" where
  "small_scenario w = \<lparr>sc_scenario_version = 1, sc_seed = 42, sc_participant_count = 2,
     sc_backend = PrivacyBackend.MerkleCohort, sc_release_strategy = RandomizedWithinWindow,
     sc_execution_window_slots = w, sc_dropout_rate = 10, sc_longitudinal_periods = 1,
     sc_observer_features = ObserverFeatures_default\<rparr>"

lemma small_scenario_valid: "w \<noteq> 0 \<Longrightarrow> validate hundredths (small_scenario w) = Ok ()"
  by (simp add: validate_def hundredths_def small_scenario_def)

lemma small_evaluation:
  obtains rep where "evaluate hundredths upper_end id (\<lambda>_. Some []) (small_scenario 4) = Ok rep"
proof -
  have "validate hundredths (small_scenario 4) = Ok ()" by (rule small_scenario_valid) simp
  moreover obtain os where "observe_all hundredths upper_end (small_scenario 4)
      (map of_nat [0..<unat (sc_participant_count (small_scenario 4))]) () = Ok os"
    using observe_all_total [OF upper_end_ok, of "small_scenario 4"]
    by (auto simp: small_scenario_def)
  moreover obtain m where "metrics hundredths os (sc_participant_count (small_scenario 4)) target_slot
      = Ok m"
    using metrics_total [OF hundredths_index_ok] by blast
  moreover have "rg_seed_from_u64 upper_end x = ()" for x by simp
  ultimately show ?thesis using that by (simp add: evaluate_def)
qed

theorem evaluate_total_witness:
  "\<exists>rep. evaluate hundredths upper_end id (\<lambda>_. Some []) (small_scenario 4) = Ok rep
     \<and> er_scenario rep = small_scenario 4"
  using evaluate_total [OF upper_end_ok hundredths_index_ok, of "\<lambda>_. Some []" "small_scenario 4" id]
    small_scenario_valid [of 4]
  by (simp add: small_scenario_def)

theorem evaluate_bounds_witness:
  "\<exists>rep. evaluate hundredths upper_end id (\<lambda>_. Some []) (small_scenario 4) = Ok rep
     \<and> em_execution_spread_slots (er_metrics rep) \<le> 4"
proof -
  obtain rep where "evaluate hundredths upper_end id (\<lambda>_. Some []) (small_scenario 4) = Ok rep"
    by (rule small_evaluation)
  with evaluate_bounds [OF this upper_end_ok] show ?thesis by (auto simp: small_scenario_def)
qed

definition sample_observation :: "string \<Rightarrow> bool \<Rightarrow> int Observation" where
  "sample_observation fp ex = \<lparr>ob_participant = 0, ob_executed = ex, ob_slot = 10000,
     ob_fingerprint = fp, ob_score = 10, ob_true_link = True\<rparr>"

theorem minimum_k_is_smallest_group_witness:
  "\<exists>m. metrics hundredths [sample_observation ''a'' True, sample_observation ''b'' True,
        sample_observation ''a'' True, sample_observation ''b'' False] 4 10000 = Ok m
     \<and> em_minimum_k_anonymity m \<le> 1"
proof -
  let ?os = "[sample_observation ''a'' True, sample_observation ''b'' True,
        sample_observation ''a'' True, sample_observation ''b'' False]"
  obtain m where m: "metrics hundredths ?os 4 10000 = Ok m"
    using metrics_total [OF hundredths_index_ok] by blast
  have "group_of (filter ob_executed ?os) (sample_observation ''b'' True) = 1"
    by (simp add: group_of_def sample_observation_def)
  then have "unat (em_minimum_k_anonymity m) \<le> 1"
    using minimum_k_is_smallest_group [OF m] by (force simp: sample_observation_def)
  then show ?thesis using m by (auto simp: word_le_nat_alt)
qed

text \<open>
  Validation sets no upper bound on the execution window, and the release slot is added with
  overflow checks: with the widest window a randomised release can panic.
\<close>

theorem widest_window_can_panic:
  "validate hundredths (small_scenario (- 1)) = Ok () \<and> rng_ok upper_end
   \<and> evaluate hundredths upper_end id (\<lambda>_. Some []) (small_scenario (- 1)) = Panic"
proof -
  have "checked_add target_slot (- 1) = None"
    by (simp add: checked_add_None_iff target_slot_def unsigned_minus_1_eq_mask mask_eq_exp_minus_1)
  then have slot: "release_slot upper_end (small_scenario (- 1)) g = Panic" for g
    by (simp add: release_slot_def upper_end_def small_scenario_def)
  have "[0..<unat (sc_participant_count (small_scenario (- 1)))] = [0, 1]"
    by (simp add: small_scenario_def upt_rec)
  then show ?thesis using slot small_scenario_valid [of "- 1"] upper_end_ok
    by (simp add: evaluate_def observe_def case_prod_beta)
qed

end
