(* ===== verification/MP_CLI.thy ===== *)
theory MP_CLI
  imports MP_Client MP_Coordinator MP_Simulator
begin

text \<open>
  The command line (\<open>src/crates/mirror-pool-cli/src/main.rs\<close>): pool and round creation and
  inspection, tickets, proofs, actions, evaluation, the environment check \<open>doctor\<close> and the start
  of the coordinator. \<open>init\<close> and \<open>report\<close> are in \<open>MP_Evidence\<close>.

  A command is a function on the files. Opening, reading and writing may fail at any path and
  a write may stop after any number of bytes (\<open>disk\<close>); JSON, hex, base-58, the random bytes,
  the clock and the RPC answers are arguments. Printing is left out.
\<close>

section \<open>Files and errors\<close>

datatype CliError =
    Bail string
  | IoError
  | JsonError
  | HexError
  | PubkeyError
  | Protocol ProtocolError
  | Client ClientError
  | Action ActionError
  | ProofError MerkleError
  | Evaluation EvaluationError
  | Database StoreError
  | TicketFailed TicketError
  | RpcError

record stored_file =
  fi_content :: bytes
  fi_owner_only :: bool

type_synonym files = "string \<rightharpoonup> stored_file"
type_synonym 'a command = "files \<Rightarrow> ('a, CliError) result \<times> files"

record disk =
  dk_open_fails :: "string \<Rightarrow> bool"
  dk_read_fails :: "string \<Rightarrow> bool"
  dk_write_limit :: "string \<Rightarrow> nat option"
  dk_mkdir_fails :: "string \<Rightarrow> bool"

definition read_file :: "disk \<Rightarrow> string \<Rightarrow> bytes command" where
  "read_file dk path fs =
    (if dk_read_fails dk path then (Err IoError, fs)
     else (ok_or (map_option fi_content (fs path)) IoError, fs))"

definition read_json :: "disk \<Rightarrow> (bytes \<Rightarrow> 'a option) \<Rightarrow> string \<Rightarrow> 'a command" where
  "read_json dk from_slice path =
     bind_cmd (read_file dk path) (\<lambda>bs. lift (ok_or (from_slice bs) JsonError))"

text \<open>
  \<open>create_new\<close> refuses a path that exists. The file is opened before the value is serialised
  and written, so a later failure leaves it behind, empty or cut short.
\<close>

definition write_new :: "disk \<Rightarrow> bool \<Rightarrow> string \<Rightarrow> bytes option \<Rightarrow> unit command" where
  "write_new dk private path json fs =
    (if path \<in> dom fs \<or> dk_open_fails dk path then (Err IoError, fs)
     else case json of
       None \<Rightarrow> (Err JsonError, fs(path \<mapsto> \<lparr>fi_content = [], fi_owner_only = private\<rparr>))
     | Some bs \<Rightarrow>
         (case dk_write_limit dk path of
            None \<Rightarrow> (Ok (), fs(path \<mapsto> \<lparr>fi_content = bs, fi_owner_only = private\<rparr>))
          | Some n \<Rightarrow>
              (Err IoError, fs(path \<mapsto> \<lparr>fi_content = take n bs, fi_owner_only = private\<rparr>))))"

definition write_new_json :: "disk \<Rightarrow> string \<Rightarrow> bytes option \<Rightarrow> unit command" where
  "write_new_json dk path json = write_new dk False path json"

definition write_private :: "disk \<Rightarrow> string \<Rightarrow> bytes option \<Rightarrow> unit command" where
  "write_private dk path json = write_new dk True path json"

text \<open>\<open>fs::write\<close> truncates a file that exists and keeps its mode.\<close>

definition write_file :: "disk \<Rightarrow> string \<Rightarrow> bytes \<Rightarrow> unit command" where
  "write_file dk path bs fs =
    (if dk_open_fails dk path then (Err IoError, fs)
     else let private = (case fs path of None \<Rightarrow> False | Some f \<Rightarrow> fi_owner_only f) in
       case dk_write_limit dk path of
         None \<Rightarrow> (Ok (), fs(path \<mapsto> \<lparr>fi_content = bs, fi_owner_only = private\<rparr>))
       | Some n \<Rightarrow>
           (Err IoError, fs(path \<mapsto> \<lparr>fi_content = take n bs, fi_owner_only = private\<rparr>)))"

definition parse_digest :: "(string \<Rightarrow> bytes option) \<Rightarrow> string \<Rightarrow> (Digest32, CliError) result" where
  "parse_digest hex_decode v =
    and_then (ok_or (hex_decode v) HexError) (\<lambda>bs.
    if length bs = 32 then Ok (Digest32 bs) else Err (Bail ''digest must be 32 bytes''))"

section \<open>Pools and rounds\<close>

datatype BackendArg = Transparent | Merkle

fun privacy_backend :: "BackendArg \<Rightarrow> PrivacyBackend" where
  "privacy_backend Transparent = PrivacyBackend.TransparentRegistry"
| "privacy_backend BackendArg.Merkle = PrivacyBackend.MerkleCohort"

definition new_pool_config ::
  "(bytes \<Rightarrow> bytes) \<Rightarrow> bytes \<Rightarrow> bytes \<Rightarrow> bytes \<Rightarrow> u32 \<Rightarrow> u32 \<Rightarrow> BackendArg \<Rightarrow> u64 \<Rightarrow> u64 \<Rightarrow> 64 word
     \<Rightarrow> PoolConfig" where
  "new_pool_config blake3 pool_id authority memo minimum maximum backend registration_slots
     execution_window_slots now =
    \<lparr>pc_pool_id = Digest32 pool_id, pc_version = SCHEMA_VERSION,
     pc_governance = SingleAuthority authority,
     pc_action_template_hash = Digest32_hash blake3 (ascii ''action-template'') (ascii ''memo-v1''),
     pc_min_participants = minimum, pc_max_participants = maximum,
     pc_registration_duration_slots = registration_slots,
     pc_min_release_delay_slots = 2, pc_max_release_delay_slots = 50,
     pc_execution_window_slots = execution_window_slots,
     pc_max_timing_dispersion_slots = execution_window_slots,
     pc_privacy_backend = privacy_backend backend,
     pc_allowed_clusters = {Localnet}, pc_allowed_program_ids = {memo},
     pc_completion_policy = RedactedReceipt, pc_created_at_unix = now,
     pc_configuration_hash = Digest32_default\<rparr>"

text \<open>
  \<open>to_vec\<close> is the canonical serialisation the hash covers, \<open>pretty\<close> the one written to disk.
\<close>

definition pool_create ::
  "(bytes \<Rightarrow> bytes) \<Rightarrow> (PoolConfig \<Rightarrow> bytes option) \<Rightarrow> (PoolConfig \<Rightarrow> bytes option) \<Rightarrow> disk
     \<Rightarrow> string \<Rightarrow> bytes option \<Rightarrow> bytes option \<Rightarrow> bytes \<Rightarrow> 64 word \<Rightarrow> u32 \<Rightarrow> u32 \<Rightarrow> BackendArg \<Rightarrow> u64 \<Rightarrow> u64
     \<Rightarrow> PoolConfig command" where
  "pool_create blake3 to_vec pretty dk output authority memo random now minimum maximum backend
     registration_slots execution_window_slots =
    bind_cmd (lift (ok_or authority PubkeyError)) (\<lambda>authority.
    bind_cmd (lift (ok_or memo PubkeyError)) (\<lambda>memo.
    let config = new_pool_config blake3 random authority memo minimum maximum backend
                   registration_slots execution_window_slots now in
    bind_cmd (lift (map_err Protocol (PoolConfig_compute_hash blake3 to_vec config))) (\<lambda>h.
    let config = config\<lparr>pc_configuration_hash := h\<rparr> in
    bind_cmd (lift (map_err Protocol (PoolConfig_validate blake3 to_vec config))) (\<lambda>_.
    bind_cmd (write_new_json dk output (pretty config)) (\<lambda>_.
    lift (Ok config))))))"

definition pool_inspect ::
  "(bytes \<Rightarrow> bytes) \<Rightarrow> (PoolConfig \<Rightarrow> bytes option) \<Rightarrow> (bytes \<Rightarrow> PoolConfig option) \<Rightarrow> disk \<Rightarrow> string
     \<Rightarrow> PoolConfig command" where
  "pool_inspect blake3 to_vec from_slice dk path =
    bind_cmd (read_json dk from_slice path) (\<lambda>v.
    bind_cmd (lift (map_err Protocol (PoolConfig_validate blake3 to_vec v))) (\<lambda>_.
    lift (Ok v)))"

definition opened_round :: "PoolConfig \<Rightarrow> u64 \<Rightarrow> u64 \<Rightarrow> u64 \<Rightarrow> Round" where
  "opened_round config round_id slot deadline =
    \<lparr>rd_pool_id = pc_pool_id config, rd_round_id = round_id, rd_state = RoundState.Registration,
     rd_registration_start_slot = slot, rd_registration_deadline_slot = deadline,
     rd_release_slot = None, rd_execution_window_start = None, rd_execution_window_end = None,
     rd_expected_cohort_size = pc_min_participants config, rd_accepted_cohort_size = 0,
     rd_cohort_merkle_root = None, rd_action_template_hash = pc_action_template_hash config,
     rd_privacy_backend = pc_privacy_backend config, rd_cancellation_reason = None,
     rd_final_metrics_hash = None\<rparr>"

text \<open>\<open>rpc\<close> is the answer of \<open>inspect_rpc\<close>, used when no slot is given.\<close>

definition round_open ::
  "(bytes \<Rightarrow> bytes) \<Rightarrow> (PoolConfig \<Rightarrow> bytes option) \<Rightarrow> (bytes \<Rightarrow> PoolConfig option)
     \<Rightarrow> (Round \<Rightarrow> bytes option) \<Rightarrow> disk \<Rightarrow> string \<Rightarrow> string \<Rightarrow> u64 \<Rightarrow> u64 option
     \<Rightarrow> RpcInspection client_result \<Rightarrow> Round command" where
  "round_open blake3 to_vec from_slice pretty dk pool output round_id current_slot rpc =
    bind_cmd (read_json dk from_slice pool) (\<lambda>config.
    bind_cmd (lift (map_err Protocol (PoolConfig_validate blake3 to_vec config))) (\<lambda>_.
    bind_cmd (lift (case current_slot of
                 Some v \<Rightarrow> Ok v
               | None \<Rightarrow> and_then (map_err Client rpc) (\<lambda>i. Ok (ri_slot i)))) (\<lambda>slot.
    bind_cmd (lift (ok_or (checked_add slot (pc_registration_duration_slots config))
                 (Bail ''registration deadline overflow''))) (\<lambda>deadline.
    let v = opened_round config round_id slot deadline in
    bind_cmd (lift (map_err Client (verify_round_configuration blake3 to_vec config v))) (\<lambda>_.
    bind_cmd (write_new_json dk output (pretty v)) (\<lambda>_.
    lift (Ok v)))))))"

definition round_inspect :: "(bytes \<Rightarrow> Round option) \<Rightarrow> disk \<Rightarrow> string \<Rightarrow> Round command" where
  "round_inspect from_slice dk path = read_json dk from_slice path"

section \<open>Tickets and proofs\<close>

record TicketBindingFile =
  tf_binding :: TicketBinding
  tf_expiry_slot :: u64

record LocalTicket =
  lt_ticket :: JoinTicket
  lt_coordination_secret :: bytes
  lt_nonce :: bytes

definition ticket_create ::
  "('sk, 'vk) crypto \<Rightarrow> (bytes \<Rightarrow> TicketBindingFile option) \<Rightarrow> (LocalTicket \<Rightarrow> bytes option) \<Rightarrow> disk
     \<Rightarrow> string \<Rightarrow> string \<Rightarrow> bytes \<Rightarrow> bytes \<Rightarrow> LocalTicket command" where
  "ticket_create cr from_slice pretty dk binding output random_secret random_nonce =
    bind_cmd (read_json dk from_slice binding) (\<lambda>binding.
    let secret = CoordinationSecret random_secret in
    bind_cmd (lift (map_err Client (create_join_ticket cr random_nonce
                 (CoordinationSecret_signing_key cr secret) (tf_binding binding)
                 (tf_expiry_slot binding)))) (\<lambda>(ticket, nonce).
    let local = \<lparr>lt_ticket = ticket, lt_coordination_secret = secret_bytes secret,
                 lt_nonce = nonce_bytes nonce\<rparr> in
    bind_cmd (write_private dk output (pretty local)) (\<lambda>_.
    lift (Ok local))))"

text \<open>What \<open>ticket submit\<close> posts: a bare ticket, or the ticket of a local file.\<close>

definition ticket_submission ::
  "(bytes \<Rightarrow> JoinTicket option) \<Rightarrow> (bytes \<Rightarrow> LocalTicket option) \<Rightarrow> disk \<Rightarrow> string \<Rightarrow> JoinTicket command" where
  "ticket_submission ticket_from local_from dk path =
    bind_cmd (read_file dk path) (\<lambda>bs.
    lift (ok_or (case ticket_from bs of
            Some t \<Rightarrow> Some t | None \<Rightarrow> map_option lt_ticket (local_from bs)) JsonError))"

definition proof_verify ::
  "(bytes \<Rightarrow> bytes) \<Rightarrow> (string \<Rightarrow> bytes option) \<Rightarrow> (bytes \<Rightarrow> CohortProof option) \<Rightarrow> disk
     \<Rightarrow> string \<Rightarrow> string \<Rightarrow> u64 \<Rightarrow> unit command" where
  "proof_verify blake3 hex_decode from_slice dk path root round_id =
    bind_cmd (read_json dk from_slice path) (\<lambda>v.
    bind_cmd (lift (parse_digest hex_decode root)) (\<lambda>root.
    lift (map_err ProofError (CohortProof_verify blake3 v root round_id))))"

section \<open>Actions\<close>

definition first_program_id :: "PreparedAction \<Rightarrow> (bytes, CliError) result" where
  "first_program_id action =
    (case ac_program_ids action of [] \<Rightarrow> Err (Bail ''missing program id'') | p # _ \<Rightarrow> Ok p)"

text \<open>\<open>program\<close> parses the base-58 address of a program.\<close>

definition prepare_parameters ::
  "(string \<Rightarrow> bytes option) \<Rightarrow> ActionParameters \<Rightarrow> (PreparedAction, CliError) result" where
  "prepare_parameters program parameters =
    (case parameters of
       Memo _ \<Rightarrow>
         and_then (ok_or (program ''MemoSq4gqABAXKb96qnH8TysNcWxMyWCqXgDLGmfcHr'') PubkeyError) (\<lambda>p.
         map_err Action (MemoTemplate_prepare \<lparr>mt_memo_program_id = p\<rparr> parameters))
     | ComputeBudget _ _ \<Rightarrow>
         and_then (ok_or (program ''ComputeBudget111111111111111111111111111111'') PubkeyError) (\<lambda>p.
         map_err Action (ComputeBudget_prepare \<lparr>cb_compute_budget_program_id = p\<rparr> parameters))
     | LocalTokenHousekeeping _ _ \<Rightarrow>
         and_then (ok_or (program ''TokenkegQfeZyiNwAJbNbGKPFXCWuBvf9Ss623VQ5DA'') PubkeyError) (\<lambda>p.
         map_err Action (LocalToken_prepare \<lparr>lt_token_program_id = p\<rparr> parameters))
     | LocalStakeLifecycle _ _ \<Rightarrow>
         and_then (ok_or (program ''Stake11111111111111111111111111111111111111'') PubkeyError) (\<lambda>p.
         map_err Action (LocalStake_prepare \<lparr>ls_stake_program_id = p\<rparr> parameters)))"

definition action_prepare ::
  "(string \<Rightarrow> bytes option) \<Rightarrow> (bytes \<Rightarrow> ActionParameters option) \<Rightarrow> (PreparedAction \<Rightarrow> bytes option)
     \<Rightarrow> disk \<Rightarrow> string \<Rightarrow> string \<Rightarrow> PreparedAction command" where
  "action_prepare program from_slice pretty dk config output =
    bind_cmd (read_json dk from_slice config) (\<lambda>parameters.
    bind_cmd (lift (prepare_parameters program parameters)) (\<lambda>a.
    bind_cmd (write_new_json dk output (pretty a)) (\<lambda>_.
    lift (Ok a))))"

definition simulate_prepared :: "PreparedAction \<Rightarrow> (SimulationResult, CliError) result" where
  "simulate_prepared a =
    (if ac_template_id a = ''memo-v1'' then
       and_then (first_program_id a) (\<lambda>_. map_err Action (MemoTemplate_simulate a))
     else if ac_template_id a \<in> {''compute-budget-shape-v1'', ''local-token-housekeeping-v1'',
                                  ''local-stake-lifecycle-v1''}
     then and_then (first_program_id a) (\<lambda>_. map_err Action (bounded_simulation a))
     else Err (Bail ''unknown action template''))"

definition action_simulate ::
  "(bytes \<Rightarrow> PreparedAction option) \<Rightarrow> disk \<Rightarrow> string \<Rightarrow> SimulationResult command" where
  "action_simulate from_slice dk path =
    bind_cmd (read_json dk from_slice path) (\<lambda>a. lift (simulate_prepared a))"

text \<open>The files are only read; the calls made to the endpoint come with the result.\<close>

definition action_execute ::
  "bool \<Rightarrow> pubkey option \<Rightarrow> ('kp, 'tx) endpoint \<Rightarrow> (bytes \<Rightarrow> PreparedAction option) \<Rightarrow> disk \<Rightarrow> files
     \<Rightarrow> string \<Rightarrow> bool \<Rightarrow> bool \<Rightarrow> host \<Rightarrow> u64 \<Rightarrow> u64
     \<Rightarrow> 'tx call list \<times> (LocalExecutionReceipt, CliError) result" where
  "action_execute public_cluster memo ep from_slice dk fs path confirm enable_sending rpc_url
     window_start window_end =
    (if \<not> confirm \<or> \<not> enable_sending
     then ([], Err (Bail ''local sending requires --confirm and --enable-sending''))
     else case fst (read_json dk from_slice path fs) of
       Err e \<Rightarrow> ([], Err e)
     | Panic \<Rightarrow> ([], Panic)
     | Ok a \<Rightarrow>
         (case execute_local_memo public_cluster memo ep a rpc_url window_start window_end confirm
                 enable_sending of
            (calls, m) \<Rightarrow> (calls, map_err Client m)))"

section \<open>Evaluation and the coordinator\<close>

definition evaluate_scenario ::
  "u64 \<Rightarrow> u32 \<Rightarrow> BackendArg \<Rightarrow> u64 \<Rightarrow> 'f \<Rightarrow> 'f Scenario" where
  "evaluate_scenario seed participants backend window_slots dropout_rate =
    \<lparr>sc_scenario_version = 1, sc_seed = seed, sc_participant_count = participants,
     sc_backend = privacy_backend backend, sc_release_strategy = NarrowWindow,
     sc_execution_window_slots = window_slots, sc_dropout_rate = dropout_rate,
     sc_longitudinal_periods = 1, sc_observer_features = ObserverFeatures_default\<rparr>"

text \<open>\<open>to_string\<close> is the pretty JSON of a report, which is also printed.\<close>

definition evaluate_command ::
  "'f f64 \<Rightarrow> ('g, 'f) generator \<Rightarrow> (bytes \<Rightarrow> bytes) \<Rightarrow> ('f Observation list \<Rightarrow> bytes option)
     \<Rightarrow> ('f EvaluationReport \<Rightarrow> bytes option) \<Rightarrow> disk \<Rightarrow> u64 \<Rightarrow> u32 \<Rightarrow> BackendArg \<Rightarrow> u64 \<Rightarrow> 'f
     \<Rightarrow> string option \<Rightarrow> bytes command" where
  "evaluate_command F R blake3 to_vec to_string dk seed participants backend window_slots
     dropout_rate output =
    bind_cmd (lift (map_err Evaluation (evaluate F R blake3 to_vec
       (evaluate_scenario seed participants backend window_slots dropout_rate)))) (\<lambda>report.
    bind_cmd (lift (ok_or (to_string report) JsonError)) (\<lambda>json.
    bind_cmd (case output of None \<Rightarrow> lift (Ok ()) | Some path \<Rightarrow> write_file dk path json) (\<lambda>_.
    lift (Ok json))))"

text \<open>
  The checks of \<open>doctor\<close>. \<open>tool\<close> runs a command with \<open>--version\<close>: it may not start
  (\<open>None\<close>) or fail; \<open>health\<close> is the answer of the coordinator's health route, asked for
  when its address is given: no answer, or whether the status is a success.
\<close>

fun require_tools :: "(string \<Rightarrow> bool option) \<Rightarrow> string list \<Rightarrow> (unit, CliError) result" where
  "require_tools tool [] = Ok ()"
| "require_tools tool (t # ts) =
     and_then (ok_or (tool t) IoError) (\<lambda>success.
     and_then (ensure success (Bail (''required command failed: '' @ t))) (\<lambda>_.
     require_tools tool ts))"

definition doctor ::
  "(string \<Rightarrow> bool option) \<Rightarrow> RpcInspection client_result \<Rightarrow> bool option option \<Rightarrow> host
     \<Rightarrow> (RpcInspection, CliError) result" where
  "doctor tool rpc health rpc_url =
    (if rpc_url \<notin> {Some ''localhost'', Some ''127.0.0.1'', Some ''::1'', Some ''[::1]''}
     then Err (Bail ''canonical demo requires loopback RPC'')
     else
       and_then (require_tools tool [''rustc'', ''cargo'', ''solana'', ''solana-test-validator'']) (\<lambda>_.
       and_then (map_err Client rpc) (\<lambda>inspection.
       case health of
         None \<Rightarrow> Ok inspection
       | Some answer \<Rightarrow>
           and_then (ok_or answer IoError) (\<lambda>success.
           and_then (ensure success (Bail ''coordinator health check failed'')) (\<lambda>_.
           Ok inspection)))))"

definition coordinator_config ::
  "(string \<Rightarrow> bytes option) \<Rightarrow> string \<Rightarrow> string \<Rightarrow> u64 \<Rightarrow> u32 \<Rightarrow> u32 \<Rightarrow> string
     \<Rightarrow> (CoordinatorConfig, CliError) result" where
  "coordinator_config hex_decode pool_id template_hash round_id minimum maximum listen =
    and_then (parse_digest hex_decode pool_id) (\<lambda>pool.
    and_then (parse_digest hex_decode template_hash) (\<lambda>template.
    Ok \<lparr>cc_binding = \<lparr>tb_pool_id = pool, tb_round_id = round_id,
                       tb_action_template_hash = template\<rparr>,
        cc_listen = listen, cc_minimum_participants = minimum,
        cc_maximum_participants = maximum, cc_requests_per_minute = 120,
        cc_max_body_bytes = 16 * 1024\<rparr>))"

text \<open>The coordinator that is served: its configuration is read before the database is opened.\<close>

definition coordinator_start ::
  "(string \<Rightarrow> bytes option) \<Rightarrow> env \<Rightarrow> nat \<Rightarrow> string \<Rightarrow> string \<Rightarrow> u64 \<Rightarrow> u32 \<Rightarrow> u32 \<Rightarrow> string \<Rightarrow> Db
     \<Rightarrow> (Coordinator, CliError) result \<times> Db" where
  "coordinator_start hex_decode env now pool_id template_hash round_id minimum maximum listen db =
    (case coordinator_config hex_decode pool_id template_hash round_id minimum maximum listen of
       Ok config \<Rightarrow>
         (case open_store env db of
            (Ok _, db) \<Rightarrow> (Ok (Coordinator_new config db now), db)
          | (Err e, db) \<Rightarrow> (Err (Database e), db)
          | (Panic, db) \<Rightarrow> (Panic, db))
     | Err e \<Rightarrow> (Err e, db)
     | Panic \<Rightarrow> (Panic, db))"

section \<open>Files are never overwritten\<close>

lemma read_json_Ok_iff:
  "read_json dk from_slice path fs = (Ok a, fs') \<longleftrightarrow>
     fs' = fs \<and> \<not> dk_read_fails dk path
   \<and> (\<exists>f. fs path = Some f \<and> from_slice (fi_content f) = Some a)"
  by (auto simp: read_json_def read_file_def result_simps split: if_splits)

lemma write_new_Ok_iff:
  "write_new dk private path json fs = (Ok u, fs') \<longleftrightarrow>
     fs path = None \<and> \<not> dk_open_fails dk path \<and> dk_write_limit dk path = None
   \<and> (\<exists>bs. json = Some bs \<and> fs' = fs(path \<mapsto> \<lparr>fi_content = bs, fi_owner_only = private\<rparr>))"
  by (auto simp: write_new_def split: option.splits if_splits)

definition keeps_files :: "'a command \<Rightarrow> bool" where
  "keeps_files m \<longleftrightarrow> (\<forall>fs. fs \<subseteq>\<^sub>m snd (m fs))"

lemma keeps_lift [intro]: "keeps_files (lift m)"
  by (simp add: keeps_files_def lift_def)

lemma keeps_bind [intro]:
  assumes "keeps_files m" "\<And>a. keeps_files (k a)"
  shows "keeps_files (bind_cmd m k)"
proof -
  have "fs \<subseteq>\<^sub>m snd (bind_cmd m k fs)" for fs
  proof (cases "m fs")
    case (Pair r fs1)
    then have step: "fs \<subseteq>\<^sub>m fs1" using assms(1) unfolding keeps_files_def by (metis snd_conv)
    show ?thesis
    proof (cases r)
      case (Ok a)
      have "fs1 \<subseteq>\<^sub>m snd (k a fs1)" using assms(2) unfolding keeps_files_def by blast
      then show ?thesis using step Pair Ok map_le_trans by (simp add: bind_cmd_def)
    qed (use step Pair in \<open>simp_all add: bind_cmd_def\<close>)
  qed
  then show ?thesis by (simp add: keeps_files_def)
qed

lemma keeps_read [intro]: "keeps_files (read_file dk path)"
  by (simp add: keeps_files_def read_file_def)

lemma keeps_read_json [intro]: "keeps_files (read_json dk from_slice path)"
  unfolding read_json_def by blast

lemma keeps_write [intro]: "keeps_files (write_new dk private path json)"
  by (auto simp: keeps_files_def write_new_def map_le_def split: option.splits)

text \<open>
  No command of the participant's workflow overwrites or deletes a file: whatever fails on
  the way, every file that existed before pool creation, round opening, ticket creation or
  action preparation is there afterwards with the same content and mode.
\<close>

theorem cli_never_overwrites:
  "fs \<subseteq>\<^sub>m snd (pool_create blake3 to_vec pretty dk output authority memo random now minimum maximum
      backend registration window fs)
 \<and> fs \<subseteq>\<^sub>m snd (round_open blake3 to_vec from_slice pretty_round dk pool output round_id slot rpc fs)
 \<and> fs \<subseteq>\<^sub>m snd (ticket_create cr binding_from pretty_ticket dk binding output secret nonce fs)
 \<and> fs \<subseteq>\<^sub>m snd (action_prepare program params_from pretty_action dk config output fs)"
proof -
  have "keeps_files (pool_create blake3 to_vec pretty dk output authority memo random now minimum
      maximum backend registration window)"
    unfolding pool_create_def write_new_json_def Let_def by blast
  moreover have "keeps_files (round_open blake3 to_vec from_slice pretty_round dk pool output round_id
      slot rpc)"
    unfolding round_open_def write_new_json_def Let_def by blast
  moreover have "keeps_files (ticket_create cr binding_from pretty_ticket dk binding output secret nonce)"
    unfolding ticket_create_def write_private_def Let_def case_prod_beta by blast
  moreover have "keeps_files (action_prepare program params_from pretty_action dk config output)"
    unfolding action_prepare_def write_new_json_def by blast
  ultimately show ?thesis unfolding keeps_files_def by blast
qed

section \<open>The environment check\<close>

lemma require_tools_Ok_iff: "require_tools tool ts = Ok () \<longleftrightarrow> (\<forall>t \<in> set ts. tool t = Some True)"
  by (induction ts) (auto simp: result_simps ensure_def split: if_splits)

lemma doctor_Ok_iff:
  "doctor tool rpc health url = Ok i \<longleftrightarrow>
     is_loopback url \<and> rpc = Ok i \<and> (health = None \<or> health = Some (Some True))
   \<and> (\<forall>t \<in> {''rustc'', ''cargo'', ''solana'', ''solana-test-validator''}. tool t = Some True)"
  by (cases health)
    (auto simp: doctor_def result_simps require_tools_Ok_iff is_loopback_def split: if_splits)

section \<open>Pools and rounds on disk\<close>

definition disk_works :: "disk \<Rightarrow> bool" where
  "disk_works dk \<longleftrightarrow> (\<forall>p. \<not> dk_open_fails dk p \<and> \<not> dk_read_fails dk p \<and> dk_write_limit dk p = None
     \<and> \<not> dk_mkdir_fails dk p)"

lemma new_pool_config_bounds:
  "config_bounds (new_pool_config blake3 random authority memo minimum maximum backend registration
      window now\<lparr>pc_configuration_hash := h\<rparr>) \<longleftrightarrow>
     2 \<le> unat minimum \<and> unat minimum \<le> unat maximum \<and> unat maximum \<le> 100000
   \<and> 0 < unat registration \<and> 0 < unat window"
  by (auto simp: config_bounds_def new_pool_config_def SCHEMA_VERSION_def)

text \<open>
  The operator's workflow: with a working disk, serialisers that succeed and read back
  what they wrote, new output paths, participant bounds between 2 and 100000 and positive
  durations, creating a pool file and opening a round from it both succeed. The written pool
  validates; the round matches it, is open for registration until the given slot plus the
  pool's duration, without wrap-around, and satisfies the round invariant of the protocol
  under every later sequence of operations.
\<close>

theorem cli_opens_round:
  assumes "disk_works dk" "pool_path \<noteq> round_path" "fs pool_path = None" "fs round_path = None"
    and "\<forall>c. to_vec c \<noteq> None"
    and "\<forall>c bs. pretty c = Some bs \<longrightarrow> from_slice bs = Some c"
    and "\<forall>h. pretty (new_pool_config blake3 random authority memo minimum maximum backend
      registration window now\<lparr>pc_configuration_hash := h\<rparr>) \<noteq> None"
    and "\<forall>r. pretty_round r \<noteq> None"
    and "2 \<le> unat minimum" "unat minimum \<le> unat maximum" "unat maximum \<le> 100000"
    and "0 < unat registration" "0 < unat window"
    and "unat slot + unat registration < 2 ^ 64"
  shows "\<exists>config fs1 r fs2.
      pool_create blake3 to_vec pretty dk pool_path (Some authority) (Some memo) random now minimum
        maximum backend registration window fs = (Ok config, fs1)
    \<and> round_open blake3 to_vec from_slice pretty_round dk pool_path round_path round_id (Some slot)
        rpc fs1 = (Ok r, fs2)
    \<and> PoolConfig_validate blake3 to_vec config = Ok ()
    \<and> verify_round_configuration blake3 to_vec config r = Ok ()
    \<and> rd_state r = RoundState.Registration \<and> rd_round_id r = round_id
    \<and> unat (rd_registration_deadline_slot r) = unat slot + unat registration
    \<and> (\<forall>xs. round_inv config (round_calls config xs r))"
proof -
  let ?c0 = "new_pool_config blake3 random authority memo minimum maximum backend registration window now"
  obtain bs where "to_vec (?c0\<lparr>pc_configuration_hash := Digest32_default\<rparr>) = Some bs"
    using assms(5) by fastforce
  then obtain h where h: "PoolConfig_compute_hash blake3 to_vec ?c0 = Ok h"
    by (simp add: PoolConfig_compute_hash_def Let_def)
  define c where "c = ?c0\<lparr>pc_configuration_hash := h\<rparr>"
  have valid: "PoolConfig_validate blake3 to_vec c = Ok ()"
    unfolding validate_iff c_def new_pool_config_bounds using assms(9-13) h by simp
  have "pretty c \<noteq> None" using assms(7) by (simp add: c_def)
  then obtain json where json: "pretty c = Some json" "from_slice json = Some c"
    using assms(6) by blast
  let ?fs1 = "fs(pool_path \<mapsto> \<lparr>fi_content = json, fi_owner_only = False\<rparr>)"
  have created: "pool_create blake3 to_vec pretty dk pool_path (Some authority) (Some memo) random now
      minimum maximum backend registration window fs = (Ok c, ?fs1)"
    using assms(1,3) h valid json(1)
    by (simp add: pool_create_def bind_cmd_def lift_def write_new_json_def write_new_def disk_works_def
        c_def [symmetric] Let_def domIff)
  have dur: "pc_registration_duration_slots c = registration"
    by (simp add: c_def new_pool_config_def)
  define d where "d = slot + registration"
  have d: "checked_add slot registration = Some d"
    using assms(14) by (simp add: checked_add_Some_iff d_def)
  define r where "r = opened_round c round_id slot d"
  have cfg: "verify_round_configuration blake3 to_vec c r = Ok ()"
    by (simp add: verify_round_configuration_def valid r_def opened_round_def)
  obtain rj where rj: "pretty_round r = Some rj" using assms(8) by fastforce
  have opened: "round_open blake3 to_vec from_slice pretty_round dk pool_path round_path round_id
      (Some slot) rpc ?fs1 = (Ok r, ?fs1(round_path \<mapsto> \<lparr>fi_content = rj, fi_owner_only = False\<rparr>))"
    using assms(1,2,4) json(2) valid d cfg rj
    by (simp add: round_open_def read_json_def read_file_def bind_cmd_def lift_def write_new_json_def
        write_new_def disk_works_def dur r_def [symmetric] Let_def domIff)
  have "opened r" by (simp add: opened_def r_def opened_round_def)
  then have "\<forall>xs. round_inv c (round_calls c xs r)" using round_inv_opened round_inv_calls by blast
  then show ?thesis using created opened valid cfg checked_add_unat [OF d]
    by (intro exI conjI) (auto simp: r_def opened_round_def)
qed

definition good_disk :: disk where
  "good_disk = \<lparr>dk_open_fails = (\<lambda>_. False), dk_read_fails = (\<lambda>_. False),
     dk_write_limit = (\<lambda>_. None), dk_mkdir_fails = (\<lambda>_. False)\<rparr>"

lemma good_disk_works: "disk_works good_disk"
  by (simp add: disk_works_def good_disk_def)

definition demo_config :: PoolConfig where
  "demo_config = new_pool_config (\<lambda>bs. bs) [1] [2] [3] 10 1000 BackendArg.Merkle 100 4 7"

definition demo_pretty :: "PoolConfig \<Rightarrow> bytes option" where
  "demo_pretty c = (if c = demo_config\<lparr>pc_configuration_hash := pc_configuration_hash c\<rparr>
     then Some (digest_bytes (pc_configuration_hash c)) else None)"

definition demo_parse :: "bytes \<Rightarrow> PoolConfig option" where
  "demo_parse bs = Some (demo_config\<lparr>pc_configuration_hash := Digest32 bs\<rparr>)"

theorem cli_opens_round_witness:
  "\<exists>config fs1 r fs2.
      pool_create (\<lambda>bs. bs) (\<lambda>_. Some []) demo_pretty good_disk ''pool.json'' (Some [2]) (Some [3])
        [1] 7 10 1000 BackendArg.Merkle 100 4 Map.empty = (Ok config, fs1)
    \<and> round_open (\<lambda>bs. bs) (\<lambda>_. Some []) demo_parse (\<lambda>_. Some []) good_disk ''pool.json''
        ''round.json'' 0 (Some 50) (Err Rpc) fs1 = (Ok r, fs2)
    \<and> unat (rd_registration_deadline_slot r) = 150"
proof -
  have codec: "\<forall>c bs. demo_pretty c = Some bs \<longrightarrow> demo_parse bs = Some c"
    by (auto simp: demo_pretty_def demo_parse_def split: if_splits)
  have total: "\<forall>h. demo_pretty (new_pool_config (\<lambda>bs. bs) [1] [2] [3] 10 1000 BackendArg.Merkle 100 4 7
      \<lparr>pc_configuration_hash := h\<rparr>) \<noteq> None"
    unfolding demo_config_def [symmetric] by (simp add: demo_pretty_def)
  have "\<exists>config fs1 r fs2.
      pool_create (\<lambda>bs. bs) (\<lambda>_. Some []) demo_pretty good_disk ''pool.json'' (Some [2]) (Some [3])
        [1] 7 10 1000 BackendArg.Merkle 100 4 Map.empty = (Ok config, fs1)
    \<and> round_open (\<lambda>bs. bs) (\<lambda>_. Some []) demo_parse (\<lambda>_. Some []) good_disk ''pool.json''
        ''round.json'' 0 (Some 50) (Err Rpc) fs1 = (Ok r, fs2)
    \<and> PoolConfig_validate (\<lambda>bs. bs) (\<lambda>_. Some []) config = Ok ()
    \<and> verify_round_configuration (\<lambda>bs. bs) (\<lambda>_. Some []) config r = Ok ()
    \<and> rd_state r = RoundState.Registration \<and> rd_round_id r = 0
    \<and> unat (rd_registration_deadline_slot r) = unat (50 :: u64) + unat (100 :: u64)
    \<and> (\<forall>xs. round_inv config (round_calls config xs r))"
    by (rule cli_opens_round [OF good_disk_works _ _ _ _ codec total]) simp_all
  then show ?thesis by auto
qed

section \<open>Actions and tickets on disk\<close>

lemma prepare_parameters_driver:
  assumes "prepare_parameters program parameters = Ok a"
  obtains m c t st d where "d \<in> set (built_in_drivers id m c t st)" "dr_prepare d parameters = Ok a"
    "simulate_prepared a = map_err Action (dr_simulate d a)"
proof -
  note drivers = built_in_drivers_def MemoTemplate_driver_def ComputeBudget_driver_def
    LocalToken_driver_def LocalStake_driver_def
  note sim = simulate_prepared_def first_program_id_def
  show ?thesis
  proof (cases parameters)
    case (Memo x)
    then obtain p where "MemoTemplate_prepare \<lparr>mt_memo_program_id = p\<rparr> parameters = Ok a"
      using assms by (auto simp: prepare_parameters_def result_simps)
    then show ?thesis using that [of "MemoTemplate_driver id \<lparr>mt_memo_program_id = p\<rparr>" p]
      by (auto simp: drivers sim memo_prepare_Ok_iff)
  next
    case (ComputeBudget x y)
    then obtain p where "ComputeBudget_prepare \<lparr>cb_compute_budget_program_id = p\<rparr> parameters = Ok a"
      using assms by (auto simp: prepare_parameters_def result_simps)
    then show ?thesis
      using that [of "ComputeBudget_driver id \<lparr>cb_compute_budget_program_id = p\<rparr>" _ p]
      by (auto simp: drivers sim compute_prepare_Ok_iff)
  next
    case (LocalTokenHousekeeping x y)
    then obtain p where "LocalToken_prepare \<lparr>lt_token_program_id = p\<rparr> parameters = Ok a"
      using assms by (auto simp: prepare_parameters_def result_simps)
    then show ?thesis
      using that [of "LocalToken_driver id \<lparr>lt_token_program_id = p\<rparr>" _ _ p]
      by (auto simp: drivers sim token_prepare_Ok_iff)
  next
    case (LocalStakeLifecycle x y)
    then obtain p where "LocalStake_prepare \<lparr>ls_stake_program_id = p\<rparr> parameters = Ok a"
      using assms by (auto simp: prepare_parameters_def result_simps)
    then show ?thesis
      using that [of "LocalStake_driver id \<lparr>ls_stake_program_id = p\<rparr>" _ _ _ p]
      by (auto simp: drivers sim stake_prepare_Ok_iff)
  qed
qed

text \<open>
  What \<open>action prepare\<close> writes, \<open>action simulate\<close> accepts: with a serialiser that reads
  back what it wrote and readable files, simulating the written action returns a successful
  simulation and changes no file.
\<close>

theorem cli_prepared_simulates:
  assumes "action_prepare program params_from pretty dk config output fs = (Ok a, fs')"
    and "\<forall>a bs. pretty a = Some bs \<longrightarrow> from_slice bs = Some a" "disk_works dk"
  shows "\<exists>sim. action_simulate from_slice dk output fs' = (Ok sim, fs') \<and> sr_succeeded sim
    \<and> sr_estimated_fee_lamports sim = 5000"
proof -
  from assms(1) obtain params bs where prep: "prepare_parameters program params = Ok a"
    and fs': "pretty a = Some bs" "fs' output = Some \<lparr>fi_content = bs, fi_owner_only = False\<rparr>"
    by (auto simp: action_prepare_def result_simps read_json_Ok_iff write_new_json_def write_new_Ok_iff)
  from prep obtain m c t st d where d: "d \<in> set (built_in_drivers id m c t st)"
    "dr_prepare d params = Ok a" "simulate_prepared a = map_err Action (dr_simulate d a)"
    by (rule prepare_parameters_driver)
  obtain sim where "dr_simulate d a = Ok sim" "sr_succeeded sim" "sr_estimated_fee_lamports sim = 5000"
    using template_driver.simulates [OF built_in_driver [OF d(1)] d(2)] by blast
  moreover have "read_json dk from_slice output fs' = (Ok a, fs')"
    using assms(2,3) fs' by (simp add: read_json_Ok_iff disk_works_def)
  ultimately show ?thesis using d(3) by (simp add: action_simulate_def bind_cmd_def lift_def)
qed

text \<open>
  C36. A created ticket reaches the coordinator: the file \<open>ticket create\<close> writes is new and
  readable by its owner only, and \<open>ticket submit\<close> posts from it exactly the created ticket,
  which verifies against the binding at every slot before its expiry. (The file is not itself
  a bare ticket, or is read as the same one.)
\<close>

theorem cli_ticket_submits:
  assumes "ticket_create cr binding_from pretty dk binding output secret nonce fs = (Ok local, fs')"
    and "ed25519_correct cr" "disk_works dk"
    and "\<forall>l bs. pretty l = Some bs \<longrightarrow> local_from bs = Some l"
    and "\<forall>l bs t. pretty l = Some bs \<longrightarrow> ticket_from bs = Some t \<longrightarrow> t = lt_ticket l"
  shows "fs output = None
    \<and> (\<exists>f g b. fs' output = Some f \<and> fi_owner_only f
        \<and> fs binding = Some g \<and> binding_from (fi_content g) = Some b
        \<and> ticket_submission ticket_from local_from dk output fs' = (Ok (lt_ticket local), fs')
        \<and> (\<forall>slot < tf_expiry_slot b.
             JoinTicket_verify cr (lt_ticket local) slot (tf_binding b) = Ok ()))"
proof -
  from assms(1) obtain b t n bs g where
    created: "JoinTicket_create cr nonce (CoordinationSecret_signing_key cr (CoordinationSecret secret))
        (tb_pool_id (tf_binding b)) (tb_round_id (tf_binding b))
        (tb_action_template_hash (tf_binding b)) (tf_expiry_slot b) = Ok (t, n)"
    and fs: "fs output = None" "fs binding = Some g" "binding_from (fi_content g) = Some b"
    and bs: "pretty local = Some bs"
    and fs': "fs' output = Some \<lparr>fi_content = bs, fi_owner_only = True\<rparr>"
    and t: "lt_ticket local = t"
    by (auto simp: ticket_create_def create_join_ticket_def result_simps read_json_Ok_iff
        write_private_def write_new_Ok_iff Let_def)
  have "JoinTicket_verify cr t slot (tf_binding b) = Ok ()" if "slot < tf_expiry_slot b" for slot
    using created_ticket_outcome [OF assms(2) created, of "tf_binding b" slot] that by simp
  moreover have "ticket_submission ticket_from local_from dk output fs' = (Ok t, fs')"
  proof (cases "ticket_from bs")
    case None
    have "local_from bs = Some local" using assms(4) bs by blast
    then show ?thesis using None fs' assms(3) t
      by (simp add: ticket_submission_def read_file_def bind_cmd_def lift_def disk_works_def)
  next
    case (Some t')
    then have "t' = t" using assms(5) bs t by blast
    then show ?thesis using Some fs' assms(3)
      by (simp add: ticket_submission_def read_file_def bind_cmd_def lift_def disk_works_def)
  qed
  ultimately show ?thesis using fs fs' t by auto
qed

definition demo_files :: files where
  "demo_files = [''params.json'' \<mapsto> \<lparr>fi_content = [], fi_owner_only = False\<rparr>]"

theorem cli_prepared_simulates_witness:
  "\<exists>a fs'. action_prepare (\<lambda>_. Some [4]) (\<lambda>_. Some (LocalStakeLifecycle 5 True))
      (\<lambda>a. if ac_value a = 5 \<and> a = prepared ''local-stake-lifecycle-v1'' [[4]]
              (le_bytes 8 5 @ [1]) 100000 0 5 LocalOnly then Some [] else None)
      good_disk ''params.json'' ''action.json'' demo_files = (Ok a, fs')
    \<and> (\<exists>sim. action_simulate (\<lambda>_. Some (prepared ''local-stake-lifecycle-v1'' [[4]]
          (le_bytes 8 5 @ [1]) 100000 0 5 LocalOnly)) good_disk ''action.json'' fs' = (Ok sim, fs'))"
proof -
  let ?a = "prepared ''local-stake-lifecycle-v1'' [[4]] (le_bytes 8 5 @ [1]) 100000 0 5 LocalOnly"
  let ?pretty = "\<lambda>a. if ac_value a = 5 \<and> a = ?a then Some [] else None"
  have "\<exists>fs'. action_prepare (\<lambda>_. Some [4]) (\<lambda>_. Some (LocalStakeLifecycle 5 True)) ?pretty
      good_disk ''params.json'' ''action.json'' demo_files = (Ok ?a, fs')"
    by (simp add: action_prepare_def result_simps read_json_Ok_iff write_new_json_def write_new_Ok_iff
        demo_files_def good_disk_def prepare_parameters_def LocalStake_prepare_def bool_byte_def)
  then obtain fs' where prep: "action_prepare (\<lambda>_. Some [4]) (\<lambda>_. Some (LocalStakeLifecycle 5 True))
      ?pretty good_disk ''params.json'' ''action.json'' demo_files = (Ok ?a, fs')" by blast
  have "\<forall>a bs. ?pretty a = Some bs \<longrightarrow> Some ?a = Some a" by simp
  from cli_prepared_simulates [OF prep this good_disk_works] prep show ?thesis by blast
qed

definition demo_binding :: TicketBindingFile where
  "demo_binding = \<lparr>tf_binding = sample_binding, tf_expiry_slot = 100\<rparr>"

definition demo_local :: LocalTicket where
  "demo_local = \<lparr>lt_ticket = sample_ticket 9, lt_coordination_secret = replicate 32 9, lt_nonce = [9]\<rparr>"

theorem cli_ticket_submits_witness:
  "\<exists>fs'. ticket_submission (\<lambda>_. None) (\<lambda>_. Some demo_local) good_disk ''ticket.json'' fs'
      = (Ok (sample_ticket 9), fs')"
proof -
  let ?pretty = "\<lambda>l. if l = demo_local then Some [] else None"
  have "CoordinationSecret_signing_key sample_crypto (CoordinationSecret (replicate 32 9)) = replicate 32 9"
    by (simp add: CoordinationSecret_signing_key_def sample_crypto_def)
  moreover have "tb_pool_id sample_binding = Digest32 (replicate 32 1)" "tb_round_id sample_binding = 7"
    "tb_action_template_hash sample_binding = Digest32 (replicate 32 2)"
    by (simp_all add: sample_binding_def)
  ultimately have "\<exists>fs'. ticket_create sample_crypto (\<lambda>_. Some demo_binding) ?pretty good_disk
      ''params.json'' ''ticket.json'' (replicate 32 9) [9] demo_files = (Ok demo_local, fs')"
    by (simp add: ticket_create_def result_simps read_json_Ok_iff write_private_def write_new_Ok_iff
        demo_files_def good_disk_def Let_def create_join_ticket_def demo_binding_def
        sample_ticket_created demo_local_def)
  then obtain fs' where t: "ticket_create sample_crypto (\<lambda>_. Some demo_binding) ?pretty good_disk
      ''params.json'' ''ticket.json'' (replicate 32 9) [9] demo_files = (Ok demo_local, fs')" by blast
  have codec: "\<forall>l bs. ?pretty l = Some bs \<longrightarrow> Some demo_local = Some l" by simp
  have bare: "\<forall>l bs t. ?pretty l = Some bs \<longrightarrow> None = Some t \<longrightarrow> t = lt_ticket l" by simp
  have local: "lt_ticket demo_local = sample_ticket 9" by (simp add: demo_local_def)
  from cli_ticket_submits [where local_from = "\<lambda>_. Some demo_local" and ticket_from = "\<lambda>_. None",
      OF t sample_crypto_correct good_disk_works codec bare, unfolded local]
  show ?thesis by blast
qed

end
