(* ===== verification/MP_Xtask.thy ===== *)
theory MP_Xtask
  imports MP_CLI
begin

text \<open>
  The developer tasks (\<open>src/xtask/src/main.rs\<close>) as far as they decide something: the list of
  evaluated scenarios, the bounded waiting loops, the choice of a port range and the guarded
  sending of an instruction. The evidence files are in \<open>MP_Evidence\<close>, the demonstrations in
  \<open>MP_Demo\<close> and \<open>MP_Localnet\<close>.

  The endpoint and the operating system are arguments: a call takes the state of the outside
  world and returns its answer and the new state.
\<close>

section \<open>Scenarios\<close>

definition scenario :: "u32 \<Rightarrow> u64 \<Rightarrow> PrivacyBackend \<Rightarrow> 'f \<Rightarrow> 'f Scenario" where
  "scenario cnt seed backend dropout =
    \<lparr>sc_scenario_version = 1, sc_seed = seed, sc_participant_count = cnt, sc_backend = backend,
     sc_release_strategy = NarrowWindow, sc_execution_window_slots = 4, sc_dropout_rate = dropout,
     sc_longitudinal_periods = 1, sc_observer_features = ObserverFeatures_default\<rparr>"

definition baseline_scenario :: "'f f64 \<Rightarrow> nat \<Rightarrow> 'f Scenario" where
  "baseline_scenario F round =
    (scenario ([10, 100, 1000] ! (round mod 3))
       ([7, 42, 99] ! (round div 3 mod 3) + of_nat round)
       (if round mod 2 = 0 then PrivacyBackend.TransparentRegistry else PrivacyBackend.MerkleCohort)
       (if round mod 5 = 0 then f_decimal F 35 2 else f_decimal F 5 2))
     \<lparr>sc_release_strategy :=
        [FixedSlot, NarrowWindow, RandomizedWithinWindow, LatencyAware] ! (round mod 4),
      sc_execution_window_slots := (if round mod 3 = 0 then 20 else 4),
      sc_longitudinal_periods := (if round mod 4 = 0 then 10 else 1)\<rparr>"

definition control_scenario :: "'f f64 \<Rightarrow> 'f Scenario" where
  "control_scenario F =
     (scenario 1000 10000 PrivacyBackend.MerkleCohort (f_decimal F 1 1))\<lparr>sc_longitudinal_periods := 10\<rparr>"

definition ablations :: "ObserverFeatures list" where
  "ablations =
    (let full = ObserverFeatures_default in
     [full\<lparr>of_timing := False\<rparr>, full\<lparr>of_instruction_shape := False\<rparr>,
      full\<lparr>of_fee_behavior := False\<rparr>, full\<lparr>of_funding_graph := False\<rparr>,
      full\<lparr>of_amount_bucket := False\<rparr>, full\<lparr>of_historical_behavior := False\<rparr>])"

definition generated_scenarios :: "'f f64 \<Rightarrow> 'f Scenario list" where
  "generated_scenarios F =
     map (baseline_scenario F) [0..<120] @ [control_scenario F] @
     map (\<lambda>fs. (control_scenario F)\<lparr>sc_observer_features := fs\<rparr>) ablations"

section \<open>Waiting, ports, sending\<close>

text \<open>A call of the outside world returns its new state; \<open>None\<close> is a failed call.\<close>

definition request :: "('s \<Rightarrow> 'a option \<times> 's) \<Rightarrow> CliError \<Rightarrow> 's \<Rightarrow> ('a, CliError) result \<times> 's" where
  "request m e s = (case m s of (x, s') \<Rightarrow> (ok_or x e, s'))"

text \<open>The loops \<open>for _ in 0..200\<close> that return when a condition holds and bail out after the last.\<close>

fun poll ::
  "('s \<Rightarrow> (bool, CliError) result \<times> 's) \<Rightarrow> string \<Rightarrow> nat \<Rightarrow> 's \<Rightarrow> (unit, CliError) result \<times> 's" where
  "poll step msg 0 = lift (Err (Bail msg))"
| "poll step msg (Suc n) =
     bind_cmd step (\<lambda>ended. if ended then lift (Ok ()) else poll step msg n)"

definition slot_reached ::
  "('s \<Rightarrow> u64 option \<times> 's) \<Rightarrow> u64 \<Rightarrow> 's \<Rightarrow> (bool, CliError) result \<times> 's" where
  "slot_reached get_slot target =
     bind_cmd (request get_slot RpcError) (\<lambda>slot. lift (Ok (target \<le> slot)))"

definition wait_for_slot ::
  "('s \<Rightarrow> u64 option \<times> 's) \<Rightarrow> u64 \<Rightarrow> 's \<Rightarrow> (unit, CliError) result \<times> 's" where
  "wait_for_slot get_slot target =
     poll (slot_reached get_slot target) ''release slot timed out'' 200"

definition wait_for_validator ::
  "('s \<Rightarrow> bool \<times> 's) \<Rightarrow> 's \<Rightarrow> (unit, CliError) result \<times> 's" where
  "wait_for_validator ready =
     poll (request (\<lambda>s. case ready s of (b, s') \<Rightarrow> (Some b, s')) IoError)
       ''local validator startup timed out'' 200"

text \<open>The bases are \<open>(18_000..45_000).step_by(80)\<close>; \<open>bind\<close> tells which ports can be bound.\<close>

definition port_bases :: "u16 list" where
  "port_bases = map (\<lambda>k. of_nat (18000 + 80 * k)) [0..<338]"

definition ports_from :: "u16 \<Rightarrow> u16 list" where
  "ports_from base = map of_nat [unat base..<Suc (unat (saturating_add base 69))]"

definition available_ports ::
  "(u16 \<Rightarrow> bool) \<Rightarrow> (u16 \<times> u16 \<times> u16 \<times> u16 \<times> u16, CliError) result" where
  "available_ports bind =
    (case find (\<lambda>base. list_all bind (ports_from base)) port_bases of
       None \<Rightarrow> Err (Bail ''no isolated local validator port range available'')
     | Some base \<Rightarrow>
         Ok (base, saturating_add base 2, saturating_add base 3, saturating_add base 10,
             saturating_add base 69))"

definition send_instruction ::
  "('kp, 'tx) endpoint \<Rightarrow> 'kp \<Rightarrow> Instruction \<Rightarrow> 'tx call list \<times> (string, CliError) result" where
  "send_instruction ep signer instruction =
    (case ep_get_latest_blockhash ep of
       None \<Rightarrow> ([GetLatestBlockhash], Err RpcError)
     | Some blockhash \<Rightarrow>
         let tx = ep_new_signed_with_payer ep [instruction] signer blockhash in
         (case ep_simulate_transaction ep tx of
            None \<Rightarrow> ([GetLatestBlockhash, Simulate tx], Err RpcError)
          | Some ok \<Rightarrow>
              if \<not> ok then ([GetLatestBlockhash, Simulate tx], Err (Bail ''coordination simulation failed''))
              else ([GetLatestBlockhash, Simulate tx, Send tx],
                    ok_or (ep_send_and_confirm ep tx) RpcError)))"

section \<open>Waiting is bounded\<close>

text \<open>The answer to the call number \<open>k\<close> of a series that starts in the state \<open>s\<close>.\<close>

definition answer :: "('s \<Rightarrow> 'a \<times> 's) \<Rightarrow> 's \<Rightarrow> nat \<Rightarrow> 'a" where
  "answer m s k = fst (m (((snd \<circ> m) ^^ k) s))"

lemma answer_simps:
  "answer m s 0 = fst (m s)" "answer m s (Suc k) = answer m (snd (m s)) k"
  by (simp_all add: answer_def funpow_swap1 del: funpow.simps(2)) (simp add: funpow_Suc_right del: funpow.simps)

lemma poll_step:
  "poll step msg (Suc n) s = (case fst (step s) of
     Ok ended \<Rightarrow> if ended then (Ok (), snd (step s)) else poll step msg n (snd (step s))
   | Err e \<Rightarrow> (Err e, snd (step s)) | Panic \<Rightarrow> (Panic, snd (step s)))"
  by (simp add: bind_cmd_alt lift_def split: result.splits)

lemma poll_Ok_iff:
  "fst (poll step msg n s) = Ok () \<longleftrightarrow>
     (\<exists>k < n. answer step s k = Ok True \<and> (\<forall>j < k. answer step s j = Ok False))"
proof (induction n arbitrary: s)
  case (Suc n)
  have "(\<exists>k < Suc n. answer step s k = Ok True \<and> (\<forall>j < k. answer step s j = Ok False))
      \<longleftrightarrow> fst (step s) = Ok True \<or> fst (step s) = Ok False
          \<and> (\<exists>k < n. answer step (snd (step s)) k = Ok True
               \<and> (\<forall>j < k. answer step (snd (step s)) j = Ok False))"
    unfolding Ex_less_Suc2 by (auto simp: All_less_Suc2 answer_simps)
  then show ?case using Suc.IH [of "snd (step s)"]
    by (cases "fst (step s)") (auto simp: poll_step simp del: poll.simps)
qed (simp add: lift_def)

lemma poll_state: "\<exists>k \<le> n. snd (poll step msg n s) = ((snd \<circ> step) ^^ k) s"
proof (induction n arbitrary: s)
  case (Suc n)
  have iterate: "((snd \<circ> step) ^^ Suc j) s = ((snd \<circ> step) ^^ j) (snd (step s))" for j
    by (simp add: funpow_swap1)
  have one: "\<exists>k \<le> Suc n. snd (step s) = ((snd \<circ> step) ^^ k) s"
    using iterate [of 0] by (intro exI [of _ "Suc 0"]) simp
  obtain k where "k \<le> n" "snd (poll step msg n (snd (step s))) = ((snd \<circ> step) ^^ k) (snd (step s))"
    using Suc.IH by blast
  then have more: "\<exists>k \<le> Suc n. snd (poll step msg n (snd (step s))) = ((snd \<circ> step) ^^ k) s"
    using iterate [of k] by (intro exI [of _ "Suc k"]) simp
  have "snd (poll step msg (Suc n) s) = snd (step s)
      \<or> snd (poll step msg (Suc n) s) = snd (poll step msg n (snd (step s)))"
    unfolding poll_step by (cases "fst (step s)") simp_all
  then show ?case using one more by (metis (no_types))
qed (simp add: lift_def)

lemma poll_outcomes:
  assumes "\<And>s. fst (step s) \<in> {Ok True, Ok False, Err e}"
  shows "fst (poll step msg n s) \<in> {Ok (), Err e, Err (Bail msg)}"
proof (induction n arbitrary: s)
  case (Suc n)
  then show ?case using assms [of s] unfolding poll_step
    by (cases "fst (step s)") simp_all
qed (simp add: lift_def)

lemma slot_step:
  "fst (slot_reached get_slot target s)
     = (case fst (get_slot s) of None \<Rightarrow> Err RpcError | Some slot \<Rightarrow> Ok (target \<le> slot))"
  "snd \<circ> slot_reached get_slot target = snd \<circ> get_slot"
  by (auto simp: slot_reached_def bind_cmd_alt request_def lift_def fun_eq_iff
      split: prod.splits option.splits result.splits)

lemma first_below:
  "(\<exists>k < n. P k \<and> (\<forall>j < k. \<not> P j \<and> Q j)) \<longleftrightarrow> (\<exists>k < (n :: nat). P k \<and> (\<forall>j < k. Q j))"
proof
  assume "\<exists>k < n. P k \<and> (\<forall>j < k. Q j)"
  then obtain k where k: "k < n" "P k" "\<forall>j < k. Q j" by blast
  from k(2) obtain m where m: "P m" "\<forall>j < m. \<not> P j" using exists_least_iff [of P] by blast
  then have "m \<le> k" using k(2) not_less by blast
  then have "m < n" "\<forall>j < m. Q j" using k(1,3) by simp_all
  then show "\<exists>k < n. P k \<and> (\<forall>j < k. \<not> P j \<and> Q j)" using m by blast
qed blast

lemma wait_for_slot_Ok_iff:
  "fst (wait_for_slot get_slot target s) = Ok () \<longleftrightarrow>
     (\<exists>k < 200. (\<exists>slot. answer get_slot s k = Some slot \<and> target \<le> slot)
        \<and> (\<forall>j < k. answer get_slot s j \<noteq> None))"
proof -
  have ans: "answer (slot_reached get_slot target) s k
      = (case answer get_slot s k of None \<Rightarrow> Err RpcError | Some slot \<Rightarrow> Ok (target \<le> slot))" for k
    by (simp add: answer_def slot_step)
  have "(answer (slot_reached get_slot target) s k = Ok True)
      = (\<exists>slot. answer get_slot s k = Some slot \<and> target \<le> slot)"
    "(answer (slot_reached get_slot target) s k = Ok False)
      = (\<not> (\<exists>slot. answer get_slot s k = Some slot \<and> target \<le> slot) \<and> answer get_slot s k \<noteq> None)"
    for k
    unfolding ans by (auto split: option.splits)
  then show ?thesis unfolding wait_for_slot_def poll_Ok_iff by (simp only: first_below)
qed

lemma wait_for_slot_outcomes:
  "fst (wait_for_slot get_slot target s)
     \<in> {Ok (), Err RpcError, Err (Bail ''release slot timed out'')}"
  unfolding wait_for_slot_def by (rule poll_outcomes) (auto simp: slot_step split: option.splits)

lemma wait_for_slot_state:
  "\<exists>k \<le> 200. snd (wait_for_slot get_slot target s) = ((snd \<circ> get_slot) ^^ k) s"
  unfolding wait_for_slot_def
  using poll_state [of 200 "slot_reached get_slot target"] unfolding slot_step(2) .

lemma wait_for_validator_Ok_iff:
  "fst (wait_for_validator ready s) = Ok () \<longleftrightarrow> (\<exists>k < 200. answer ready s k)"
proof -
  let ?step = "request (\<lambda>s. case ready s of (b, s') \<Rightarrow> (Some b, s')) IoError"
  have step: "fst (?step s) = Ok (fst (ready s))" "snd \<circ> ?step = snd \<circ> ready" for s
    by (auto simp: request_def fun_eq_iff split: prod.splits)
  have "answer ?step s k = Ok (answer ready s k)" for k by (simp add: answer_def step)
  then show ?thesis
    unfolding wait_for_validator_def poll_Ok_iff
    using first_below [of 200 "answer ready s" "\<lambda>_. True"] by simp
qed

section \<open>The chosen ports are free\<close>

lemma port_base_bounds:
  assumes "base \<in> set port_bases"
  shows "18000 \<le> unat base" "unat base \<le> 44960" "unat (saturating_add base 69) = unat base + 69"
proof -
  obtain k where k: "k < 338" "base = of_nat (18000 + 80 * k)"
    using assms by (auto simp: port_bases_def)
  have "unat base = 18000 + 80 * k" unfolding k(2) using k(1) by (subst unat_of_nat) simp
  then show "18000 \<le> unat base" "unat base \<le> 44960" "unat (saturating_add base 69) = unat base + 69"
    using k(1) by (simp_all add: saturating_add_def unat_word_ariths)
qed

lemma ports_from_set:
  assumes "base \<in> set port_bases"
  shows "set (ports_from base) = {p. unat base \<le> unat p \<and> unat p \<le> unat base + 69}"
proof -
  note b = port_base_bounds [OF assms]
  have "p \<in> set (ports_from base)" if "unat base \<le> unat p" "unat p \<le> unat base + 69" for p
  proof -
    have "p = of_nat (unat p)" by simp
    then show ?thesis using that b(3) unfolding ports_from_def by force
  qed
  moreover have "unat base \<le> unat p \<and> unat p \<le> unat base + 69" if p: "p \<in> set (ports_from base)" for p
  proof -
    obtain n where n: "p = of_nat n" "unat base \<le> n" "n \<le> unat base + 69"
      using p b(3) unfolding ports_from_def by auto
    then have "unat p = n" using b(2) by (simp add: unat_of_nat)
    then show ?thesis using n by simp
  qed
  ultimately show ?thesis by blast
qed

text \<open>
  The developer tasks wait and search within bounds. Waiting for a slot makes at most 200
  requests: it succeeds exactly when one of the first 200 answers reaches the target and no
  earlier request failed, and reports a failed request or a timeout otherwise; waiting for
  the validator succeeds exactly when one of 200 probes does. A port range is chosen exactly
  when one exists, all its 70 ports are free, the three service ports and the dynamic range
  lie in it, and no port number saturates.
\<close>

theorem waiting_and_ports_bounded:
  "(fst (wait_for_slot get_slot target s) = Ok () \<longleftrightarrow>
      (\<exists>k < 200. (\<exists>slot. answer get_slot s k = Some slot \<and> target \<le> slot)
         \<and> (\<forall>j < k. answer get_slot s j \<noteq> None)))
 \<and> fst (wait_for_slot get_slot target s) \<in> {Ok (), Err RpcError, Err (Bail ''release slot timed out'')}
 \<and> (\<exists>k \<le> 200. snd (wait_for_slot get_slot target s) = ((snd \<circ> get_slot) ^^ k) s)
 \<and> (fst (wait_for_validator ready s) = Ok () \<longleftrightarrow> (\<exists>k < 200. answer ready s k))
 \<and> (case available_ports bind of
      Ok (rpc, faucet, gossip, dynamic_start, dynamic_end) \<Rightarrow>
        18000 \<le> unat rpc \<and> unat faucet = unat rpc + 2 \<and> unat gossip = unat rpc + 3
      \<and> unat dynamic_start = unat rpc + 10 \<and> unat dynamic_end = unat rpc + 69
      \<and> unat dynamic_end < 45030
      \<and> (\<forall>p. unat rpc \<le> unat p \<longrightarrow> unat p \<le> unat dynamic_end \<longrightarrow> bind p)
    | Err e \<Rightarrow> \<forall>base \<in> set port_bases. \<exists>p. unat base \<le> unat p \<and> unat p \<le> unat base + 69 \<and> \<not> bind p
    | Panic \<Rightarrow> False)"
proof -
  have "case available_ports bind of
      Ok (rpc, faucet, gossip, dynamic_start, dynamic_end) \<Rightarrow>
        18000 \<le> unat rpc \<and> unat faucet = unat rpc + 2 \<and> unat gossip = unat rpc + 3
      \<and> unat dynamic_start = unat rpc + 10 \<and> unat dynamic_end = unat rpc + 69
      \<and> unat dynamic_end < 45030
      \<and> (\<forall>p. unat rpc \<le> unat p \<longrightarrow> unat p \<le> unat dynamic_end \<longrightarrow> bind p)
    | Err e \<Rightarrow> \<forall>base \<in> set port_bases. \<exists>p. unat base \<le> unat p \<and> unat p \<le> unat base + 69 \<and> \<not> bind p
    | Panic \<Rightarrow> False"
  proof (cases "find (\<lambda>base. list_all bind (ports_from base)) port_bases")
    case None
    then have "\<exists>e. available_ports bind = Err e" by (simp add: available_ports_def)
    moreover have "\<exists>p. unat base \<le> unat p \<and> unat p \<le> unat base + 69 \<and> \<not> bind p"
      if "base \<in> set port_bases" for base
      using None that ports_from_set [OF that] by (auto simp: find_None_iff list_all_iff)
    ultimately show ?thesis by auto
  next
    case (Some base)
    then have base: "base \<in> set port_bases" "list_all bind (ports_from base)"
      by (auto simp: find_Some_iff)
    note b = port_base_bounds [OF base(1)]
    have "unat (saturating_add base k) = unat base + unat k" if "unat k \<le> 69" for k
      using b(2) that by (simp add: saturating_add_def unat_word_ariths)
    then show ?thesis using Some base b
      by (simp add: available_ports_def list_all_iff ports_from_set)
  qed
  then show ?thesis
    using wait_for_slot_Ok_iff wait_for_slot_outcomes wait_for_slot_state wait_for_validator_Ok_iff
    by (intro conjI) assumption+
qed

text \<open>Nothing is sent unless its simulation succeeded.\<close>

lemma send_instruction_simulates:
  assumes "send_instruction ep signer ins = (calls, m)" "Send tx \<in> set calls"
  shows "ep_simulate_transaction ep tx = Some True \<and> calls = [GetLatestBlockhash, Simulate tx, Send tx]"
  using assms by (auto simp: send_instruction_def Let_def split: option.splits if_splits)

definition sample_clock :: "u64 \<Rightarrow> u64 option \<times> u64" where
  "sample_clock slot = (Some slot, slot + 1)"

theorem waiting_and_ports_bounded_witness:
  "fst (wait_for_slot sample_clock 3 0) = Ok () \<and> fst (wait_for_slot (\<lambda>s. (None, s)) 3 ()) \<noteq> Ok ()
 \<and> is_ok (available_ports (\<lambda>_. True))"
proof -
  have "((snd \<circ> sample_clock) ^^ k) 0 = of_nat k" for k
    by (induction k) (simp_all add: sample_clock_def)
  then have "answer sample_clock 0 k = Some (of_nat k)" for k
    by (simp add: answer_def sample_clock_def)
  then have "fst (wait_for_slot sample_clock 3 0) = Ok ()"
    using waiting_and_ports_bounded [of sample_clock 3 0 "\<lambda>s. (True, s)" "\<lambda>_. True"]
    by (auto intro!: exI [of _ 3])
  moreover have "fst (wait_for_slot (\<lambda>s. (None, s)) 3 ()) \<noteq> Ok ()"
    using waiting_and_ports_bounded [of "\<lambda>s. (None, s)" 3 "()" "\<lambda>s. (True, s)" "\<lambda>_. True"]
    by (simp add: answer_def)
  moreover have "\<not> (\<forall>base \<in> set port_bases. \<exists>p. unat base \<le> unat p \<and> unat p \<le> unat base + 69 \<and> \<not> True)"
    by (simp add: port_bases_def)
  then have "is_ok (available_ports (\<lambda>_. True))"
    using waiting_and_ports_bounded [of "\<lambda>s. (None, s)" 3 "()" "\<lambda>s. (True, s)" "\<lambda>_. True"]
    by (cases "available_ports (\<lambda>_. True)") simp_all
  ultimately show ?thesis by blast
qed

end
