(* ===== verification/MP_Evidence.thy ===== *)
theory MP_Evidence
  imports MP_CLI MP_Xtask "HOL-Library.Sublist"
begin

text \<open>
  Evaluation reports on disk: \<open>report\<close> and \<open>init\<close> of the command line
  (\<open>src/crates/mirror-pool-cli/src/main.rs\<close>), \<open>generate\<close> and \<open>verify\<close> of the developer
  tasks (\<open>src/xtask/src/main.rs\<close>).

  The text of a float, the minimum and maximum of floats, JSON, the encoding of a CSV record,
  the hex form of a BLAKE3 hash and the lower-case text of some bytes are arguments.
\<close>

section \<open>Parameters and directories\<close>

record 'f evidence_env =
  ev_infinity :: 'f
  ev_min :: "'f \<Rightarrow> 'f \<Rightarrow> 'f"
  ev_max :: "'f \<Rightarrow> 'f \<Rightarrow> 'f"
  ev_show :: "'f \<Rightarrow> string"
  ev_show6 :: "'f \<Rightarrow> string"
  ev_csv_record :: "string list \<Rightarrow> bytes"
  ev_reports_json :: "'f EvaluationReport list \<Rightarrow> bytes option"
  ev_hash_hex :: "bytes \<Rightarrow> string"
  ev_lossy :: "bytes \<Rightarrow> string"
  ev_lowercase :: "string \<Rightarrow> string"

text \<open>The arguments of \<open>evaluate\<close>.\<close>

record ('g, 'f) lab =
  lb_f64 :: "'f f64"
  lb_rng :: "('g, 'f) generator"
  lb_blake3 :: "bytes \<Rightarrow> bytes"
  lb_trace :: "'f Observation list \<Rightarrow> bytes option"

definition lab_evaluate :: "('g, 'f) lab \<Rightarrow> 'f Scenario \<Rightarrow> ('f EvaluationReport, CliError) result" where
  "lab_evaluate lb s =
     map_err Evaluation (evaluate (lb_f64 lb) (lb_rng lb) (lb_blake3 lb) (lb_trace lb) s)"

type_synonym tree = "files \<times> string set"

definition on_files :: "'a command \<Rightarrow> tree \<Rightarrow> ('a, CliError) result \<times> tree" where
  "on_files m t = (case m (fst t) of (r, fs) \<Rightarrow> (r, fs, snd t))"

definition path_exists :: "string \<Rightarrow> tree \<Rightarrow> bool" where
  "path_exists path t \<longleftrightarrow> path \<in> dom (fst t) \<or> path \<in> snd t"

definition path_join :: "string \<Rightarrow> string \<Rightarrow> string" where
  "path_join directory name = directory @ CHR ''/'' # name"

definition ancestors :: "string \<Rightarrow> string list" where
  "ancestors path = map (\<lambda>n. take n path)
     (filter (\<lambda>n. n = length path \<or> path ! n = CHR ''/'') [1..<Suc (length path)])"

definition create_dir :: "disk \<Rightarrow> string \<Rightarrow> tree \<Rightarrow> (unit, CliError) result \<times> tree" where
  "create_dir dk path t =
    (if path_exists path t \<or> dk_mkdir_fails dk path then (Err IoError, t)
     else (Ok (), fst t, insert path (snd t)))"

definition create_dir_all :: "disk \<Rightarrow> string \<Rightarrow> tree \<Rightarrow> (unit, CliError) result \<times> tree" where
  "create_dir_all dk path t =
    (if dk_mkdir_fails dk path \<or> list_ex (\<lambda>p. p \<in> dom (fst t)) (ancestors path) then (Err IoError, t)
     else (Ok (), fst t, snd t \<union> set (ancestors path)))"

definition initialise :: "disk \<Rightarrow> string \<Rightarrow> tree \<Rightarrow> (unit, CliError) result \<times> tree" where
  "initialise dk directory t =
    (if path_exists directory t then (Err (Bail ''refusing to overwrite''), t)
     else
       bind_cmd (create_dir_all dk (path_join directory ''tickets'')) (\<lambda>_.
       bind_cmd (create_dir_all dk (path_join directory ''receipts'')) (\<lambda>_.
       on_files (write_file dk (path_join directory ''README.txt'')
         (ascii (''Private participant state. Never commit.'' @ [CHR 0x0A]))))) t)"

section \<open>Tables and summaries\<close>

fun debug_backend :: "PrivacyBackend \<Rightarrow> string" where
  "debug_backend PrivacyBackend.TransparentRegistry = ''TransparentRegistry''"
| "debug_backend PrivacyBackend.MerkleCohort = ''MerkleCohort''"

fun debug_strategy :: "ReleaseStrategy \<Rightarrow> string" where
  "debug_strategy FixedSlot = ''FixedSlot''"
| "debug_strategy NarrowWindow = ''NarrowWindow''"
| "debug_strategy RandomizedWithinWindow = ''RandomizedWithinWindow''"
| "debug_strategy LatencyAware = ''LatencyAware''"

definition minimum_entropy :: "'f evidence_env \<Rightarrow> 'f EvaluationReport list \<Rightarrow> 'f" where
  "minimum_entropy ev reports =
     foldl (ev_min ev) (ev_infinity ev) (map (\<lambda>r. em_normalized_entropy (er_metrics r)) reports)"

definition maximum_auc :: "'f f64 \<Rightarrow> 'f evidence_env \<Rightarrow> 'f EvaluationReport list \<Rightarrow> 'f" where
  "maximum_auc F ev reports =
     foldl (ev_max ev) (f_decimal F 0 0) (map (\<lambda>r. em_roc_auc (er_metrics r)) reports)"

text \<open>
  The CSV writer refuses a record whose number of fields differs from the first; what came
  before is flushed when it is dropped.
\<close>

definition write_csv :: "'f evidence_env \<Rightarrow> disk \<Rightarrow> string \<Rightarrow> string list list \<Rightarrow> unit command" where
  "write_csv ev dk path rows =
    (let width = length (hd rows); fits = takeWhile (\<lambda>r. length r = width) rows in
     bind_cmd (write_file dk path (concat (map (ev_csv_record ev) fits))) (\<lambda>_.
     lift (ensure (length fits = length rows) (Bail ''csv''))))"

definition report_header :: "string list" where
  "report_header = [''seed'', ''participants'', ''observed'', ''completion'', ''spread'',
     ''normalized_entropy'', ''minimum_k'', ''roc_auc'', ''trace_hash'']"

definition report_row ::
  "(bytes \<Rightarrow> string) \<Rightarrow> 'f evidence_env \<Rightarrow> 'f EvaluationReport \<Rightarrow> string list" where
  "report_row hex ev r =
    (let s = er_scenario r; m = er_metrics r in
     [show_nat (unat (sc_seed s)), show_nat (unat (sc_participant_count s)),
      show_nat (unat (em_observed_cohort_size m)), ev_show ev (em_completion_rate m),
      show_nat (unat (em_execution_spread_slots m)), ev_show ev (em_normalized_entropy m),
      show_nat (unat (em_minimum_k_anonymity m)), ev_show ev (em_roc_auc m),
      to_hex hex (er_trace_hash r)])"

definition report_markdown :: "'f f64 \<Rightarrow> 'f evidence_env \<Rightarrow> 'f EvaluationReport list \<Rightarrow> string" where
  "report_markdown F ev reports =
    (let nl = [CHR 0x0A] in
     ''# mirror-pool evaluation report'' @ nl @ nl
     @ ''- Scenarios: '' @ show_nat (length reports) @ nl
     @ ''- Minimum normalized entropy: '' @ ev_show6 ev (minimum_entropy ev reports) @ nl
     @ ''- Maximum ROC AUC (unfavorable): '' @ ev_show6 ev (maximum_auc F ev reports) @ nl @ nl
     @ ''Synthetic evaluation does not prove anonymity or unlinkability.'' @ nl)"

text \<open>
  \<open>report\<close> reads one report or a list of them and prints a summary, or writes the three
  formats into a new directory. Its result is the summary.
\<close>

definition report ::
  "'f f64 \<Rightarrow> (bytes \<Rightarrow> string) \<Rightarrow> 'f evidence_env \<Rightarrow> (bytes \<Rightarrow> 'f EvaluationReport list option)
     \<Rightarrow> (bytes \<Rightarrow> 'f EvaluationReport option) \<Rightarrow> disk \<Rightarrow> string \<Rightarrow> string option
     \<Rightarrow> tree \<Rightarrow> (string, CliError) result \<times> tree" where
  "report F hex ev list_from one_from dk input output_directory =
    bind_cmd (on_files (read_file dk input)) (\<lambda>bs.
    bind_cmd (lift (ok_or (case list_from bs of
        Some rs \<Rightarrow> Some rs | None \<Rightarrow> map_option (\<lambda>r. [r]) (one_from bs)) JsonError)) (\<lambda>reports.
    bind_cmd (lift (ensure (reports \<noteq> []) (Bail ''evaluation report is empty''))) (\<lambda>_.
    let markdown = report_markdown F ev reports in
    case output_directory of
      None \<Rightarrow> lift (Ok markdown)
    | Some directory \<Rightarrow>
        bind_cmd (\<lambda>t. (ensure (\<not> path_exists directory t) (Bail ''refusing to overwrite''), t)) (\<lambda>_.
        bind_cmd (create_dir dk directory) (\<lambda>_.
        bind_cmd (lift (ok_or (ev_reports_json ev reports) JsonError)) (\<lambda>json.
        bind_cmd (on_files (write_file dk (path_join directory ''report.json'') json)) (\<lambda>_.
        bind_cmd (on_files (write_file dk (path_join directory ''report.md'') (ascii markdown))) (\<lambda>_.
        bind_cmd (on_files (write_csv ev dk (path_join directory ''report.csv'')
          (report_header # map (report_row hex ev) reports))) (\<lambda>_.
        lift (Ok markdown))))))))))"

section \<open>Evidence\<close>

record LocalDemoResult =
  ld_submitted :: u32
  ld_confirmed :: u32
  ld_spread :: u64
  ld_program_id :: pubkey
  ld_deployment_signature :: string
  ld_receipt_hash :: Digest32

record Manifest =
  mf_version :: "int option"
  mf_scenario_count :: "u64 option"
  mf_pool_count :: "u64 option"
  mf_round_count :: "u64 option"
  mf_local_submitted_transactions :: "u64 option"
  mf_local_confirmed_transactions :: "u64 option"
  mf_local_execution_spread_slots :: "u64 option"
  mf_evaluation_json_blake3 :: "string option"
  mf_evaluation_csv_blake3 :: "string option"
  mf_evaluation_md_blake3 :: "string option"

fun evaluate_all ::
  "('g, 'f) lab \<Rightarrow> 'f Scenario list \<Rightarrow> ('f EvaluationReport list, CliError) result" where
  "evaluate_all lb [] = Ok []"
| "evaluate_all lb (s # ss) =
     and_then (lab_evaluate lb s) (\<lambda>r.
     and_then (evaluate_all lb ss) (\<lambda>rs. Ok (r # rs)))"

definition evidence_header :: "string list" where
  "evidence_header = [''version'', ''seed'', ''participants'', ''backend'', ''strategy'',
     ''window'', ''dropout'', ''observed'', ''completion'', ''spread'', ''entropy'',
     ''effective_set'', ''k'', ''auc'', ''fpr'', ''fnr'', ''trace_hash'']"

definition evidence_row ::
  "(bytes \<Rightarrow> string) \<Rightarrow> 'f evidence_env \<Rightarrow> 'f EvaluationReport \<Rightarrow> string list" where
  "evidence_row hex ev r =
    (let s = er_scenario r; m = er_metrics r in
     [show_nat (unat (sc_scenario_version s)), show_nat (unat (sc_seed s)),
      show_nat (unat (sc_participant_count s)), debug_backend (sc_backend s),
      debug_strategy (sc_release_strategy s), show_nat (unat (sc_execution_window_slots s)),
      ev_show ev (sc_dropout_rate s), show_nat (unat (em_observed_cohort_size m)),
      ev_show ev (em_completion_rate m), show_nat (unat (em_execution_spread_slots m)),
      ev_show ev (em_shannon_entropy m), ev_show ev (em_effective_anonymity_set m),
      show_nat (unat (em_minimum_k_anonymity m)), ev_show ev (em_roc_auc m),
      ev_show ev (em_false_positive_rate m), ev_show ev (em_false_negative_rate m),
      to_hex hex (er_trace_hash r)])"

definition evidence_markdown :: "'f f64 \<Rightarrow> 'f evidence_env \<Rightarrow> 'f EvaluationReport list \<Rightarrow> string" where
  "evidence_markdown F ev reports =
    (let nl = [CHR 0x0A] in
     ''# Synthetic adversarial evaluation'' @ nl @ nl
     @ ''- Scenarios: '' @ show_nat (length reports)
     @ '' (120 multi-round baselines + 1 ablation control + 6 same-seed feature ablations)'' @ nl
     @ ''- Cohort sizes: 10, 100, and 1,000 virtual participants'' @ nl
     @ ''- Minimum normalized entropy: '' @ ev_show6 ev (minimum_entropy ev reports) @ nl
     @ ''- Maximum adversarial AUC (unfavorable): '' @ ev_show6 ev (maximum_auc F ev reports)
     @ nl @ nl
     @ ''Synthetic results do not prove real-world anonymity. Larger announced cohorts are not ''
     @ ''automatically larger observed anonymity sets; dropouts and unique features reduce the ''
     @ ''effective set. Synchronization can itself be a detectable fingerprint.'' @ nl)"

definition generated_manifest ::
  "(bytes \<Rightarrow> string) \<Rightarrow> nat \<Rightarrow> LocalDemoResult option \<Rightarrow> bytes \<Rightarrow> bytes \<Rightarrow> bytes \<Rightarrow> Manifest" where
  "generated_manifest hash_hex reports demo json csv md =
    \<lparr>mf_version = Some 1, mf_scenario_count = Some (of_nat reports), mf_pool_count = Some 1,
     mf_round_count = Some 120,
     mf_local_submitted_transactions =
       Some (case demo of None \<Rightarrow> 0 | Some v \<Rightarrow> ucast (ld_submitted v)),
     mf_local_confirmed_transactions =
       Some (case demo of None \<Rightarrow> 0 | Some v \<Rightarrow> ucast (ld_confirmed v)),
     mf_local_execution_spread_slots = Some (case demo of None \<Rightarrow> 0 | Some v \<Rightarrow> ld_spread v),
     mf_evaluation_json_blake3 = Some (hash_hex json),
     mf_evaluation_csv_blake3 = Some (hash_hex csv),
     mf_evaluation_md_blake3 = Some (hash_hex md)\<rparr>"

text \<open>The result of \<open>generate\<close> is the number of evaluated scenarios it prints.\<close>

definition generate ::
  "('g, 'f) lab \<Rightarrow> (bytes \<Rightarrow> string) \<Rightarrow> 'f evidence_env \<Rightarrow> (Manifest \<Rightarrow> bytes option) \<Rightarrow> disk \<Rightarrow> string
     \<Rightarrow> LocalDemoResult option \<Rightarrow> tree \<Rightarrow> (nat, CliError) result \<times> tree" where
  "generate lb hex ev manifest_json dk path demo =
    bind_cmd (create_dir_all dk path) (\<lambda>_.
    bind_cmd (lift (evaluate_all lb (generated_scenarios (lb_f64 lb)))) (\<lambda>reports.
    bind_cmd (lift (ok_or (ev_reports_json ev reports) JsonError)) (\<lambda>json.
    bind_cmd (on_files (write_file dk (path_join path ''evaluation.json'') json)) (\<lambda>_.
    bind_cmd (on_files (write_csv ev dk (path_join path ''evaluation.csv'')
       (evidence_header # map (evidence_row hex ev) reports))) (\<lambda>_.
    bind_cmd (on_files (write_file dk (path_join path ''evaluation.md'')
       (ascii (evidence_markdown (lb_f64 lb) ev reports)))) (\<lambda>_.
    bind_cmd (on_files (read_file dk (path_join path ''evaluation.csv''))) (\<lambda>csv.
    bind_cmd (on_files (read_file dk (path_join path ''evaluation.md''))) (\<lambda>md.
    bind_cmd (lift (ok_or (manifest_json
       (generated_manifest (ev_hash_hex ev) (length reports) demo json csv md)) JsonError)) (\<lambda>mb.
    bind_cmd (on_files (write_file dk (path_join path ''manifest.json'') mb)) (\<lambda>_.
    lift (Ok (length reports))))))))))))"

definition unwrap_or :: "'a option \<Rightarrow> 'a \<Rightarrow> 'a" where
  "unwrap_or x d = (case x of None \<Rightarrow> d | Some v \<Rightarrow> v)"

definition sensitive_patterns :: "string list" where
  "sensitive_patterns = [''seed phrase'', ''private key'', ''passphrase'', ''/users/'']"

fun refuse_patterns :: "string list \<Rightarrow> string \<Rightarrow> (unit, CliError) result" where
  "refuse_patterns [] txt = Ok ()"
| "refuse_patterns (p # ps) txt =
     and_then (ensure (\<not> sublist p txt) (Bail (''sensitive pattern: '' @ p))) (\<lambda>_.
     refuse_patterns ps txt)"

definition manifest_checks ::
  "(bytes \<Rightarrow> string) \<Rightarrow> bytes \<Rightarrow> bytes \<Rightarrow> bytes \<Rightarrow> Manifest \<Rightarrow> bool list" where
  "manifest_checks hash_hex json csv md m =
    (let submitted = unwrap_or (mf_local_submitted_transactions m) 0;
         confirmed = unwrap_or (mf_local_confirmed_transactions m) 0;
         spread = unwrap_or (mf_local_execution_spread_slots m) 0 in
     [mf_version m = Some 1, unwrap_or (mf_scenario_count m) 0 \<ge> 127,
      unwrap_or (mf_pool_count m) 0 \<ge> 1, unwrap_or (mf_round_count m) 0 \<ge> 120,
      mf_evaluation_json_blake3 m = Some (hash_hex json),
      mf_evaluation_csv_blake3 m = Some (hash_hex csv),
      mf_evaluation_md_blake3 m = Some (hash_hex md),
      confirmed \<le> submitted, confirmed \<ge> 2 \<or> spread = 0])"

definition verify ::
  "'f evidence_env \<Rightarrow> (bytes \<Rightarrow> Manifest option) \<Rightarrow> disk \<Rightarrow> string \<Rightarrow> unit command" where
  "verify ev manifest_from dk path =
    bind_cmd (read_file dk (path_join path ''evaluation.json'')) (\<lambda>json.
    bind_cmd (read_file dk (path_join path ''evaluation.csv'')) (\<lambda>csv.
    bind_cmd (read_file dk (path_join path ''evaluation.md'')) (\<lambda>md.
    bind_cmd (read_file dk (path_join path ''manifest.json'')) (\<lambda>mb.
    bind_cmd (lift (ok_or (manifest_from mb) JsonError)) (\<lambda>m.
    bind_cmd (lift (ensure (list_all id (manifest_checks (ev_hash_hex ev) json csv md m))
       (Bail ''condition failed''))) (\<lambda>_.
    lift (refuse_patterns sensitive_patterns (ev_lowercase ev
       (ev_lossy ev json @ ev_lossy ev csv @ ev_lossy ev md @ ev_lossy ev mb)))))))))"

section \<open>Reading and writing\<close>

lemma write_file_works:
  assumes "disk_works dk"
  shows "\<exists>private. write_file dk path bs fs
    = (Ok (), fs(path \<mapsto> \<lparr>fi_content = bs, fi_owner_only = private\<rparr>))"
  using assms by (auto simp: write_file_def disk_works_def Let_def)

lemma read_file_Ok_iff:
  "read_file dk path fs = (Ok bs, fs') \<longleftrightarrow>
     fs' = fs \<and> \<not> dk_read_fails dk path \<and> (\<exists>f. fs path = Some f \<and> fi_content f = bs)"
  by (auto simp: read_file_def result_simps)

lemma on_files_Ok_iff [result_simps]:
  "on_files m t = (Ok a, t') \<longleftrightarrow> m (fst t) = (Ok a, fst t') \<and> snd t' = snd t"
  by (cases t') (auto simp: on_files_def split: prod.splits)

lemma on_files_Ok: "m (fst t) = (Ok a, fs') \<Longrightarrow> on_files m t = (Ok a, fs', snd t)"
  by (simp add: on_files_def)

text \<open>The other rows of a table have as many fields as its header.\<close>

definition rectangular :: "string list list \<Rightarrow> bool" where
  "rectangular rows \<longleftrightarrow> (\<forall>r \<in> set rows. length r = length (hd rows))"

lemma write_csv_works:
  assumes "disk_works dk" "rectangular rows"
  shows "\<exists>private. write_csv ev dk path rows fs
    = (Ok (), fs(path \<mapsto> \<lparr>fi_content = concat (map (ev_csv_record ev) rows), fi_owner_only = private\<rparr>))"
proof -
  have all: "takeWhile (\<lambda>r. length r = length (hd rows)) rows = rows"
    using assms(2) by (simp add: rectangular_def takeWhile_eq_all_conv)
  show ?thesis
    using write_file_works [OF assms(1), of path "concat (map (ev_csv_record ev) rows)" fs]
    unfolding write_csv_def Let_def all by (auto simp: bind_cmd_def lift_def)
qed

lemma report_table_rectangular: "rectangular (report_header # map (report_row hex ev) reports)"
  by (auto simp: rectangular_def report_header_def report_row_def Let_def)

lemma evidence_table_rectangular: "rectangular (evidence_header # map (evidence_row hex ev) reports)"
  by (auto simp: rectangular_def evidence_header_def evidence_row_def Let_def)

section \<open>Evidence that was generated is valid\<close>

lemma refuse_patterns_Ok_iff: "refuse_patterns ps txt = Ok () \<longleftrightarrow> (\<forall>p \<in> set ps. \<not> sublist p txt)"
  by (induction ps) (auto simp: result_simps)

definition evidence_file :: "files \<Rightarrow> string \<Rightarrow> string \<Rightarrow> bytes option" where
  "evidence_file fs path name = map_option fi_content (fs (path_join path name))"

definition evidence_text :: "'f evidence_env \<Rightarrow> bytes list \<Rightarrow> string" where
  "evidence_text ev bss = ev_lowercase ev (concat (map (ev_lossy ev) bss))"

lemma evidence_verify_Ok_iff:
  "verify ev manifest_from dk path fs = (Ok (), fs') \<longleftrightarrow> fs' = fs
   \<and> (\<forall>name \<in> {''evaluation.json'', ''evaluation.csv'', ''evaluation.md'', ''manifest.json''}.
        \<not> dk_read_fails dk (path_join path name))
   \<and> (\<exists>json csv md mb m. evidence_file fs path ''evaluation.json'' = Some json
        \<and> evidence_file fs path ''evaluation.csv'' = Some csv
        \<and> evidence_file fs path ''evaluation.md'' = Some md
        \<and> evidence_file fs path ''manifest.json'' = Some mb \<and> manifest_from mb = Some m
        \<and> list_all id (manifest_checks (ev_hash_hex ev) json csv md m)
        \<and> (\<forall>p \<in> set sensitive_patterns. \<not> sublist p (evidence_text ev [json, csv, md, mb])))"
  unfolding verify_def
  by (auto simp: result_simps read_file_Ok_iff refuse_patterns_Ok_iff evidence_file_def
      evidence_text_def)

definition demo_plausible :: "LocalDemoResult option \<Rightarrow> bool" where
  "demo_plausible demo \<longleftrightarrow> (case demo of
     None \<Rightarrow> True
   | Some v \<Rightarrow> ld_confirmed v \<le> ld_submitted v \<and> (2 \<le> ld_confirmed v \<or> ld_spread v = 0))"

lemma generated_manifest_checks:
  assumes "demo_plausible demo"
  shows "list_all id (manifest_checks hash_hex json csv md
    (generated_manifest hash_hex 127 demo json csv md))"
proof -
  have "unat (ucast (a :: u32) :: u64) = unat a" for a
  proof -
    have "unat a < 2 ^ 32" using unsigned_less [of a] by simp
    then show ?thesis by (simp add: unsigned_ucast_eq take_bit_nat_eq_self)
  qed
  then have mono: "(ucast (a :: u32) :: u64) \<le> ucast b \<longleftrightarrow> a \<le> b" for a b
    by (simp add: word_le_nat_alt)
  have "(2 :: u64) \<le> ucast (a :: u32) \<longleftrightarrow> 2 \<le> a" for a
    using mono [of 2 a] by simp
  then show ?thesis using assms mono
    by (auto simp: manifest_checks_def generated_manifest_def unwrap_or_def demo_plausible_def Let_def
        split: option.splits)
qed

lemma generated_scenarios_length: "length (generated_scenarios F) = 127"
  by (simp add: generated_scenarios_def ablations_def Let_def)

text \<open>The three dropout rates of the evaluation lie in the range the simulator accepts.\<close>

definition rates_ok :: "'f f64 \<Rightarrow> bool" where
  "rates_ok F \<longleftrightarrow> (\<forall>(m, k) \<in> {(35, 2), (5, 2), (1, 1)}.
     f_le F (f_decimal F 0 0) (f_decimal F m k) \<and> f_less F (f_decimal F m k) (f_decimal F 1 0))"

lemma baseline_choices:
  "[10, 100, 1000] ! (round mod 3) \<in> {10, 100, 1000 :: u32}"
  "(if round mod 3 = 0 then 20 else 4) \<in> {20, 4 :: u64}"
proof -
  have "round mod 3 \<in> {0, 1, 2}" by auto
  then show "[10, 100, 1000] ! (round mod 3) \<in> {10, 100, 1000 :: u32}" by auto
qed simp

lemma generated_scenarios_valid:
  assumes "rates_ok F" "s \<in> set (generated_scenarios F)"
  shows "validate F s = Ok () \<and> unat (sc_execution_window_slots s) \<le> 20"
proof -
  have count: "\<not> c < 2 \<and> \<not> 100000 < c" if "c \<in> {10, 100, 1000}" for c :: u32
    using that by auto
  have "validate F (baseline_scenario F round) = Ok ()
      \<and> unat (sc_execution_window_slots (baseline_scenario F round)) \<le> 20" for round
    using assms(1) count [OF baseline_choices(1) [of round]]
    by (auto simp: validate_def baseline_scenario_def scenario_def rates_ok_def)
  moreover have "validate F ((control_scenario F)\<lparr>sc_observer_features := fs\<rparr>) = Ok ()" for fs
    using assms(1) by (auto simp: validate_def control_scenario_def scenario_def rates_ok_def)
  moreover have "control_scenario F = (control_scenario F)\<lparr>sc_observer_features := ObserverFeatures_default\<rparr>"
    by (simp add: control_scenario_def scenario_def)
  moreover have "sc_execution_window_slots (control_scenario F) = 4"
    by (simp add: control_scenario_def scenario_def)
  ultimately show ?thesis using assms(2)
    by (auto simp: generated_scenarios_def) metis
qed

definition lab_ok :: "('g, 'f) lab \<Rightarrow> bool" where
  "lab_ok lb \<longleftrightarrow> rng_ok (lb_rng lb) \<and> f64_index_ok (lb_f64 lb) \<and> rates_ok (lb_f64 lb)
     \<and> (\<forall>os. lb_trace lb os \<noteq> None)"

lemma lab_evaluate_total:
  assumes "lab_ok lb" "validate (lb_f64 lb) s = Ok ()" "unat (sc_execution_window_slots s) \<le> 20"
  shows "\<exists>r. lab_evaluate lb s = Ok r"
proof -
  have "10000 + unat (sc_execution_window_slots s) < 2 ^ 64" using assms(3) by simp
  with evaluate_returns [of "lb_rng lb" "lb_f64 lb" "lb_trace lb" s] assms
  obtain r where "evaluate (lb_f64 lb) (lb_rng lb) (lb_blake3 lb) (lb_trace lb) s = Ok r"
    unfolding lab_ok_def by blast
  then show ?thesis by (simp add: lab_evaluate_def result_simps)
qed

lemma evaluate_all_total:
  assumes "\<forall>s \<in> set ss. \<exists>r. lab_evaluate lb s = Ok r"
  shows "\<exists>rs. evaluate_all lb ss = Ok rs \<and> length rs = length ss"
  using assms by (induction ss) auto

lemma generated_reports:
  assumes "lab_ok lb"
  obtains rs where "evaluate_all lb (generated_scenarios (lb_f64 lb)) = Ok rs" "length rs = 127"
proof -
  have "\<forall>s \<in> set (generated_scenarios (lb_f64 lb)). \<exists>r. lab_evaluate lb s = Ok r"
    using assms generated_scenarios_valid lab_evaluate_total unfolding lab_ok_def by metis
  with that show ?thesis using evaluate_all_total generated_scenarios_length by metis
qed

lemma path_join_eq [simp]: "path_join d a = path_join d b \<longleftrightarrow> a = b"
  by (simp add: path_join_def)

lemma write_file_total:
  assumes "disk_works dk"
  obtains fs' where "write_file dk path bs fs = (Ok (), fs')" "map_option fi_content (fs' path) = Some bs"
    "\<forall>q. q \<noteq> path \<longrightarrow> fs' q = fs q"
proof -
  from write_file_works [OF assms] obtain own where w: "write_file dk path bs fs
      = (Ok (), fs(path \<mapsto> \<lparr>fi_content = bs, fi_owner_only = own\<rparr>))"
    by blast
  show ?thesis by (rule that [OF w]) simp_all
qed

lemma write_csv_total:
  assumes "disk_works dk" "rectangular rows"
  obtains fs' where "write_csv ev dk path rows fs = (Ok (), fs')"
    "map_option fi_content (fs' path) = Some (concat (map (ev_csv_record ev) rows))"
    "\<forall>q. q \<noteq> path \<longrightarrow> fs' q = fs q"
proof -
  from write_csv_works [OF assms] obtain own where w: "write_csv ev dk path rows fs
      = (Ok (), fs(path \<mapsto> \<lparr>fi_content = concat (map (ev_csv_record ev) rows), fi_owner_only = own\<rparr>))"
    by blast
  show ?thesis by (rule that [OF w]) simp_all
qed

text \<open>What \<open>generate\<close> leaves on disk.\<close>

lemma generate_writes:
  assumes "disk_works dk" "lab_ok lb" "\<forall>q \<in> set (ancestors path). fst t q = None"
    and "\<forall>rs. ev_reports_json ev rs \<noteq> None"
    and "\<forall>json csv md. manifest_json (generated_manifest (ev_hash_hex ev) 127 demo json csv md) \<noteq> None"
  obtains t' json csv md mb where "generate lb hex ev manifest_json dk path demo t = (Ok 127, t')"
    "manifest_json (generated_manifest (ev_hash_hex ev) 127 demo json csv md) = Some mb"
    "evidence_file (fst t') path ''evaluation.json'' = Some json"
    "evidence_file (fst t') path ''evaluation.csv'' = Some csv"
    "evidence_file (fst t') path ''evaluation.md'' = Some md"
    "evidence_file (fst t') path ''manifest.json'' = Some mb"
proof -
  obtain rs where rs: "evaluate_all lb (generated_scenarios (lb_f64 lb)) = Ok rs" "length rs = 127"
    using generated_reports [OF assms(2)] by blast
  obtain json where json: "ev_reports_json ev rs = Some json" using assms(4) by fastforce
  define rows where "rows = evidence_header # map (evidence_row hex ev) rs"
  define csv where "csv = concat (map (ev_csv_record ev) rows)"
  define md where "md = ascii (evidence_markdown (lb_f64 lb) ev rs)"
  obtain mb where mb: "manifest_json (generated_manifest (ev_hash_hex ev) 127 demo json csv md) = Some mb"
    using assms(5) by fastforce
  let ?p = "path_join path"
  obtain f1 where f1: "write_file dk (?p ''evaluation.json'') json (fst t) = (Ok (), f1)"
    "map_option fi_content (f1 (?p ''evaluation.json'')) = Some json"
    "\<forall>q. q \<noteq> ?p ''evaluation.json'' \<longrightarrow> f1 q = fst t q"
    by (rule write_file_total [OF assms(1)])
  obtain f2 where f2: "write_csv ev dk (?p ''evaluation.csv'') rows f1 = (Ok (), f2)"
    "map_option fi_content (f2 (?p ''evaluation.csv'')) = Some csv"
    "\<forall>q. q \<noteq> ?p ''evaluation.csv'' \<longrightarrow> f2 q = f1 q"
    unfolding csv_def rows_def by (rule write_csv_total [OF assms(1) evidence_table_rectangular])
  obtain f3 where f3: "write_file dk (?p ''evaluation.md'') md f2 = (Ok (), f3)"
    "map_option fi_content (f3 (?p ''evaluation.md'')) = Some md"
    "\<forall>q. q \<noteq> ?p ''evaluation.md'' \<longrightarrow> f3 q = f2 q"
    by (rule write_file_total [OF assms(1)])
  obtain f4 where f4: "write_file dk (?p ''manifest.json'') mb f3 = (Ok (), f4)"
    "map_option fi_content (f4 (?p ''manifest.json'')) = Some mb"
    "\<forall>q. q \<noteq> ?p ''manifest.json'' \<longrightarrow> f4 q = f3 q"
    by (rule write_file_total [OF assms(1)])
  let ?t' = "(f4, snd t \<union> set (ancestors path))"
  have dirs: "create_dir_all dk path t = (Ok (), fst t, snd t \<union> set (ancestors path))"
    using assms(1,3) by (auto simp: create_dir_all_def disk_works_def list_ex_iff)
  have reads: "read_file dk (?p ''evaluation.csv'') f3 = (Ok csv, f3)"
    "read_file dk (?p ''evaluation.md'') f3 = (Ok md, f3)"
    using f2(2) f3(2,3) assms(1) by (simp_all add: read_file_Ok_iff disk_works_def)
  have "generate lb hex ev manifest_json dk path demo t = (Ok 127, ?t')"
    unfolding generate_def
    using rows_def [symmetric] md_def [symmetric] dirs rs json mb f1(1) f2(1) f3(1) f4(1) reads
    by (simp add: bind_cmd_Ok on_files_Ok lift_def)
  then show ?thesis
    using that [of ?t' json csv md mb] mb f1(2) f2(2,3) f3(2,3) f4(2,3)
    by (simp add: evidence_file_def)
qed

text \<open>
  C39. Evidence that \<open>generate\<close> wrote passes \<open>verify\<close>: on a working disk, with serialisers that
  succeed, a manifest that is read back as written, and the floating-point and random numbers
  within their documented ranges, all 127 scenarios are accepted and evaluated and the four
  files are written. If the numbers of the local demonstration are plausible, their
  verification succeeds exactly when no sensitive pattern occurs in the files.
\<close>

theorem generated_evidence_verifies:
  assumes "disk_works dk" "lab_ok lb" "\<forall>q \<in> set (ancestors path). fst t q = None"
    and "\<forall>rs. ev_reports_json ev rs \<noteq> None"
    and "\<forall>json csv md. manifest_json (generated_manifest (ev_hash_hex ev) 127 demo json csv md) \<noteq> None"
    and "\<forall>m bs. manifest_json m = Some bs \<longrightarrow> manifest_from bs = Some m"
    and "demo_plausible demo"
  shows "\<exists>t' bss. generate lb hex ev manifest_json dk path demo t = (Ok 127, t')
    \<and> map (evidence_file (fst t') path)
        [''evaluation.json'', ''evaluation.csv'', ''evaluation.md'', ''manifest.json''] = map Some bss
    \<and> (verify ev manifest_from dk path (fst t') = (Ok (), fst t') \<longleftrightarrow>
        (\<forall>p \<in> set sensitive_patterns. \<not> sublist p (evidence_text ev bss)))"
proof -
  from assms(1-5) obtain t' json csv md mb where
    gen: "generate lb hex ev manifest_json dk path demo t = (Ok 127, t')"
    and mb: "manifest_json (generated_manifest (ev_hash_hex ev) 127 demo json csv md) = Some mb"
    and written: "evidence_file (fst t') path ''evaluation.json'' = Some json"
      "evidence_file (fst t') path ''evaluation.csv'' = Some csv"
      "evidence_file (fst t') path ''evaluation.md'' = Some md"
      "evidence_file (fst t') path ''manifest.json'' = Some mb"
    by (rule generate_writes)
  have m: "manifest_from mb = Some (generated_manifest (ev_hash_hex ev) 127 demo json csv md)"
    using assms(6) mb by blast
  have "verify ev manifest_from dk path (fst t') = (Ok (), fst t') \<longleftrightarrow>
      (\<forall>p \<in> set sensitive_patterns. \<not> sublist p (evidence_text ev [json, csv, md, mb]))"
    unfolding evidence_verify_Ok_iff
    using written m assms(1) generated_manifest_checks [OF assms(7), of "ev_hash_hex ev" json csv md]
    by (simp add: disk_works_def)
  then show ?thesis using gen written
    by (intro exI [of _ t'] exI [of _ "[json, csv, md, mb]"]) simp
qed

text \<open>
  C40. Verified evidence cannot be replaced: if a directory verifies and verifies again after
  its three evaluation files were changed while the manifest stayed, then each changed file
  exhibits two different contents with the same hash.
\<close>

theorem evidence_tamper_evident:
  assumes "verify ev manifest_from dk path fs = (Ok (), fs)"
    and "verify ev manifest_from dk' path fs' = (Ok (), fs')"
    and "evidence_file fs' path ''manifest.json'' = evidence_file fs path ''manifest.json''"
    and "name \<in> {''evaluation.json'', ''evaluation.csv'', ''evaluation.md''}"
    and "evidence_file fs' path name \<noteq> evidence_file fs path name"
  shows "\<exists>a b. evidence_file fs path name = Some a \<and> evidence_file fs' path name = Some b \<and> a \<noteq> b
    \<and> ev_hash_hex ev a = ev_hash_hex ev b"
  using assms unfolding evidence_verify_Ok_iff by (auto simp: manifest_checks_def Let_def)

section \<open>Reports and the participant's directory\<close>

text \<open>A command that changes files below one directory only.\<close>

definition writes_under :: "string \<Rightarrow> (tree \<Rightarrow> ('a, CliError) result \<times> tree) \<Rightarrow> bool" where
  "writes_under d m \<longleftrightarrow> (\<forall>t q. (\<forall>n. q \<noteq> path_join d n) \<longrightarrow> fst (snd (m t)) q = fst t q)"

lemma under_lift [intro]: "writes_under d (lift r)"
  by (simp add: writes_under_def lift_def)

lemma under_check [intro]: "writes_under d (\<lambda>t. (c t, t))"
  by (simp add: writes_under_def)

lemma under_bind [intro]:
  assumes "writes_under d m" "\<And>a. writes_under d (k a)"
  shows "writes_under d (bind_cmd m k)"
  unfolding writes_under_def
proof (intro allI impI)
  fix t q assume q: "\<forall>n. q \<noteq> path_join d n"
  obtain r t1 where m: "m t = (r, t1)" by (cases "m t")
  then have "fst t1 q = fst t q" using assms(1) q unfolding writes_under_def by (metis snd_conv)
  moreover have "fst (snd (k a t1)) q = fst t1 q" for a
    using assms(2) q unfolding writes_under_def by blast
  ultimately show "fst (snd (bind_cmd m k t)) q = fst t q"
    using m by (cases r) (simp_all add: bind_cmd_def)
qed

lemma under_read [intro]: "writes_under d (on_files (read_file dk p))"
  by (simp add: writes_under_def on_files_def read_file_def)

lemma under_write [intro]: "writes_under d (on_files (write_file dk (path_join d n) bs))"
  by (auto simp: writes_under_def on_files_def write_file_def Let_def split: option.splits)

lemma under_csv [intro]: "writes_under d (on_files (write_csv ev dk (path_join d n) rows))"
  by (auto simp: writes_under_def on_files_def write_csv_def write_file_def Let_def bind_cmd_def
      lift_def ensure_def split: option.splits)

lemma under_create [intro]: "writes_under d (create_dir dk p)" "writes_under d (create_dir_all dk p)"
  by (simp_all add: writes_under_def create_dir_def create_dir_all_def)

lemmas under_intros = under_lift under_check under_bind under_read under_write under_csv under_create

text \<open>The directory of every file exists.\<close>

definition tree_ok :: "tree \<Rightarrow> bool" where
  "tree_ok t \<longleftrightarrow> (\<forall>d n. path_join d n \<in> dom (fst t) \<longrightarrow> d \<in> snd t)"

lemma writes_under_new:
  assumes "writes_under d m" "tree_ok t" "\<not> path_exists d t"
  shows "fst t \<subseteq>\<^sub>m fst (snd (m t))"
proof -
  have "\<forall>n. q \<noteq> path_join d n" if "q \<in> dom (fst t)" for q
    using assms(2,3) that unfolding tree_ok_def path_exists_def by blast
  then show ?thesis using assms(1) unfolding map_le_def writes_under_def by metis
qed

lemma report_under: "writes_under d (report F hex ev list_from one_from dk input (Some d))"
  unfolding report_def Let_def option.case by (intro under_intros)

lemma on_files_read: "on_files (read_file dk input) t = (fst (read_file dk input (fst t)), t)"
  by (cases t) (simp add: on_files_def read_file_def)

lemma report_prints: "snd (report F hex ev list_from one_from dk input None t) = t"
  by (auto simp: report_def bind_cmd_def on_files_read lift_def Let_def split: result.splits)

lemma report_refuses:
  assumes "path_exists d t"
  shows "\<exists>r. report F hex ev list_from one_from dk input (Some d) t = (r, t) \<and> (\<forall>s. r \<noteq> Ok s)"
proof (cases "fst (read_file dk input (fst t))")
  case (Ok bs)
  then show ?thesis using assms
    by (cases "case list_from bs of Some rs \<Rightarrow> Some rs | None \<Rightarrow> map_option (\<lambda>r. [r]) (one_from bs)")
      (simp_all add: report_def bind_cmd_def on_files_read lift_def ensure_def Let_def)
qed (simp_all add: report_def bind_cmd_def on_files_read)

text \<open>
  Neither \<open>report\<close> nor \<open>init\<close> touches a file that was there: in a tree in which the
  directory of every file exists, both refuse an output directory that exists and otherwise
  write only below the new one, whatever fails on the way.
\<close>

theorem report_keeps_files:
  assumes "tree_ok t"
  shows "fst t \<subseteq>\<^sub>m fst (snd (report F hex ev list_from one_from dk input out t))
    \<and> fst t \<subseteq>\<^sub>m fst (snd (initialise dk directory t))
    \<and> (path_exists directory t \<longrightarrow>
        (\<exists>r. report F hex ev list_from one_from dk input (Some directory) t = (r, t) \<and> (\<forall>s. r \<noteq> Ok s))
      \<and> initialise dk directory t = (Err (Bail ''refusing to overwrite''), t))"
proof -
  have "fst t \<subseteq>\<^sub>m fst (snd (report F hex ev list_from one_from dk input out t))"
  proof (cases out)
    case None
    then show ?thesis by (simp add: report_prints)
  next
    case (Some d)
    then show ?thesis
      using report_refuses [of d t F hex ev list_from one_from dk input]
        writes_under_new [OF report_under assms, of d F hex ev list_from one_from dk input]
      by (cases "path_exists d t") auto
  qed
  moreover have "fst t \<subseteq>\<^sub>m fst (snd (initialise dk directory t))"
  proof (cases "path_exists directory t")
    case False
    have "writes_under directory (bind_cmd (create_dir_all dk (path_join directory ''tickets'')) (\<lambda>_.
       bind_cmd (create_dir_all dk (path_join directory ''receipts'')) (\<lambda>_.
       on_files (write_file dk (path_join directory ''README.txt'')
         (ascii (''Private participant state. Never commit.'' @ [CHR 0x0A]))))))" by (intro under_intros)
    from writes_under_new [OF this assms False] False show ?thesis by (simp add: initialise_def)
  qed (simp add: initialise_def)
  moreover have "\<exists>r. report F hex ev list_from one_from dk input (Some directory) t = (r, t) \<and> (\<forall>s. r \<noteq> Ok s)"
    "initialise dk directory t = (Err (Bail ''refusing to overwrite''), t)"
    if "path_exists directory t"
    using that report_refuses by (blast, simp add: initialise_def)
  ultimately show ?thesis by blast
qed

section \<open>Instances\<close>

text \<open>Tables and reports rendered as nothing, a constant hash and ASCII lower case.\<close>

definition demo_evidence :: "int evidence_env" where
  "demo_evidence = \<lparr>ev_infinity = 10 ^ 9, ev_min = min, ev_max = max, ev_show = (\<lambda>_. ''0''),
     ev_show6 = (\<lambda>_. ''0''), ev_csv_record = (\<lambda>_. []), ev_reports_json = (\<lambda>_. Some []),
     ev_hash_hex = (\<lambda>_. ''00''), ev_lossy = map (\<lambda>b. char_of (unat b)),
     ev_lowercase = map (\<lambda>c. if CHR ''A'' \<le> c \<and> c \<le> CHR ''Z'' then char_of (of_char c + 32 :: nat) else c)\<rparr>"

definition demo_lab :: "(unit, int) lab" where
  "demo_lab = \<lparr>lb_f64 = hundredths, lb_rng = upper_end, lb_blake3 = id, lb_trace = (\<lambda>_. Some [])\<rparr>"

lemma demo_lab_ok: "lab_ok demo_lab"
  using upper_end_ok hundredths_index_ok
  by (simp add: lab_ok_def demo_lab_def rates_ok_def hundredths_def)

definition demo_manifest :: Manifest where
  "demo_manifest = generated_manifest (\<lambda>_. ''00'') 127 None [] [] []"

definition demo_manifest_json :: "Manifest \<Rightarrow> bytes option" where
  "demo_manifest_json m = (if m = demo_manifest then Some [] else None)"

lemma demo_manifest_any: "generated_manifest (\<lambda>_. ''00'') 127 None json csv md = demo_manifest"
  by (simp add: generated_manifest_def demo_manifest_def)

theorem generated_evidence_verifies_witness:
  "\<exists>t' bss. generate demo_lab (\<lambda>_. ''00'') demo_evidence demo_manifest_json good_disk ''evidence'' None
        (Map.empty, {}) = (Ok 127, t')
    \<and> (verify demo_evidence (\<lambda>_. Some demo_manifest) good_disk ''evidence'' (fst t') = (Ok (), fst t')
        \<longleftrightarrow> (\<forall>p \<in> set sensitive_patterns. \<not> sublist p (evidence_text demo_evidence bss)))"
proof -
  have hash: "ev_hash_hex demo_evidence = (\<lambda>_. ''00'')" by (simp add: demo_evidence_def)
  have json: "\<forall>rs. ev_reports_json demo_evidence rs \<noteq> None" by (simp add: demo_evidence_def)
  have total: "\<forall>json csv md. demo_manifest_json
      (generated_manifest (ev_hash_hex demo_evidence) 127 None json csv md) \<noteq> None"
    unfolding hash demo_manifest_any by (simp add: demo_manifest_json_def)
  have codec: "\<forall>m bs. demo_manifest_json m = Some bs \<longrightarrow> Some demo_manifest = Some m"
    by (simp add: demo_manifest_json_def)
  show ?thesis
    using generated_evidence_verifies [OF good_disk_works demo_lab_ok _ json total codec,
        of "''evidence''" "(Map.empty, {})" "\<lambda>_. ''00''"]
    by (auto simp: demo_plausible_def)
qed

definition evidence_files :: "u8 \<Rightarrow> files" where
  "evidence_files b = map_of (map (\<lambda>(name, bs). (path_join ''evidence'' name,
     \<lparr>fi_content = bs, fi_owner_only = False\<rparr>))
     [(''evaluation.json'', [b]), (''evaluation.csv'', []), (''evaluation.md'', []),
      (''manifest.json'', [])])"

lemma evidence_files_verify:
  assumes "b \<in> {65, 66}"
  shows "verify demo_evidence (\<lambda>_. Some demo_manifest) good_disk ''evidence'' (evidence_files b)
    = (Ok (), evidence_files b)"
proof -
  have "list_all id (manifest_checks (ev_hash_hex demo_evidence) [b] [] [] demo_manifest)"
    using generated_manifest_checks [of None "\<lambda>_. ''00''" "[b]" "[]" "[]"]
    by (simp add: demo_manifest_any demo_evidence_def demo_plausible_def)
  moreover have "\<forall>p \<in> set sensitive_patterns. \<not> sublist p (evidence_text demo_evidence [[b], [], [], []])"
    by (auto simp: sensitive_patterns_def evidence_text_def demo_evidence_def sublist_def)
  ultimately show ?thesis unfolding evidence_verify_Ok_iff
    by (auto simp: evidence_file_def evidence_files_def good_disk_def path_join_def)
qed

theorem evidence_tamper_evident_witness:
  "\<exists>a b. evidence_file (evidence_files 65) ''evidence'' ''evaluation.json'' = Some a
     \<and> evidence_file (evidence_files 66) ''evidence'' ''evaluation.json'' = Some b \<and> a \<noteq> b
     \<and> ev_hash_hex demo_evidence a = ev_hash_hex demo_evidence b"
  by (rule evidence_tamper_evident [OF evidence_files_verify evidence_files_verify])
    (simp_all add: evidence_file_def evidence_files_def path_join_def)

definition demo_tree :: tree where
  "demo_tree = ([''notes.txt'' \<mapsto> \<lparr>fi_content = [1], fi_owner_only = True\<rparr>], {''reports''})"

theorem report_keeps_files_witness:
  "fst demo_tree \<subseteq>\<^sub>m fst (snd (initialise good_disk ''private'' demo_tree))
 \<and> initialise good_disk ''reports'' demo_tree = (Err (Bail ''refusing to overwrite''), demo_tree)"
proof -
  have "path_join d n \<noteq> ''notes.txt''" for d n
  proof
    assume "path_join d n = ''notes.txt''"
    then have "CHR ''/'' \<in> set ''notes.txt''" unfolding path_join_def by (metis in_set_conv_decomp)
    then show False by simp
  qed
  then have ok: "tree_ok demo_tree" by (simp add: tree_ok_def demo_tree_def)
  show ?thesis
    using report_keeps_files [OF ok, of hundredths "\<lambda>_. []" demo_evidence "\<lambda>_. None" "\<lambda>_. None" good_disk
        "''notes.txt''" None "''private''"]
      report_keeps_files [OF ok, of hundredths "\<lambda>_. []" demo_evidence "\<lambda>_. None" "\<lambda>_. None" good_disk
        "''notes.txt''" None "''reports''"]
    by (simp add: path_exists_def demo_tree_def)
qed

end
