(* ===== verification/MP_Service.thy ===== *)
theory MP_Service
  imports MP_Coordinator
begin

text \<open>
  The coordinator from a participant's point of view: an accepted submission, the steps of
  other requests around it, the sealing of the round and the retrieval of the proof.
\<close>

section \<open>Growth of the store\<close>

lemma run_step_config [simp]: "co_config (run_step cr step co) = co_config co"
  by (cases step) (auto simp: seal_round_def split: prod.splits)

lemma run_steps_config [simp]: "co_config (run_steps cr steps co) = co_config co"
  unfolding run_steps_def by (induction steps arbitrary: co) simp_all

lemma admit_extends:
  assumes "store_inv (cr_blake3 cr) (se_json env) db" "admit cr config env ticket db = (m, db')"
  shows "extends db db'"
  using assms(2)
proof (cases rule: admit_cases)
  case 1
  then show ?thesis by simp
next
  case (2 n)
  have "store_call cr env (OpAcceptTicket ticket) db
      = (fst (store_call cr env (OpAcceptTicket ticket) db), db')"
    using 2(3) by (simp add: case_prod_beta prod_eq_iff)
  then show ?thesis using store_call_step [OF assms(1)] by blast
qed

lemma run_step_extends:
  assumes "coord_inv cr js config co" "step_json js step"
  shows "extends (co_store co) (co_store (run_step cr step co))"
proof (cases step)
  case (RateStep now restart)
  then show ?thesis by simp
next
  case (AdmitStep env ticket slot)
  have "store_inv (cr_blake3 cr) (se_json env) (co_store co)"
    using assms AdmitStep reachable_inv by (auto simp: coord_inv_def)
  then have "extends (co_store co) (snd (admit cr (co_config co) env ticket (co_store co)))"
    by (rule admit_extends) (rule prod.collapse [symmetric])
  then show ?thesis using AdmitStep by simp
next
  case (SealStep env)
  let ?op = "OpSealCohort (tb_pool_id (cc_binding (co_config co)))
    (tb_round_id (cc_binding (co_config co))) (cc_minimum_participants (co_config co))"
  have "store_inv (cr_blake3 cr) (se_json env) (co_store co)"
    using assms SealStep reachable_inv by (auto simp: coord_inv_def)
  then have "extends (co_store co) (snd (store_call cr env ?op (co_store co)))"
    using store_call_step [of cr env "co_store co" ?op] prod.collapse by metis
  then show ?thesis using SealStep by (simp add: seal_round_def case_prod_beta)
qed

lemma run_steps_extends:
  assumes "coord_inv cr js config co" "\<forall>step \<in> set steps. step_json js step"
  shows "extends (co_store co) (co_store (run_steps cr steps co))"
  using assms
proof (induction steps arbitrary: co)
  case Nil
  then show ?case by (simp add: run_steps_def)
next
  case (Cons step steps)
  then have "extends (co_store co) (co_store (run_step cr step co))"
    and "coord_inv cr js config (run_step cr step co)"
    by (simp_all add: run_step_extends run_step_inv)
  with Cons.IH Cons.prems(2) show ?case
    using extends_trans by (fastforce simp: run_steps_def)
qed

section \<open>Submission\<close>

lemma http_submit_Ok:
  assumes "http_submit cr env slot_source now restart ticket co = (Ok c, co')"
  obtains slot where "slot_source = Ok slot"
    "submit_ticket cr env now restart ticket slot co = (Ok c, co')"
  using assms by (cases slot_source) (auto simp: http_submit_def)

lemma submit_inv:
  assumes "coord_inv cr js config co" "se_json env = js"
    and "http_submit cr env slot_source now restart ticket co = (Ok c, co')"
  shows "coord_inv cr js config co'"
proof -
  from assms(3) obtain slot where
    "submit_ticket cr env now restart ticket slot co = (Ok c, co')" by (rule http_submit_Ok)
  with submit_ticket_steps [of cr env now restart ticket slot co] obtain steps where
    steps: "co' = run_steps cr steps co" "set steps \<subseteq> {RateStep now restart, AdmitStep env ticket slot}"
    by auto
  from steps(2) have "\<forall>step \<in> set steps. step_json js step" using assms(2) by auto
  with assms(1) show ?thesis unfolding steps(1) by (rule run_steps_inv)
qed

lemma submit_adds_row:
  assumes "http_submit cr env slot_source now restart ticket co = (Ok c, co')"
  obtains row where "row \<in> set (db_join_tickets (co_store co'))" "tr_commitment row = digest_bytes c"
    "ticket_of (digest_bytes (tb_pool_id (cc_binding (co_config co))))
       (uint (tb_round_id (cc_binding (co_config co)))) row"
    "JoinTicket_commitment cr ticket = Ok c"
proof -
  from assms obtain slot where
    "submit_ticket cr env now restart ticket slot co = (Ok c, co')" by (rule http_submit_Ok)
  then show ?thesis
  proof (cases rule: submit_ticket_cases)
    case 1
    then show ?thesis by simp
  next
    case 2
    have verified: "JoinTicket_verify cr ticket slot (cc_binding (co_config co)) = Ok ()"
      using 2(1) .
    from 2(3) show ?thesis
    proof (cases rule: admit_cases)
      case 1
      then show ?thesis by simp
    next
      case (2 n)
      then have "accept_ticket cr env ticket (co_store co) = (Ok c, co_store co')"
        by (cases "accept_ticket cr env ticket (co_store co)")
          (auto simp: map_err_Ok_iff eq_commute [of "Ok c"])
      then show ?thesis
      proof (rule accept_ticket_writes)
        fix row e
        assume row: "JoinTicket_commitment cr ticket = Ok c"
          "tr_pool_id row = digest_bytes (jt_pool_id ticket)"
          "tr_round_id row = uint (jt_round_id ticket)" "tr_commitment row = digest_bytes c"
          and db': "co_store co' = co_store co
            \<lparr>db_join_tickets := db_join_tickets (co_store co) @ [row],
             db_immutable_events := db_immutable_events (co_store co) @ [e]\<rparr>"
        have "row \<in> set (db_join_tickets (co_store co'))" unfolding db' by simp
        then show ?thesis
          using that row verified by (auto simp: verify_ticket_Ok_iff ticket_of_def)
      qed
    qed
  qed
qed

section \<open>From submission to proof\<close>

lemma commitment_length:
  assumes "\<forall>bs. length (cr_blake3 cr bs) = 32" "JoinTicket_commitment cr ticket = Ok c"
  shows "length (digest_bytes c) = 32"
  using assms by (auto simp: JoinTicket_commitment_def Digest32_hash_def and_then_Ok_iff)

lemma seal_round_Ok:
  assumes "seal_round cr env co = (Ok (root, n), co')"
  shows "seal_cohort (cr_blake3 cr) env (tb_pool_id (cc_binding (co_config co)))
      (tb_round_id (cc_binding (co_config co))) (cc_minimum_participants (co_config co)) (co_store co)
    = (Ok (root, n), co_store co')" and "co_config co' = co_config co"
  using assms by (auto simp: seal_round_def map_err_Ok_iff split: prod.splits)

lemma seal_round_step: "snd (seal_round cr env co) = run_steps cr [SealStep env] co"
  by (simp add: run_steps_def)

lemma http_proof_served:
  assumes "hex_decode (to_hex (cr_hex_encode cr) c) = Some (digest_bytes c)"
    and "length (digest_bytes c) = 32"
    and "fetch_proof env (tb_pool_id (cc_binding (co_config co)))
      (tb_round_id (cc_binding (co_config co))) c (co_store co) = Ok (Some p)"
  shows "http_proof hex_decode env (to_hex (cr_hex_encode cr) c) co = Ok p"
  using assms by (simp add: http_proof_def proof_of_def)

text \<open>
  An accepted ticket, any steps of other requests, the first sealing, any further steps, and
  the request for the proof.
\<close>

lemma submitted_ticket_proved:
  assumes "coord_inv cr js config co" "json_ok js" "\<forall>bs. length (cr_blake3 cr bs) = 32"
    and "http_submit cr env slot_source now restart ticket co = (Ok c, co1)" "se_json env = js"
    and "co2 = run_steps cr before co1" "\<forall>step \<in> set before. step_json js step"
    and "fetch_root env2 (tb_pool_id (cc_binding config)) (tb_round_id (cc_binding config))
      (co_store co2) = Ok None"
    and "seal_round cr env2 co2 = (Ok (root, n), co3)" "se_json env2 = js"
    and "co4 = run_steps cr after co3" "\<forall>step \<in> set after. step_json js step"
    and "se_json env4 = js" "se_fault env4 SelectProof = None"
    and "hex_decode (to_hex (cr_hex_encode cr) c) = Some (digest_bytes c)"
  shows "cc_minimum_participants config \<le> n
    \<and> unat n = cohort_entries config (co_store co2)
    \<and> (\<exists>p. http_proof hex_decode env4 (to_hex (cr_hex_encode cr) c) co4 = Ok p
         \<and> cp_leaf_hash p = c
         \<and> CohortProof_verify (cr_blake3 cr) p root (tb_round_id (cc_binding config)) = Ok ())"
proof -
  have inv1: "coord_inv cr js config co1" using assms(1,5,4) by (rule submit_inv)
  have inv2: "coord_inv cr js config co2" unfolding assms(6) using inv1 assms(7) by (rule run_steps_inv)
  have config: "co_config co = config" "co_config co1 = config" "co_config co2 = config"
    using assms(1) inv1 inv2 by (simp_all add: coord_inv_def)
  from assms(4) obtain row where row: "row \<in> set (db_join_tickets (co_store co1))"
    "tr_commitment row = digest_bytes c"
    "ticket_of (digest_bytes (tb_pool_id (cc_binding config)))
       (uint (tb_round_id (cc_binding config))) row"
    and commit: "JoinTicket_commitment cr ticket = Ok c"
    by (rule submit_adds_row) (simp add: config(1))
  have "extends (co_store co1) (co_store co2)"
    unfolding assms(6) using inv1 assms(7) by (rule run_steps_extends)
  then have row2: "row \<in> set (db_join_tickets (co_store co2))" using row(1) by (auto simp: extends_def)
  note sealed = seal_round_Ok [OF assms(9), unfolded config]
  have inv3: "coord_inv cr js config co3"
    using run_steps_inv [OF inv2, of "[SealStep env2]"] assms(9,10)
    by (simp add: seal_round_step [symmetric])
  have ext: "extends (co_store co3) (co_store co4)"
    unfolding assms(11) using inv3 assms(12) by (rule run_steps_extends)
  have config4: "co_config co4 = config" using assms(11) sealed(2) by simp
  have "reachable_db cr js (co_store co2)" using inv2 by (simp add: coord_inv_def)
  from seal_covers [OF this assms(2,10,8) sealed(1) row2 row(3) assms(13,14) ext]
  obtain p where p: "cc_minimum_participants config \<le> n"
    "unat n = cohort_entries config (co_store co2)"
    "fetch_proof env4 (tb_pool_id (cc_binding config)) (tb_round_id (cc_binding config)) c
       (co_store co4) = Ok (Some p)" "cp_leaf_hash p = c"
    "CohortProof_verify (cr_blake3 cr) p root (tb_round_id (cc_binding config)) = Ok ()"
    unfolding cohort_entries_def row(2) by auto
  have "http_proof hex_decode env4 (to_hex (cr_hex_encode cr) c) co4 = Ok p"
    using assms(15) commitment_length [OF assms(3) commit] p(3)
    by (intro http_proof_served) (simp_all add: config4)
  then show ?thesis using p by blast
qed

lemma seal_root_length:
  assumes "coord_inv cr js config co" "seal_round cr env co = (Ok (root, n), co')"
    and "fetch_root env (tb_pool_id (cc_binding config)) (tb_round_id (cc_binding config))
      (co_store co) = Ok None"
  shows "length (digest_bytes root) = 32"
proof -
  have "co_config co = config" using assms(1) by (simp add: coord_inv_def)
  note sealed = seal_round_Ok(1) [OF assms(2), unfolded this]
  have "unique_rows same_proof_key (db_cohort_proofs (co_store co))"
    using assms(1) reachable_inv by (auto simp: coord_inv_def store_inv_def)
  from sealed assms(3) this show ?thesis by (rule seal_writes)
qed

end
