(* ===== verification/MP_Demo.thy ===== *)
theory MP_Demo
  imports MP_Evidence MP_Service
begin

text \<open>
  The two rounds of \<open>full_demo\<close> (\<open>src/xtask/src/main.rs\<close>): 25 participants enrol in round 1,
  which is sealed, proved and scheduled; 10 enrol in round 2; the store is closed and opened
  again; round 1 has to answer with the same root and schedule and round 2 is sealed. The
  Merkle benchmark and the simulated \<open>demo\<close> are here as well.

  The generator \<open>ChaCha20Rng\<close> is an argument: \<open>draw\<close> gives the nonce drawn first from a seed.
  Closing the store keeps its database.
\<close>

section \<open>Operations\<close>

definition db_step :: "('a, StoreError) result \<times> Db \<Rightarrow> ('a, CliError) result \<times> Db" where
  "db_step p = (map_err Database (fst p), snd p)"

definition demo_join ::
  "('sk, 'vk) crypto \<Rightarrow> env \<Rightarrow> (bytes \<Rightarrow> bytes) \<Rightarrow> TicketBinding \<Rightarrow> u64 \<Rightarrow> u64 \<Rightarrow> u8 \<Rightarrow> u8 \<Rightarrow> u8
     \<Rightarrow> Db \<Rightarrow> (JoinTicket, CliError) result \<times> Db" where
  "demo_join cr env draw binding expiry slot seed key index =
    bind_cmd (lift (map_err TicketFailed (JoinTicket_create cr
        (draw (replicate 32 (saturating_add index seed)))
        (cr_signing_key_from_bytes cr (replicate 32 (saturating_add index key)))
        (tb_pool_id binding) (tb_round_id binding) (tb_action_template_hash binding) expiry)))
      (\<lambda>(ticket, _).
    bind_cmd (lift (map_err TicketFailed (JoinTicket_verify cr ticket slot binding))) (\<lambda>_.
    bind_cmd (\<lambda>db. db_step (accept_ticket cr env ticket db)) (\<lambda>_.
    lift (Ok ticket))))"

fun demo_join_all ::
  "('sk, 'vk) crypto \<Rightarrow> env \<Rightarrow> (bytes \<Rightarrow> bytes) \<Rightarrow> TicketBinding \<Rightarrow> u64 \<Rightarrow> u64 \<Rightarrow> u8 \<Rightarrow> u8 \<Rightarrow> u8 list
     \<Rightarrow> Db \<Rightarrow> (JoinTicket list, CliError) result \<times> Db" where
  "demo_join_all cr env draw binding expiry slot seed key [] = lift (Ok [])"
| "demo_join_all cr env draw binding expiry slot seed key (i # is) =
     bind_cmd (demo_join cr env draw binding expiry slot seed key i) (\<lambda>t.
     bind_cmd (demo_join_all cr env draw binding expiry slot seed key is) (\<lambda>ts.
     lift (Ok (t # ts))))"

fun demo_proofs ::
  "('sk, 'vk) crypto \<Rightarrow> env \<Rightarrow> Digest32 \<Rightarrow> Digest32 \<Rightarrow> JoinTicket list \<Rightarrow> Db
     \<Rightarrow> (unit, CliError) result" where
  "demo_proofs cr env pool root [] db = Ok ()"
| "demo_proofs cr env pool root (t # ts) db =
     and_then (map_err TicketFailed (JoinTicket_commitment cr t)) (\<lambda>c.
     and_then (map_err Database (fetch_proof env pool 1 c db)) (\<lambda>found.
     and_then (ok_or found (Bail ''missing proof'')) (\<lambda>p.
     and_then (map_err ProofError (CohortProof_verify (cr_blake3 cr) p root 1)) (\<lambda>_.
     demo_proofs cr env pool root ts db))))"

definition demo_pool :: "('sk, 'vk) crypto \<Rightarrow> Digest32" where
  "demo_pool cr = Digest32_hash (cr_blake3 cr) (ascii ''full-demo'') (ascii ''pool'')"

definition demo_round :: "('sk, 'vk) crypto \<Rightarrow> u64 \<Rightarrow> TicketBinding" where
  "demo_round cr round_id = \<lparr>tb_pool_id = demo_pool cr, tb_round_id = round_id,
     tb_action_template_hash = Digest32_hash (cr_blake3 cr) (ascii ''template'') (ascii ''memo-v1'')\<rparr>"

text \<open>The result: the root of round 1 and the sizes of both cohorts.\<close>

definition full_demo_rounds ::
  "('sk, 'vk) crypto \<Rightarrow> env \<Rightarrow> (bytes \<Rightarrow> bytes) \<Rightarrow> Db \<Rightarrow> (Digest32 \<times> u32 \<times> u32, CliError) result \<times> Db" where
  "full_demo_rounds cr env draw =
    (let pool = demo_pool cr in
     bind_cmd (\<lambda>db. db_step (open_store env db)) (\<lambda>_.
     bind_cmd (demo_join_all cr env draw (demo_round cr 1) 10000 1 1 2 (map of_nat [0..<25])) (\<lambda>tickets.
     bind_cmd (\<lambda>db. db_step (seal_cohort (cr_blake3 cr) env pool 1 10 db)) (\<lambda>(root, included).
     bind_cmd (\<lambda>db. (demo_proofs cr env pool root tickets db, db)) (\<lambda>_.
     bind_cmd (\<lambda>db. db_step (schedule_release env pool 1 500 504 db)) (\<lambda>_.
     bind_cmd (demo_join_all cr env draw (demo_round cr 2) 20000 2 50 70 (map of_nat [0..<10])) (\<lambda>_.
     bind_cmd (\<lambda>db. db_step (open_store env db)) (\<lambda>_.
     bind_cmd (\<lambda>db. db_step (seal_cohort (cr_blake3 cr) env pool 1 10 db)) (\<lambda>recovered.
     bind_cmd (lift (ensure ((root, included) = recovered) (Bail ''root changed after restart''))) (\<lambda>_.
     bind_cmd (\<lambda>db. db_step (schedule_release env pool 1 500 504 db)) (\<lambda>_.
     bind_cmd (\<lambda>db. db_step (seal_cohort (cr_blake3 cr) env pool 2 10 db)) (\<lambda>(_, second_included).
     lift (Ok (root, included, second_included))))))))))))))"

section \<open>The smaller demonstrations\<close>

definition demo :: "('g, 'f) lab \<Rightarrow> u32 \<Rightarrow> ('f EvaluationReport, CliError) result" where
  "demo lb cnt =
     lab_evaluate lb (scenario cnt 7 PrivacyBackend.MerkleCohort (f_decimal (lb_f64 lb) 8 2))"

definition benchmark_leaf :: "(bytes \<Rightarrow> bytes) \<Rightarrow> u32 \<Rightarrow> Digest32" where
  "benchmark_leaf blake3 index =
     Digest32_hash blake3 (ascii ''benchmark-leaf'') (le_bytes 4 (unat index))"

definition merkle_benchmark :: "(bytes \<Rightarrow> bytes) \<Rightarrow> u32 \<Rightarrow> (Digest32, MerkleError) result" where
  "merkle_benchmark blake3 cnt =
    and_then (MerkleCohort_build blake3 (map (\<lambda>i. benchmark_leaf blake3 (of_nat i)) [0..<unat cnt])) (\<lambda>tree.
    and_then (MerkleCohort_proof tree (benchmark_leaf blake3 (cnt div 2)) 1) (\<lambda>p.
    and_then (MerkleCohort_root tree) (\<lambda>root.
    and_then (CohortProof_verify blake3 p root 1) (\<lambda>_. Ok root))))"

lemma benchmark_passes:
  assumes "0 < unat cnt" "unat cnt \<le> 100000"
    and "inj_on (\<lambda>i. benchmark_leaf blake3 (of_nat i)) {..<unat cnt}"
  shows "\<exists>root. merkle_benchmark blake3 cnt = Ok root"
proof -
  let ?leaves = "map (\<lambda>i. benchmark_leaf blake3 (of_nat i)) [0..<unat cnt]"
  have "distinct ?leaves" using assms(3) by (simp add: distinct_map lessThan_atLeast0)
  then obtain tree where tree: "MerkleCohort_build blake3 ?leaves = Ok tree"
    using assms(1,2) by (auto simp: build_Ok_iff MAX_LEAVES_def)
  have "unat (cnt div 2) < unat cnt" using assms(1) by (simp add: unat_div)
  moreover have "cnt div 2 = of_nat (unat (cnt div 2))" by simp
  ultimately have "benchmark_leaf blake3 (cnt div 2) \<in> set ?leaves" by (metis (no_types, lifting)
        atLeastLessThan_iff image_eqI le0 set_map set_upt)
  from member_proof_verifies [OF tree this, of 1] obtain p root where
    "MerkleCohort_proof tree (benchmark_leaf blake3 (cnt div 2)) 1 = Ok p"
    "MerkleCohort_root tree = Ok root" "CohortProof_verify blake3 p root 1 = Ok ()" by blast
  then show ?thesis using tree by (simp add: merkle_benchmark_def)
qed

section \<open>Enrolment\<close>

text \<open>A ticket of the demonstration and its commitment.\<close>

definition demo_ticket ::
  "('sk, 'vk) crypto \<Rightarrow> (bytes \<Rightarrow> bytes) \<Rightarrow> TicketBinding \<Rightarrow> u64 \<Rightarrow> u8 \<Rightarrow> u8 \<Rightarrow> u8 \<Rightarrow> JoinTicket \<Rightarrow> Digest32
     \<Rightarrow> bool" where
  "demo_ticket cr draw binding expiry seed key i t c \<longleftrightarrow>
     (\<exists>n. JoinTicket_create cr (draw (replicate 32 (saturating_add i seed)))
        (cr_signing_key_from_bytes cr (replicate 32 (saturating_add i key)))
        (tb_pool_id binding) (tb_round_id binding) (tb_action_template_hash binding) expiry = Ok (t, n))
   \<and> JoinTicket_commitment cr t = Ok c"

lemma demo_ticket_fields:
  assumes "demo_ticket cr draw binding expiry seed key i t c"
  shows "jt_pool_id t = tb_pool_id binding" "jt_round_id t = tb_round_id binding"
  using assms by (auto simp: demo_ticket_def JoinTicket_create_def Let_def result_simps)

text \<open>The store accepts a ticket that clashes with none of its rows.\<close>

definition fresh_ticket :: "Db \<Rightarrow> JoinTicket \<Rightarrow> Digest32 \<Rightarrow> bool" where
  "fresh_ticket db t c \<longleftrightarrow> (\<forall>r \<in> set (db_join_tickets db). tr_commitment r \<noteq> digest_bytes c
     \<and> \<not> (tr_pool_id r = digest_bytes (jt_pool_id t) \<and> tr_round_id r = uint (jt_round_id t)
          \<and> tr_coordination_key r = jt_coordination_public_key t))"

definition holds_ticket :: "TicketRow \<Rightarrow> JoinTicket \<Rightarrow> Digest32 \<Rightarrow> bool" where
  "holds_ticket r t c \<longleftrightarrow> tr_commitment r = digest_bytes c \<and> tr_pool_id r = digest_bytes (jt_pool_id t)
     \<and> tr_round_id r = uint (jt_round_id t) \<and> tr_coordination_key r = jt_coordination_public_key t"

definition demo_env :: "('sk, 'vk) crypto \<Rightarrow> env \<Rightarrow> bool" where
  "demo_env cr env \<longleftrightarrow> healthy env \<and> json_ok (se_json env) \<and> ed25519_correct cr
     \<and> (\<forall>bs. length (cr_blake3 cr bs) = 32)
     \<and> (\<forall>p. \<exists>text. js_proof_to_string (se_json env) p = Some text)
     \<and> (\<forall>t. \<exists>text. js_ticket_to_string (se_json env) t = Some text)"

text \<open>An opened store, with the tables other than tickets and events compared.\<close>

definition store_opened :: "Db \<Rightarrow> bool" where
  "store_opened db \<longleftrightarrow> db_foreign_keys db \<and> 1 \<in> fst ` set (db_schema_migrations db)"

definition only_tickets :: "TicketRow list \<Rightarrow> Db \<Rightarrow> Db \<Rightarrow> bool" where
  "only_tickets rows db db' \<longleftrightarrow> (\<exists>es. db' = db\<lparr>db_join_tickets := db_join_tickets db @ rows,
     db_immutable_events := db_immutable_events db @ es\<rparr>)"

lemma demo_join_enrols:
  assumes "demo_env cr env" "demo_ticket cr draw binding expiry seed key i t c" "slot < expiry"
    and "uint (tb_round_id binding) < 2 ^ 63" "fresh_ticket db t c"
    and "reachable_db cr (se_json env) db"
  shows "\<exists>row db'. demo_join cr env draw binding expiry slot seed key i db = (Ok t, db')
    \<and> only_tickets [row] db db' \<and> holds_ticket row t c \<and> reachable_db cr (se_json env) db'"
proof -
  obtain n where created: "JoinTicket_create cr (draw (replicate 32 (saturating_add i seed)))
        (cr_signing_key_from_bytes cr (replicate 32 (saturating_add i key)))
        (tb_pool_id binding) (tb_round_id binding) (tb_action_template_hash binding) expiry = Ok (t, n)"
    and c: "JoinTicket_commitment cr t = Ok c"
    using assms(2) unfolding demo_ticket_def by blast
  have env: "ed25519_correct cr" "healthy env" "length (digest_bytes c) = 32"
    using assms(1) commitment_length [OF _ c] unfolding demo_env_def by auto
  have verified: "JoinTicket_verify cr t slot binding = Ok ()"
    using created_ticket_outcome [OF env(1) created, of binding slot] assms(3) by simp
  obtain json where json: "js_ticket_to_string (se_json env) t = Some json"
    using assms(1) unfolding demo_env_def by blast
  have rid: "uint (jt_round_id t) < 2 ^ 63" using assms(4) demo_ticket_fields [OF assms(2)] by simp
  note accept = accept_outcome [OF env(2) c env(3) json rid, of db]
  have "\<not> (\<exists>r \<in> set (db_join_tickets db). tr_commitment r = digest_bytes c
      \<or> tr_pool_id r = digest_bytes (jt_pool_id t) \<and> tr_round_id r = uint (jt_round_id t)
        \<and> tr_coordination_key r = jt_coordination_public_key t)"
    using assms(5) unfolding fresh_ticket_def by blast
  then obtain row e where db': "accept_ticket cr env t db = (Ok c, db\<lparr>
      db_join_tickets := db_join_tickets db @ [row],
      db_immutable_events := db_immutable_events db @ [e]\<rparr>)" and row: "holds_ticket row t c"
    unfolding accept by (simp add: holds_ticket_def)
  have "reachable_db cr (se_json env) (snd (store_call cr env (OpAcceptTicket t) db))"
    by (rule reachable_call [OF assms(6) refl])
  then show ?thesis using db' row created verified
    by (auto simp: demo_join_def bind_cmd_def lift_def db_step_def only_tickets_def)
qed

lemma only_tickets_trans:
  "only_tickets rows db db' \<Longrightarrow> only_tickets rows' db' db'' \<Longrightarrow> only_tickets (rows @ rows') db db''"
  unfolding only_tickets_def by auto

lemma only_tickets_tables:
  assumes "only_tickets rows db db'"
  shows "db_join_tickets db' = db_join_tickets db @ rows" "db_cohort_roots db' = db_cohort_roots db"
    "db_cohort_proofs db' = db_cohort_proofs db" "db_release_schedules db' = db_release_schedules db"
    "store_opened db' = store_opened db" "extends db db'"
  using assms by (auto simp: only_tickets_def store_opened_def extends_def)

lemma fresh_after:
  assumes "fresh_ticket db t c" "only_tickets [row] db db'" "holds_ticket row t' c'"
    and "c \<noteq> c'" "jt_coordination_public_key t \<noteq> jt_coordination_public_key t'"
  shows "fresh_ticket db' t c"
proof -
  have "digest_bytes c \<noteq> digest_bytes c'" using assms(4) by (metis Digest32.collapse)
  then show ?thesis using assms by (auto simp: fresh_ticket_def only_tickets_def holds_ticket_def)
qed

lemma demo_join_all_enrols:
  assumes "demo_env cr env" "\<forall>i \<in> set is. demo_ticket cr draw binding expiry seed key i (t i) (c i)"
    and "slot < expiry" "uint (tb_round_id binding) < 2 ^ 63"
    and "\<forall>i \<in> set is. fresh_ticket db (t i) (c i)" "distinct is"
    and "inj_on c (set is)" "inj_on (\<lambda>i. jt_coordination_public_key (t i)) (set is)"
    and "reachable_db cr (se_json env) db"
  shows "\<exists>rows db'. demo_join_all cr env draw binding expiry slot seed key is db = (Ok (map t is), db')
    \<and> only_tickets rows db db' \<and> list_all2 (\<lambda>i r. holds_ticket r (t i) (c i)) is rows
    \<and> reachable_db cr (se_json env) db'"
  using assms(2,5-9)
proof (induction "is" arbitrary: db)
  case Nil
  have "only_tickets [] db db" unfolding only_tickets_def by (intro exI [of _ "[]"]) simp
  then show ?case using Nil by (auto simp: lift_def)
next
  case (Cons i "is")
  obtain row db1 where one: "demo_join cr env draw binding expiry slot seed key i db = (Ok (t i), db1)"
    "only_tickets [row] db db1" "holds_ticket row (t i) (c i)" "reachable_db cr (se_json env) db1"
    using demo_join_enrols [OF assms(1) _ assms(3,4)] Cons.prems by (metis list.set_intros(1))
  have "\<forall>j \<in> set is. fresh_ticket db1 (t j) (c j)"
  proof
    fix j assume j: "j \<in> set is"
    then have "c j \<noteq> c i" "jt_coordination_public_key (t j) \<noteq> jt_coordination_public_key (t i)"
      using Cons.prems(3-5) by (auto simp: inj_on_def)
    then show "fresh_ticket db1 (t j) (c j)"
      using fresh_after [OF _ one(2,3)] Cons.prems(2) j by simp
  qed
  then obtain rows db' where rest:
    "demo_join_all cr env draw binding expiry slot seed key is db1 = (Ok (map t is), db')"
    "only_tickets rows db1 db'" "list_all2 (\<lambda>i r. holds_ticket r (t i) (c i)) is rows"
    "reachable_db cr (se_json env) db'"
    using Cons.IH [of db1] Cons.prems one(4) by auto
  have "demo_join_all cr env draw binding expiry slot seed key (i # is) db = (Ok (map t (i # is)), db')"
    using one(1) rest(1) by (simp add: bind_cmd_Ok lift_def)
  then show ?case using rest one(3) only_tickets_trans [OF one(2) rest(2)]
    by (intro exI [of _ "row # rows"] exI [of _ db']) simp
qed

section \<open>Sealing, scheduling and opening again\<close>

lemma open_healthy:
  assumes "healthy env" "store_opened db"
  shows "open_store env db = (Ok (), db)"
proof -
  have "db\<lparr>db_foreign_keys := True\<rparr> = db" using assms(2) by (simp add: store_opened_def)
  then show ?thesis using assms(2)
    by (simp add: open_store_def migrate_healthy [OF assms(1)]
        healthy_simps [OF assms(1)] store_opened_def)
qed

lemma open_fresh:
  assumes "healthy env"
  obtains db where "open_store env empty_db = (Ok (), db)" "memory_store env = (Ok (), db)"
    "store_opened db"
  using that by (simp add: open_store_def memory_store_def migrate_healthy [OF assms]
      healthy_simps [OF assms] store_opened_def empty_db_def)

lemma query_row_snoc: "query_row p rows = None \<Longrightarrow> p r \<Longrightarrow> query_row p (rows @ [r]) = Some r"
  unfolding query_row_def by (induction rows) (auto split: if_splits)

text \<open>What a first sealing leaves: the root row, more proofs and events.\<close>

lemma seal_first:
  assumes "reachable_db cr js db" "healthy env" "se_json env = js"
    and "fetch_root env pool rid db = Ok None"
    and "seal_cohort (cr_blake3 cr) env pool rid minimum db = (Ok (root, n), db')"
  shows "fetch_root env pool rid db' = Ok (Some (root, n))"
    and "db_join_tickets db' = db_join_tickets db"
    and "db_release_schedules db' = db_release_schedules db" "store_opened db' = store_opened db"
    and "\<forall>r \<in> set (db_cohort_roots db'). r \<in> set (db_cohort_roots db) \<or> root_key (digest_bytes pool) (uint rid) r"
    and "reachable_db cr js db'"
proof -
  have unique: "unique_rows same_proof_key (db_cohort_proofs db)"
    using reachable_inv [OF assms(1)] by (simp add: store_inv_def)
  obtain leaves tree row new e where
    "map digest_bytes leaves = sort (map tr_commitment
       (filter (ticket_of (digest_bytes pool) (uint rid)) (db_join_tickets db)))"
    and rid: "uint rid < 2 ^ 63"
    and "length leaves < 2 ^ 32" "n = of_nat (length leaves)" "minimum \<le> n"
    "MerkleCohort_build (cr_blake3 cr) leaves = Ok tree" "MerkleCohort_root tree = Ok root"
    and len: "length (digest_bytes root) = 32"
    and row: "ro_pool_id row = digest_bytes pool" "ro_round_id row = uint rid"
      "ro_root row = digest_bytes root" "ro_cohort_size row = uint n"
    and "list_all2 (\<lambda>leaf row. proof_key (digest_bytes pool) (uint rid) (digest_bytes leaf) row
        \<and> (\<exists>p. MerkleCohort_proof tree leaf rid = Ok p
             \<and> js_proof_to_string (se_json env) p = Some (pf_proof_json row))) leaves new"
    "unique_rows same_proof_key (db_cohort_proofs db @ new)"
    and db': "db' = db\<lparr>db_cohort_roots := db_cohort_roots db @ [row],
        db_cohort_proofs := db_cohort_proofs db @ new,
        db_immutable_events := db_immutable_events db @ [e]\<rparr>"
    by (rule seal_writes [OF assms(5,4) unique])
  have "query_row (root_key (digest_bytes pool) (uint rid)) (db_cohort_roots db) = None"
    using fetch_root_None [OF assms(4)] query_row_None_iff by blast
  then have "query_row (root_key (digest_bytes pool) (uint rid)) (db_cohort_roots db') = Some row"
    using row by (simp add: db' query_row_snoc root_key_def)
  moreover have "0 \<le> uint n" "uint n < 2 ^ 32" using unsigned_less [of n] by simp_all
  ultimately show "fetch_root env pool rid db' = Ok (Some (root, n))"
    using rid row len
    by (simp add: fetch_root_def as_i64_def healthy_simps [OF assms(2)] digest_def)
  show "db_join_tickets db' = db_join_tickets db" "db_release_schedules db' = db_release_schedules db"
    "store_opened db' = store_opened db"
    "\<forall>r \<in> set (db_cohort_roots db'). r \<in> set (db_cohort_roots db) \<or> root_key (digest_bytes pool) (uint rid) r"
    using row by (auto simp: db' store_opened_def root_key_def)
  show "reachable_db cr js db'"
    using reachable_call [OF assms(1,3), of "OpSealCohort pool rid minimum"] assms(5) by simp
qed

lemma schedule_first:
  assumes "healthy env" "uint rid < 2 ^ 63" "uint release < 2 ^ 63" "uint window_end < 2 ^ 63"
    and "db_release_schedules db = []"
  obtains row where "schedule_release env pool rid release window_end db
      = (Ok (), db\<lparr>db_release_schedules := [row]\<rparr>)"
    "sc_pool_id row = digest_bytes pool" "sc_round_id row = uint rid"
    "sc_release_slot row = uint release" "sc_window_end_slot row = uint window_end"
  using that assms(2-)
  by (simp add: schedule_release_def select_schedule_def bind_cmd_def lift_def as_i64_def healthy_simps [OF assms(1)]
      query_row_def insert_row_def)

lemma schedule_again:
  assumes "healthy env" "uint rid < 2 ^ 63" "db_release_schedules db = [row]"
    and "sc_pool_id row = digest_bytes pool" "sc_round_id row = uint rid"
    and "sc_release_slot row = uint release" "sc_window_end_slot row = uint window_end"
  shows "schedule_release env pool rid release window_end db = (Ok (), db)"
  using assms(2-)
  by (simp add: schedule_release_def select_schedule_def bind_cmd_def lift_def as_i64_def healthy_simps [OF assms(1)]
      query_row_def schedule_key_def)

lemma demo_proofs_Ok:
  assumes "\<forall>t \<in> set ts. \<exists>c p. JoinTicket_commitment cr t = Ok c
      \<and> fetch_proof env pool 1 c db = Ok (Some p) \<and> CohortProof_verify (cr_blake3 cr) p root 1 = Ok ()"
  shows "demo_proofs cr env pool root ts db = Ok ()"
  using assms by (induction ts) auto

section \<open>The demonstration completes\<close>

text \<open>
  The tickets of one round: they can be created, and neither their commitments nor their
  keys coincide.
\<close>

definition demo_cohort ::
  "('sk, 'vk) crypto \<Rightarrow> (bytes \<Rightarrow> bytes) \<Rightarrow> TicketBinding \<Rightarrow> u64 \<Rightarrow> u8 \<Rightarrow> u8 \<Rightarrow> u8 list
     \<Rightarrow> (u8 \<Rightarrow> JoinTicket) \<Rightarrow> (u8 \<Rightarrow> Digest32) \<Rightarrow> bool" where
  "demo_cohort cr draw binding expiry seed key is t c \<longleftrightarrow>
     (\<forall>i \<in> set is. demo_ticket cr draw binding expiry seed key i (t i) (c i))
   \<and> inj_on c (set is) \<and> inj_on (\<lambda>i. jt_coordination_public_key (t i)) (set is)"

lemma cohort_size:
  assumes "list_all2 (\<lambda>i r. holds_ticket r (t i) (c i)) is rows"
    and "\<forall>i \<in> set is. demo_ticket cr draw binding expiry seed key i (t i) (c i)"
    and "\<forall>r \<in> set old. \<not> ticket_of (digest_bytes (tb_pool_id binding)) (uint (tb_round_id binding)) r"
  shows "length (filter (ticket_of (digest_bytes (tb_pool_id binding)) (uint (tb_round_id binding)))
    (old @ rows)) = length is"
proof -
  have "\<forall>r \<in> set rows. ticket_of (digest_bytes (tb_pool_id binding)) (uint (tb_round_id binding)) r"
  proof
    fix r assume "r \<in> set rows"
    then obtain i where "i \<in> set is" "holds_ticket r (t i) (c i)"
      using list_all2_right [OF assms(1)] by blast
    then show "ticket_of (digest_bytes (tb_pool_id binding)) (uint (tb_round_id binding)) r"
      using assms(2) demo_ticket_fields by (fastforce simp: holds_ticket_def ticket_of_def)
  qed
  then have "filter (ticket_of (digest_bytes (tb_pool_id binding)) (uint (tb_round_id binding))) rows = rows"
    "filter (ticket_of (digest_bytes (tb_pool_id binding)) (uint (tb_round_id binding))) old = []"
    using assms(3) by (simp_all add: filter_empty_conv)
  then show ?thesis using list_all2_lengthD [OF assms(1)] by simp
qed

text \<open>One round: enrolment and the first sealing, with a verifying proof for every ticket.\<close>

lemma demo_round_seals:
  assumes "demo_env cr env" "reachable_db cr (se_json env) db" "store_opened db"
    and "demo_cohort cr draw binding expiry seed key is t c" "distinct is"
    and "slot < expiry" "uint (tb_round_id binding) < 2 ^ 63"
    and "\<forall>i \<in> set is. fresh_ticket db (t i) (c i)"
  shows "\<exists>rows db'. demo_join_all cr env draw binding expiry slot seed key is db = (Ok (map t is), db')
    \<and> only_tickets rows db db' \<and> list_all2 (\<lambda>i r. holds_ticket r (t i) (c i)) is rows
    \<and> reachable_db cr (se_json env) db' \<and> store_opened db'"
proof -
  have cohort: "\<forall>i \<in> set is. demo_ticket cr draw binding expiry seed key i (t i) (c i)" "inj_on c (set is)"
    "inj_on (\<lambda>i. jt_coordination_public_key (t i)) (set is)"
    using assms(4) unfolding demo_cohort_def by auto
  from demo_join_all_enrols [OF assms(1) cohort(1) assms(6,7,8,5) cohort(2,3) assms(2)]
  obtain rows db' where
    "demo_join_all cr env draw binding expiry slot seed key is db = (Ok (map t is), db')"
    "only_tickets rows db db'" "list_all2 (\<lambda>i r. holds_ticket r (t i) (c i)) is rows"
    "reachable_db cr (se_json env) db'" by blast
  then show ?thesis using assms(3) only_tickets_tables(5) by blast
qed

lemma demo_seal:
  assumes "demo_env cr env" "reachable_db cr (se_json env) db" "binding = demo_round cr rid"
    and "db_join_tickets db = old @ rows" "list_all2 (\<lambda>i r. holds_ticket r (t i) (c i)) is rows"
    and "\<forall>i \<in> set is. demo_ticket cr draw binding expiry seed key i (t i) (c i)"
    and "\<forall>r \<in> set old. \<not> ticket_of (digest_bytes (demo_pool cr)) (uint rid) r"
    and "\<forall>r \<in> set (db_cohort_roots db). \<not> root_key (digest_bytes (demo_pool cr)) (uint rid) r"
    and "uint rid < 2 ^ 63" "10 \<le> length is" "length is \<le> 100000"
  obtains root db' where
    "seal_cohort (cr_blake3 cr) env (demo_pool cr) rid 10 db = (Ok (root, of_nat (length is)), db')"
    "fetch_root env (demo_pool cr) rid db = Ok None"
proof -
  have env: "healthy env" "\<forall>bs. length (cr_blake3 cr bs) = 32"
    "\<forall>p. \<exists>text. js_proof_to_string (se_json env) p = Some text"
    using assms(1) unfolding demo_env_def by auto
  have none: "fetch_root env (demo_pool cr) rid db = Ok None"
    by (rule fetch_root_absent [OF env(1) assms(9,8)])
  have n: "length is = length (filter (ticket_of (digest_bytes (demo_pool cr)) (uint rid)) (db_join_tickets db))"
    using cohort_size [OF assms(5,6), of old] assms(3,4,7) by (simp add: demo_round_def)
  show ?thesis
    using seal_total [OF assms(2) env(1) refl env(3,2) none n, of 10] assms(10,11) that none by auto
qed

lemma round_fields [simp]: "tb_pool_id (demo_round cr r) = demo_pool cr" "tb_round_id (demo_round cr r) = r"
  by (simp_all add: demo_round_def)

lemma demo_indices: "distinct (map of_nat [0..<25] :: u8 list)" "distinct (map of_nat [0..<10] :: u8 list)"
  by code_simp+

text \<open>The store after round 1 was sealed and scheduled.\<close>

definition demo_midway ::
  "('sk, 'vk) crypto \<Rightarrow> env \<Rightarrow> (u8 \<Rightarrow> JoinTicket) \<Rightarrow> (u8 \<Rightarrow> Digest32) \<Rightarrow> Digest32 \<Rightarrow> Db \<Rightarrow> bool" where
  "demo_midway cr env t c root db \<longleftrightarrow>
     reachable_db cr (se_json env) db \<and> store_opened db
   \<and> list_all2 (\<lambda>i r. holds_ticket r (t i) (c i)) (map of_nat [0..<25]) (db_join_tickets db)
   \<and> fetch_root env (demo_pool cr) 1 db = Ok (Some (root, 25))
   \<and> (\<forall>r \<in> set (db_cohort_roots db). root_key (digest_bytes (demo_pool cr)) (uint (1 :: u64)) r)
   \<and> (\<exists>row. db_release_schedules db = [row] \<and> sc_pool_id row = digest_bytes (demo_pool cr)
        \<and> sc_round_id row = uint (1 :: u64) \<and> sc_release_slot row = uint (500 :: u64)
        \<and> sc_window_end_slot row = uint (504 :: u64))"

lemma demo_proof_of:
  assumes "demo_env cr env" "reachable_db cr (se_json env) db1"
    and "demo_ticket cr draw (demo_round cr 1) expiry seed key i t c"
    and "r \<in> set (db_join_tickets db1)" "holds_ticket r t c"
    and "fetch_root env (demo_pool cr) 1 db1 = Ok None"
    and "seal_cohort (cr_blake3 cr) env (demo_pool cr) 1 minimum db1 = (Ok (root, n), db2)"
    and "extends db2 db"
  shows "\<exists>p. fetch_proof env (demo_pool cr) 1 c db = Ok (Some p)
    \<and> CohortProof_verify (cr_blake3 cr) p root 1 = Ok ()"
proof -
  have "ticket_of (digest_bytes (demo_pool cr)) (uint (1 :: u64)) r" "Digest32 (tr_commitment r) = c"
    using assms(5) demo_ticket_fields [OF assms(3)] by (simp_all add: holds_ticket_def ticket_of_def)
  moreover have "json_ok (se_json env)" "se_fault env SelectProof = None"
    using assms(1) by (simp_all add: demo_env_def healthy_def)
  ultimately show ?thesis
    using seal_covers [OF assms(2) _ refl assms(6,7,4) _ refl _ assms(8)] by auto
qed

text \<open>The root of two or more tickets is a hash of two nodes.\<close>

lemma next_level_parents: "d \<in> set (next_level blake3 xs) \<Longrightarrow> \<exists>l r. d = parent blake3 l r"
  by (induction blake3 xs rule: next_level.induct) auto

lemma last_tower_parents:
  assumes "\<forall>d \<in> set xs. \<exists>l r. d = parent blake3 l r" "d \<in> set (last (tower blake3 xs))"
  shows "\<exists>l r. d = parent blake3 l r"
  using assms
proof (induction blake3 xs rule: tower.induct)
  case (1 blake3 xs)
  show ?case
  proof (cases "1 < length xs")
    case True
    then show ?thesis using "1.IH" [OF True] "1.prems"(2) next_level_parents by (simp add: tower_step)
  next
    case False
    then show ?thesis using "1.prems" by (simp add: tower_small)
  qed
qed

lemma root_is_parent:
  assumes "MerkleCohort_build blake3 leaves = Ok tree" "MerkleCohort_root tree = Ok root" "1 < length leaves"
  shows "\<exists>l r. root = parent blake3 l r"
proof -
  have big: "1 < length (sort leaves)" using assms(3) by simp
  have tree: "tree = \<lparr>mc_leaves = sort leaves, mc_levels = tower blake3 (sort leaves)\<rparr>"
    using assms(1) by (simp add: build_Ok_iff)
  have "sort leaves \<noteq> []" using big by auto
  note root = root_tower [OF this, of "sort leaves" blake3]
  let ?up = "next_level blake3 (sort leaves)"
  have up: "?up \<noteq> []" using big by auto
  have "root = hd (last (tower blake3 ?up))"
    using assms(2) root tree big by (simp add: tower_step)
  moreover have "last (tower blake3 ?up) \<noteq> []" using last_tower_length [OF up, of blake3] by auto
  ultimately have "root \<in> set (last (tower blake3 ?up))" by simp
  then show ?thesis using last_tower_parents next_level_parents by blast
qed

lemma first_root_parent:
  assumes "reachable_db cr js db" "fetch_root env pool rid db = Ok None"
    and "seal_cohort (cr_blake3 cr) env pool rid minimum db = (Ok (root, n), db')" "1 < n"
  shows "\<exists>l r. root = parent (cr_blake3 cr) l r"
proof -
  have unique: "unique_rows same_proof_key (db_cohort_proofs db)"
    using reachable_inv [OF assms(1)] by (simp add: store_inv_def)
  obtain leaves tree where "length leaves < 2 ^ 32" "n = of_nat (length leaves)"
    "MerkleCohort_build (cr_blake3 cr) leaves = Ok tree" "MerkleCohort_root tree = Ok root"
    by (rule seal_writes [OF assms(3,2) unique])
  moreover from this(1,2) have "1 < length leaves" using assms(4)
    by (simp add: word_less_nat_alt unat_of_nat)
  ultimately show ?thesis using root_is_parent by blast
qed

lemma demo_first_round:
  assumes "demo_env cr env"
    and "demo_cohort cr draw (demo_round cr 1) 10000 1 2 (map of_nat [0..<25]) t c"
  obtains db0 db1 root db2 db3 where "open_store env empty_db = (Ok (), db0)"
    "demo_join_all cr env draw (demo_round cr 1) 10000 1 1 2 (map of_nat [0..<25]) db0
       = (Ok (map t (map of_nat [0..<25])), db1)"
    "seal_cohort (cr_blake3 cr) env (demo_pool cr) 1 10 db1 = (Ok (root, 25), db2)"
    "demo_proofs cr env (demo_pool cr) root (map t (map of_nat [0..<25])) db2 = Ok ()"
    "schedule_release env (demo_pool cr) 1 500 504 db2 = (Ok (), db3)"
    "demo_midway cr env t c root db3"
    "\<And>i db. i < 25 \<Longrightarrow> extends db3 db \<Longrightarrow> \<exists>p. fetch_proof env (demo_pool cr) 1 (c (of_nat i)) db = Ok (Some p)
         \<and> CohortProof_verify (cr_blake3 cr) p root 1 = Ok ()"
    "\<exists>l r. root = parent (cr_blake3 cr) l r"
proof -
  let ?pool = "demo_pool cr" and ?is = "map of_nat [0..<25] :: u8 list"
  have env: "healthy env" using assms(1) unfolding demo_env_def by auto
  have cohort: "\<forall>i \<in> set ?is. demo_ticket cr draw (demo_round cr 1) 10000 1 2 i (t i) (c i)"
    using assms(2) unfolding demo_cohort_def by auto
  obtain db0 where db0: "open_store env empty_db = (Ok (), db0)" "memory_store env = (Ok (), db0)"
    "store_opened db0" by (rule open_fresh [OF env(1)])
  note empty = memory_store_empty [OF db0(2)]
  have reach0: "reachable_db cr (se_json env) db0" unfolding reachable_db_def
    by (intro exI [of _ env] exI [of _ db0] exI [of _ "[]"]) (simp add: db0)
  have "\<forall>i \<in> set ?is. fresh_ticket db0 (t i) (c i)" using empty by (simp add: fresh_ticket_def)
  from demo_round_seals [OF assms(1) reach0 db0(3) assms(2) demo_indices(1) _ _ this, of 1]
  obtain rows db1 where db1: "demo_join_all cr env draw (demo_round cr 1) 10000 1 1 2 ?is db0 = (Ok (map t ?is), db1)"
    "only_tickets rows db0 db1" "list_all2 (\<lambda>i r. holds_ticket r (t i) (c i)) ?is rows"
    "reachable_db cr (se_json env) db1" "store_opened db1" by auto
  note tab1 = only_tickets_tables [OF db1(2)]
  obtain root db2 where seal: "seal_cohort (cr_blake3 cr) env ?pool 1 10 db1 = (Ok (root, 25), db2)"
    "fetch_root env ?pool 1 db1 = Ok None"
    using demo_seal [OF assms(1) db1(4) refl _ db1(3) cohort, of "[]"] empty tab1 by auto
  note first = seal_first [OF db1(4) env refl seal(2,1)]
  have proved: "\<exists>p. fetch_proof env ?pool 1 (c i) db = Ok (Some p)
      \<and> CohortProof_verify (cr_blake3 cr) p root 1 = Ok ()" if "i \<in> set ?is" "extends db2 db" for i db
    using list_all2_left [OF db1(3)] that cohort tab1(1)
      demo_proof_of [OF assms(1) db1(4) _ _ _ seal(2,1) that(2)] by fastforce
  have proofs: "demo_proofs cr env ?pool root (map t ?is) db2 = Ok ()"
    using proved [OF _ extends_refl] cohort unfolding demo_ticket_def
    by (intro demo_proofs_Ok) fastforce
  obtain row where sched: "schedule_release env ?pool 1 500 504 db2
      = (Ok (), db2\<lparr>db_release_schedules := [row]\<rparr>)"
    and row: "sc_pool_id row = digest_bytes ?pool" "sc_round_id row = uint (1 :: u64)"
      "sc_release_slot row = uint (500 :: u64)" "sc_window_end_slot row = uint (504 :: u64)"
    using schedule_first [OF env, of 1 500 504 db2 ?pool] first(3) tab1(4) empty by auto
  define db3 where "db3 = db2\<lparr>db_release_schedules := [row]\<rparr>"
  have ext: "extends db2 db3" using first(3) tab1(4) empty by (simp add: db3_def extends_def)
  have "reachable_db cr (se_json env) db3"
    using reachable_call [OF first(6) refl, of "OpScheduleRelease ?pool 1 500 504"] sched
    by (simp add: db3_def)
  then have "demo_midway cr env t c root db3"
    using extends_fetch_root [OF ext first(1)] first(2,4,5) db1(3,5) tab1(1,2) empty row
    unfolding demo_midway_def by (simp add: db3_def store_opened_def)
  then show ?thesis
    using that [OF db0(1) db1(1) seal(1) proofs] sched proved extends_trans [OF ext] db3_def
      first_root_parent [OF db1(4) seal(2,1)] by simp
qed

lemma demo_second_round:
  assumes "demo_env cr env" "demo_midway cr env t c root db3"
    and "demo_cohort cr draw (demo_round cr 1) 10000 1 2 (map of_nat [0..<25]) t c"
    and "demo_cohort cr draw (demo_round cr 2) 20000 50 70 (map of_nat [0..<10]) t2 c2"
    and "\<forall>i < 25. \<forall>j < 10. c (of_nat i) \<noteq> c2 (of_nat j)"
  obtains db4 db5 root2 where
    "demo_join_all cr env draw (demo_round cr 2) 20000 2 50 70 (map of_nat [0..<10]) db3
       = (Ok (map t2 (map of_nat [0..<10])), db4)"
    "open_store env db4 = (Ok (), db4)"
    "seal_cohort (cr_blake3 cr) env (demo_pool cr) 1 10 db4 = (Ok (root, 25), db4)"
    "schedule_release env (demo_pool cr) 1 500 504 db4 = (Ok (), db4)"
    "seal_cohort (cr_blake3 cr) env (demo_pool cr) 2 10 db4 = (Ok (root2, 10), db5)"
    "fetch_root env (demo_pool cr) 1 db5 = Ok (Some (root, 25))" "extends db3 db5"
proof -
  let ?pool = "demo_pool cr" and ?is = "map of_nat [0..<25] :: u8 list" and ?is2 = "map of_nat [0..<10] :: u8 list"
  have env: "healthy env" using assms(1) unfolding demo_env_def by auto
  have cohort: "\<forall>i \<in> set ?is. demo_ticket cr draw (demo_round cr 1) 10000 1 2 i (t i) (c i)"
    "\<forall>i \<in> set ?is2. demo_ticket cr draw (demo_round cr 2) 20000 50 70 i (t2 i) (c2 i)"
    using assms(3,4) unfolding demo_cohort_def by auto
  have mid: "reachable_db cr (se_json env) db3" "store_opened db3"
    "list_all2 (\<lambda>i r. holds_ticket r (t i) (c i)) ?is (db_join_tickets db3)"
    "fetch_root env ?pool 1 db3 = Ok (Some (root, 25))"
    "\<forall>r \<in> set (db_cohort_roots db3). root_key (digest_bytes ?pool) (uint (1 :: u64)) r"
    using assms(2) unfolding demo_midway_def by auto
  obtain row where row: "db_release_schedules db3 = [row]" "sc_pool_id row = digest_bytes ?pool"
    "sc_round_id row = uint (1 :: u64)" "sc_release_slot row = uint (500 :: u64)"
    "sc_window_end_slot row = uint (504 :: u64)"
    using assms(2) unfolding demo_midway_def by auto
  have old: "\<exists>i < 25. tr_commitment r = digest_bytes (c (of_nat i)) \<and> tr_round_id r = 1"
    if r: "r \<in> set (db_join_tickets db3)" for r
    using list_all2_right [OF mid(3)] r cohort(1) demo_ticket_fields(2)
    by (fastforce simp: holds_ticket_def)
  have "fresh_ticket db3 (t2 j) (c2 j)" if j: "j \<in> set ?is2" for j
  proof -
    have "jt_round_id (t2 j) = 2" using cohort(2) j demo_ticket_fields(2) by fastforce
    moreover have "digest_bytes (c2 j) \<noteq> digest_bytes (c (of_nat i))" if "i < 25" for i
    proof -
      have "c (of_nat i) \<noteq> c2 j" using assms(5) j that by auto
      then show ?thesis by (metis Digest32.collapse)
    qed
    ultimately show ?thesis using old unfolding fresh_ticket_def by fastforce
  qed
  with demo_round_seals [OF assms(1) mid(1,2) assms(4) demo_indices(2), of 2]
  obtain rows db4 where db4: "demo_join_all cr env draw (demo_round cr 2) 20000 2 50 70 ?is2 db3 = (Ok (map t2 ?is2), db4)"
    "only_tickets rows db3 db4" "list_all2 (\<lambda>i r. holds_ticket r (t2 i) (c2 i)) ?is2 rows"
    "reachable_db cr (se_json env) db4" "store_opened db4" by auto
  note tab = only_tickets_tables [OF db4(2)]
  have root4: "fetch_root env ?pool 1 db4 = Ok (Some (root, 25))" by (rule extends_fetch_root [OF tab(6) mid(4)])
  have "\<forall>r \<in> set (db_join_tickets db3). \<not> ticket_of (digest_bytes ?pool) (uint (2 :: u64)) r"
    using old by (fastforce simp: ticket_of_def)
  moreover have "\<forall>r \<in> set (db_cohort_roots db4). \<not> root_key (digest_bytes ?pool) (uint (2 :: u64)) r"
    using mid(5) tab(2) by (auto simp: root_key_def)
  ultimately have "\<exists>root2 db5. seal_cohort (cr_blake3 cr) env ?pool 2 10 db4
      = (Ok (root2, of_nat (length ?is2)), db5)"
    by (rule demo_seal [OF assms(1) db4(4) refl tab(1) db4(3) cohort(2)]) auto
  then obtain root2 db5 where seal:
    "seal_cohort (cr_blake3 cr) env ?pool 2 10 db4 = (Ok (root2, 10), db5)" by auto
  have ext: "extends db4 db5"
    using seal_call_step [OF reachable_inv [OF db4(4)] seal] by blast
  show ?thesis
  proof (rule that [OF db4(1) _ _ _ seal])
    show "open_store env db4 = (Ok (), db4)" by (rule open_healthy [OF env db4(5)])
    show "seal_cohort (cr_blake3 cr) env ?pool 1 10 db4 = (Ok (root, 25), db4)"
      using root4 by (simp add: seal_cohort_eq)
    show "schedule_release env ?pool 1 500 504 db4 = (Ok (), db4)"
      by (rule schedule_again [OF env _ _ row(2-5)]) (simp_all add: tab(4) row(1))
    show "fetch_root env ?pool 1 db5 = Ok (Some (root, 25))" by (rule extends_fetch_root [OF ext root4])
    show "extends db3 db5" by (rule extends_trans [OF tab(6) ext])
  qed
qed

lemma full_demo_run:
  assumes "demo_env cr env"
    and "demo_cohort cr draw (demo_round cr 1) 10000 1 2 (map of_nat [0..<25]) t c"
    and "demo_cohort cr draw (demo_round cr 2) 20000 50 70 (map of_nat [0..<10]) t2 c2"
    and "\<forall>i < 25. \<forall>j < 10. c (of_nat i) \<noteq> c2 (of_nat j)"
  shows "\<exists>root db. full_demo_rounds cr env draw empty_db = (Ok (root, 25, 10), db)
    \<and> fetch_root env (demo_pool cr) 1 db = Ok (Some (root, 25))
    \<and> (\<forall>i < 25. \<exists>p. fetch_proof env (demo_pool cr) 1 (c (of_nat i)) db = Ok (Some p)
         \<and> CohortProof_verify (cr_blake3 cr) p root 1 = Ok ())
    \<and> (\<exists>l r. root = parent (cr_blake3 cr) l r)"
proof -
  from assms(1,2) obtain db0 db1 root db2 db3 where first: "open_store env empty_db = (Ok (), db0)"
    "demo_join_all cr env draw (demo_round cr 1) 10000 1 1 2 (map of_nat [0..<25]) db0
       = (Ok (map t (map of_nat [0..<25])), db1)"
    "seal_cohort (cr_blake3 cr) env (demo_pool cr) 1 10 db1 = (Ok (root, 25), db2)"
    "demo_proofs cr env (demo_pool cr) root (map t (map of_nat [0..<25])) db2 = Ok ()"
    "schedule_release env (demo_pool cr) 1 500 504 db2 = (Ok (), db3)"
    and mid: "demo_midway cr env t c root db3"
    and root: "\<exists>l r. root = parent (cr_blake3 cr) l r"
    and proved: "\<And>i db. i < 25 \<Longrightarrow> extends db3 db \<Longrightarrow>
       \<exists>p. fetch_proof env (demo_pool cr) 1 (c (of_nat i)) db = Ok (Some p)
         \<and> CohortProof_verify (cr_blake3 cr) p root 1 = Ok ()"
    by (rule demo_first_round) blast
  from assms(1) mid assms(2-4) obtain db4 db5 root2 where second:
    "demo_join_all cr env draw (demo_round cr 2) 20000 2 50 70 (map of_nat [0..<10]) db3
       = (Ok (map t2 (map of_nat [0..<10])), db4)"
    "open_store env db4 = (Ok (), db4)"
    "seal_cohort (cr_blake3 cr) env (demo_pool cr) 1 10 db4 = (Ok (root, 25), db4)"
    "schedule_release env (demo_pool cr) 1 500 504 db4 = (Ok (), db4)"
    "seal_cohort (cr_blake3 cr) env (demo_pool cr) 2 10 db4 = (Ok (root2, 10), db5)"
    and final: "fetch_root env (demo_pool cr) 1 db5 = Ok (Some (root, 25))" "extends db3 db5"
    by (rule demo_second_round)
  have "full_demo_rounds cr env draw empty_db = (Ok (root, 25, 10), db5)"
    unfolding full_demo_rounds_def Let_def
    using first second by (simp add: bind_cmd_Ok db_step_def lift_def del: map_map)
  then show ?thesis using final proved root by blast
qed

text \<open>
  The demonstration runs to its end: on an empty store without failures, with a correct
  signature scheme and 32-byte hashes, and when none of the 35 tickets clash, both rounds of
  \<open>full_demo\<close> complete. All 25 tickets of round 1 are included and their stored proofs verify
  against the sealed root, the store that was opened again answers with the same root and
  accepts the same schedule, and round 2 is sealed with its 10 tickets.
\<close>

theorem full_demo_completes:
  assumes "demo_env cr env"
    and "demo_cohort cr draw (demo_round cr 1) 10000 1 2 (map of_nat [0..<25]) t c"
    and "demo_cohort cr draw (demo_round cr 2) 20000 50 70 (map of_nat [0..<10]) t2 c2"
    and "\<forall>i < 25. \<forall>j < 10. c (of_nat i) \<noteq> c2 (of_nat j)"
  shows "\<exists>root db. full_demo_rounds cr env draw empty_db = (Ok (root, 25, 10), db)
    \<and> fetch_root env (demo_pool cr) 1 db = Ok (Some (root, 25))
    \<and> (\<forall>i < 25. \<exists>p. fetch_proof env (demo_pool cr) 1 (c (of_nat i)) db = Ok (Some p)
         \<and> CohortProof_verify (cr_blake3 cr) p root 1 = Ok ())"
  using full_demo_run [OF assms] by blast

section \<open>An instance\<close>

definition demo_sample_ticket :: "u64 \<Rightarrow> u64 \<Rightarrow> u8 \<Rightarrow> u8 \<Rightarrow> u8 \<Rightarrow> JoinTicket" where
  "demo_sample_ticket round_id expiry seed key i =
    (let binding = demo_round sample_crypto round_id; pk = replicate 32 (saturating_add i key) in
     \<lparr>jt_schema_version = SCHEMA_VERSION, jt_pool_id = tb_pool_id binding, jt_round_id = round_id,
      jt_action_template_hash = tb_action_template_hash binding, jt_coordination_public_key = pk,
      jt_nonce_commitment = Digest32_hash (cr_blake3 sample_crypto) (ascii ''ticket-nonce'')
        (replicate 32 (saturating_add i seed)),
      jt_expiry_slot = expiry, jt_signature = replicate 64 (saturating_add i key)\<rparr>)"

lemma demo_sample_created:
  "demo_ticket sample_crypto id (demo_round sample_crypto round_id) expiry seed key i
     (demo_sample_ticket round_id expiry seed key i) (ticket_digest (saturating_add i key))"
  by (simp add: demo_ticket_def JoinTicket_create_def signing_bytes_def demo_sample_ticket_def
      sample_crypto_def JoinTicket_commitment_def canonical_bytes_def ticket_digest_def Let_def)

lemma ticket_digest_inj: "ticket_digest a = ticket_digest b \<longleftrightarrow> a = b"
proof -
  have "digest_bytes (ticket_digest k) ! 31 = k" for k
    by (simp add: ticket_digest_def Digest32_hash_def hash_input_def sample_crypto_def ascii_def
        nth_append nth_Cons')
  then show ?thesis by metis
qed

lemma demo_sample_cohort:
  assumes "distinct (map (\<lambda>i. saturating_add i key) is)"
  shows "demo_cohort sample_crypto id (demo_round sample_crypto round_id) expiry seed key is
    (demo_sample_ticket round_id expiry seed key) (\<lambda>i. ticket_digest (saturating_add i key))"
  using assms demo_sample_created
  by (auto simp: demo_cohort_def distinct_map inj_on_def ticket_digest_inj demo_sample_ticket_def Let_def)

lemma demo_sample_env: "demo_env sample_crypto sample_env"
  using sample_env_healthy sample_json_ok sample_crypto_correct sample_blake3_length
    sample_proofs_total sample_env_json
  by (simp add: demo_env_def) (simp add: sample_json_def)

lemma saturating_index:
  "i + unat k < 256 \<Longrightarrow> unat (saturating_add (of_nat i :: u8) k) = i + unat k"
  by (simp add: saturating_add_def unat_word_ariths unat_of_nat)

lemma saturating_distinct:
  assumes "n + unat k \<le> 256"
  shows "distinct (map (\<lambda>i. saturating_add i k) (map of_nat [0..<n] :: u8 list))"
proof -
  have "i = j" if "i < n" "j < n" "saturating_add (of_nat i :: u8) k = saturating_add (of_nat j) k" for i j
  proof -
    have "i + unat k < 256" "j + unat k < 256" using that(1,2) assms by simp_all
    then have "i + unat k = j + unat k" using saturating_index that(3) by metis
    then show ?thesis by simp
  qed
  then show ?thesis by (simp add: distinct_map inj_on_def)
qed

lemma demo_sample_disjoint:
  assumes "i < 25" "j < 10"
  shows "saturating_add (of_nat i) (2 :: u8) \<noteq> saturating_add (of_nat j) 70"
proof
  assume eq: "saturating_add (of_nat i) (2 :: u8) = saturating_add (of_nat j) 70"
  have "unat (saturating_add (of_nat i) (2 :: u8)) = i + 2" "unat (saturating_add (of_nat j) (70 :: u8)) = j + 70"
    using assms saturating_index [of i 2] saturating_index [of j 70] by simp_all
  then show False using eq assms by simp
qed

theorem full_demo_completes_witness:
  "\<exists>root db. full_demo_rounds sample_crypto sample_env id empty_db = (Ok (root, 25, 10), db)"
proof -
  have "distinct (map (\<lambda>i. saturating_add i 2) (map of_nat [0..<25] :: u8 list))"
    "distinct (map (\<lambda>i. saturating_add i 70) (map of_nat [0..<10] :: u8 list))"
    using saturating_distinct [of 25 2] saturating_distinct [of 10 70] by simp_all
  note full_demo_completes [OF demo_sample_env demo_sample_cohort [OF this(1)] demo_sample_cohort [OF this(2)]]
  moreover have "\<forall>i < 25. \<forall>j < 10. ticket_digest (saturating_add (of_nat i) 2)
      \<noteq> ticket_digest (saturating_add (of_nat j) 70)"
    using demo_sample_disjoint by (simp add: ticket_digest_inj)
  ultimately show ?thesis by blast
qed

end
