(* ===== verification/MP_Localnet.thy ===== *)
theory MP_Localnet
  imports MP_Demo
begin

text \<open>
  The demonstration against a local validator and the whole of \<open>full_demo\<close>
  (\<open>src/xtask/src/main.rs\<close>): the tools are checked, the program is built, a validator is
  started and the program deployed to it, a pool and a round are created and driven into the
  execution window with the SDK's instructions, five participants execute the memo action, the
  round account is compared with the cohort, and the evidence is written and verified.

  The outside world (other programs, the validator, the keypair files) has a state of an
  arbitrary type and is used through the record \<open>localnet\<close>: a call takes the state and returns
  its answer and the new state. Within one guarded operation of the SDK every request is made
  once, so its answers are those of one \<open>endpoint\<close> and the state moves on by the requests made.
\<close>

section \<open>The outside world\<close>

record ('kp, 'tx, 'n) localnet =
  ln_endpoint :: "'n \<Rightarrow> ('kp, 'tx) endpoint"
  ln_after :: "'tx call list \<Rightarrow> 'n \<Rightarrow> 'n"
  ln_get_account :: "pubkey \<Rightarrow> 'n \<Rightarrow> bytes option \<times> 'n"
  ln_read_keypair_file :: "string \<Rightarrow> 'n \<Rightarrow> 'kp option"
  ln_write_keypair_file :: "'kp \<Rightarrow> string \<Rightarrow> 'n \<Rightarrow> bool \<times> 'n"
  ln_keypair_new :: "'n \<Rightarrow> 'kp \<times> 'n"
  ln_pubkey :: "'kp \<Rightarrow> pubkey"
  ln_show_pubkey :: "pubkey \<Rightarrow> string"
  ln_output :: "string list \<Rightarrow> 'n \<Rightarrow> (bool \<times> bytes) option \<times> 'n"
  ln_spawn :: "string list \<Rightarrow> 'n \<Rightarrow> bool \<times> 'n"
  ln_kill :: "'n \<Rightarrow> 'n"
  ln_tempdir :: "'n \<Rightarrow> string option \<times> 'n"
  ln_remove_dir :: "string \<Rightarrow> 'n \<Rightarrow> 'n"
  ln_can_bind :: "'n \<Rightarrow> u16 \<Rightarrow> bool"
  ln_is_file :: "string \<Rightarrow> 'n \<Rightarrow> bool"
  ln_workspace :: "string option"
  ln_from_utf8 :: "bytes \<Rightarrow> string option"
  ln_parse_url :: "string \<Rightarrow> host option"
  ln_unwinds :: bool

type_synonym ('a, 'n) task = "'n \<Rightarrow> ('a, CliError) result \<times> 'n"

text \<open>
  A value with a \<open>Drop\<close> implementation: its clean-up follows the rest of the scope. A panic runs it
  only if the build unwinds, which is the field \<open>ln_unwinds\<close>: the profile of \<open>cargo xtask\<close>
  (\<open>src/.cargo/config.toml\<close>, a development build) does, the release profile of \<open>src/Cargo.toml\<close> aborts.
\<close>

definition scoped :: "bool \<Rightarrow> ('n \<Rightarrow> 'n) \<Rightarrow> ('a, 'n) task \<Rightarrow> ('a, 'n) task" where
  "scoped unwinds cleanup body s =
     (case body s of
        (Panic, s') \<Rightarrow> (Panic, if unwinds then cleanup s' else s')
      | (r, s') \<Rightarrow> (r, cleanup s'))"

text \<open>\<open>None\<close>: the program could not be started; otherwise whether it succeeded and its output.\<close>

definition must_run :: "('kp, 'tx, 'n) localnet \<Rightarrow> string list \<Rightarrow> string \<Rightarrow> (bytes, 'n) task" where
  "must_run ln args msg =
     bind_cmd (request (ln_output ln args) IoError) (\<lambda>(success, stdout).
     bind_cmd (lift (ensure success (Bail msg))) (\<lambda>_.
     lift (Ok stdout)))"

fun check_versions :: "('kp, 'tx, 'n) localnet \<Rightarrow> string list \<Rightarrow> (unit, 'n) task" where
  "check_versions ln [] = lift (Ok ())"
| "check_versions ln (program # programs) =
     bind_cmd (must_run ln [program, ''--version''] (''required command failed: '' @ program)) (\<lambda>_.
     check_versions ln programs)"

definition setup_checks :: "('kp, 'tx, 'n) localnet \<Rightarrow> (unit, 'n) task" where
  "setup_checks ln =
     bind_cmd (check_versions ln [''rustc'', ''cargo'', ''solana'', ''solana-test-validator'']) (\<lambda>_.
     bind_cmd (must_run ln [''cargo'', ''build-sbf'', ''--version''] ''cargo-build-sbf is required'') (\<lambda>_.
     lift (Ok ())))"

section \<open>Requests\<close>

definition get_slot :: "('kp, 'tx, 'n) localnet \<Rightarrow> 'n \<Rightarrow> u64 option \<times> 'n" where
  "get_slot ln s = (ep_get_slot (ln_endpoint ln s), ln_after ln [GetSlot] s)"

definition submit :: "('kp, 'tx, 'n) localnet \<Rightarrow> 'kp \<Rightarrow> Instruction \<Rightarrow> (string, 'n) task" where
  "submit ln signer instruction s =
     (case send_instruction (ln_endpoint ln s) signer instruction of
        (calls, r) \<Rightarrow> (r, ln_after ln calls s))"

definition execute_wallet ::
  "('kp, 'tx, 'n) localnet \<Rightarrow> bool \<Rightarrow> pubkey option \<Rightarrow> PreparedAction \<Rightarrow> host \<Rightarrow> u64 \<Rightarrow> u64
     \<Rightarrow> string \<Rightarrow> (LocalExecutionReceipt, 'n) task" where
  "execute_wallet ln public_cluster memo action rpc_url window_start window_end path s =
     (case execute_local_memo public_cluster memo
             ((ln_endpoint ln s)\<lparr>ep_read_keypair_file := ln_read_keypair_file ln path s\<rparr>)
             action rpc_url window_start window_end True True of
        (calls, r) \<Rightarrow> (map_err Client r, ln_after ln calls s))"

fun execute_wallets ::
  "('kp, 'tx, 'n) localnet \<Rightarrow> bool \<Rightarrow> pubkey option \<Rightarrow> PreparedAction \<Rightarrow> host \<Rightarrow> u64 \<Rightarrow> u64
     \<Rightarrow> string list \<Rightarrow> (LocalExecutionReceipt list, 'n) task" where
  "execute_wallets ln public_cluster memo action rpc_url ws we [] = lift (Ok [])"
| "execute_wallets ln public_cluster memo action rpc_url ws we (path # paths) =
     bind_cmd (execute_wallet ln public_cluster memo action rpc_url ws we path) (\<lambda>receipt.
     bind_cmd (execute_wallets ln public_cluster memo action rpc_url ws we paths) (\<lambda>receipts.
     lift (Ok (receipt # receipts))))"

section \<open>Preparing the validator\<close>

definition build_program :: "('kp, 'tx, 'n) localnet \<Rightarrow> (string \<times> string, 'n) task" where
  "build_program ln =
     bind_cmd (lift (ok_or (ln_workspace ln) (Bail ''workspace root unavailable''))) (\<lambda>workspace.
     bind_cmd (must_run ln [''cargo'', ''build-sbf'', ''--arch'', ''v3'', ''--manifest-path'',
       ''programs/mirror-pool-program/Cargo.toml''] ''SBF build failed'') (\<lambda>_.
     let artifact = path_join workspace ''target/deploy/mirror_pool_program.so'' in
     bind_cmd (\<lambda>s. (ensure (ln_is_file ln artifact s) (Bail ''SBF artifact missing''), s)) (\<lambda>_.
     lift (Ok (workspace, artifact)))))"

definition new_keypair :: "('kp, 'tx, 'n) localnet \<Rightarrow> ('kp, 'n) task" where
  "new_keypair ln s = (case ln_keypair_new ln s of (kp, s') \<Rightarrow> (Ok kp, s'))"

definition store_keypair :: "('kp, 'tx, 'n) localnet \<Rightarrow> 'kp \<Rightarrow> string \<Rightarrow> (unit, 'n) task" where
  "store_keypair ln kp path s =
     (case ln_write_keypair_file ln kp path s of (ok, s') \<Rightarrow> (ensure ok (Bail ''key write''), s'))"

definition solana :: "string \<Rightarrow> string list \<Rightarrow> string list" where
  "solana rpc_address args = [''solana'', ''--url'', rpc_address] @ args"

definition show_port :: "u16 \<Rightarrow> string" where
  "show_port port = show_nat (unat port)"

definition validator_args ::
  "string \<Rightarrow> u16 \<times> u16 \<times> u16 \<times> u16 \<times> u16 \<Rightarrow> string list" where
  "validator_args ledger = (\<lambda>(rpc, faucet, gossip, dynamic_start, dynamic_end).
     [''solana-test-validator'', ''--reset'', ''--quiet'', ''--ledger'', ledger,
      ''--rpc-port'', show_port rpc, ''--faucet-port'', show_port faucet,
      ''--gossip-port'', show_port gossip,
      ''--dynamic-port-range'', show_port dynamic_start @ ''-'' @ show_port dynamic_end])"

definition probe_validator :: "('kp, 'tx, 'n) localnet \<Rightarrow> string \<Rightarrow> 'n \<Rightarrow> bool \<times> 'n" where
  "probe_validator ln rpc_address s =
     (case ln_output ln (solana rpc_address [''cluster-version'']) s of
        (r, s') \<Rightarrow> (case r of None \<Rightarrow> False | Some (success, _) \<Rightarrow> success, s'))"

text \<open>\<open>str::lines\<close>: split at newlines, without a carriage return before one and a last empty line.\<close>

fun strip_cr :: "string \<Rightarrow> string" where
  "strip_cr txt = (if txt \<noteq> [] \<and> last txt = CHR 0x0D then butlast txt else txt)"

function lines_of :: "string \<Rightarrow> string list" where
  "lines_of txt =
    (if txt = [] then []
     else case dropWhile (\<lambda>c. c \<noteq> CHR 0x0A) txt of
       [] \<Rightarrow> [txt]
     | _ # rest \<Rightarrow> strip_cr (takeWhile (\<lambda>c. c \<noteq> CHR 0x0A) txt) # lines_of rest)"
  by pat_completeness auto
termination
proof (relation "measure length")
  fix out c rest assume "dropWhile (\<lambda>c. c \<noteq> CHR 0x0A) out = c # rest"
  then have "length (c # rest) \<le> length out" by (metis length_dropWhile_le)
  then show "(rest, out) \<in> measure length" by simp
qed simp

declare lines_of.simps [simp del]

definition strip_prefix :: "string \<Rightarrow> string \<Rightarrow> string option" where
  "strip_prefix p txt = (if take (length p) txt = p then Some (drop (length p) txt) else None)"

fun find_map :: "('a \<Rightarrow> 'b option) \<Rightarrow> 'a list \<Rightarrow> 'b option" where
  "find_map f [] = None"
| "find_map f (x # xs) = (case f x of None \<Rightarrow> find_map f xs | Some y \<Rightarrow> Some y)"

definition deploy_program ::
  "('kp, 'tx, 'n) localnet \<Rightarrow> string \<Rightarrow> 'kp \<Rightarrow> string \<Rightarrow> string \<Rightarrow> string \<Rightarrow> (string, 'n) task" where
  "deploy_program ln rpc_address authority authority_path program_path artifact =
     bind_cmd (must_run ln (solana rpc_address [''airdrop'', ''20'', ln_show_pubkey ln (ln_pubkey ln authority)])
       ''authority airdrop failed'') (\<lambda>_.
     bind_cmd (must_run ln [''solana'', ''program'', ''deploy'', ''--url'', rpc_address, ''--keypair'',
       authority_path, ''--program-id'', program_path, artifact] ''program deployment failed'') (\<lambda>stdout.
     bind_cmd (lift (ok_or (ln_from_utf8 ln stdout) (Bail ''utf-8''))) (\<lambda>txt.
     lift (ok_or (find_map (strip_prefix ''Signature: '') (lines_of txt))
       (Bail ''deployment signature missing'')))))"

fun fund_participants ::
  "('kp, 'tx, 'n) localnet \<Rightarrow> string \<Rightarrow> string \<Rightarrow> nat list \<Rightarrow> (string list, 'n) task" where
  "fund_participants ln rpc_address directory [] = lift (Ok [])"
| "fund_participants ln rpc_address directory (i # is) =
     bind_cmd (new_keypair ln) (\<lambda>participant.
     let path = path_join directory (''participant-'' @ show_nat i @ ''.json'') in
     bind_cmd (store_keypair ln participant path) (\<lambda>_.
     bind_cmd (must_run ln (solana rpc_address [''airdrop'', ''1'', ln_show_pubkey ln (ln_pubkey ln participant)])
       ''participant airdrop failed'') (\<lambda>_.
     bind_cmd (fund_participants ln rpc_address directory is) (\<lambda>paths.
     lift (Ok (path # paths))))))"

section \<open>Driving the round\<close>

text \<open>
  The parameters that stand for other packages: the SDK's codec and address search, the
  decoder of a round account, the parsed address of the memo program, the BLAKE3 hash and the
  build feature \<open>public_cluster\<close>.
\<close>

record packages =
  pk_sdk :: sdk
  pk_round_deserialize :: "bytes \<Rightarrow> RoundAccount option"
  pk_memo_program :: "pubkey option"
  pk_blake3 :: "bytes \<Rightarrow> bytes"
  pk_public_cluster :: bool

definition show_exists :: "('kp, 'tx, 'n) localnet \<Rightarrow> pubkey \<Rightarrow> (bool, 'n) task" where
  "show_exists ln key s = (case ln_get_account ln key s of (account, s') \<Rightarrow> (Ok (account \<noteq> None), s'))"

definition demo_template :: "packages \<Rightarrow> bytes" where
  "demo_template pk = digest_bytes (Digest32_hash (pk_blake3 pk) (ascii ''template'') (ascii ''memo-v1''))"

definition create_demo_pool ::
  "('kp, 'tx, 'n) localnet \<Rightarrow> packages \<Rightarrow> 'kp \<Rightarrow> pubkey \<Rightarrow> (pubkey, 'n) task" where
  "create_demo_pool ln pk authority program_id =
     bind_cmd (lift (map_err Client (initialize_pool_instruction (pk_sdk pk) program_id
         (ln_pubkey ln authority)
         (digest_bytes (Digest32_hash (pk_blake3 pk) (ascii ''full-demo-onchain'') (ascii ''pool'')))
         (demo_template pk) 10 50 2 50 30 Backend.MerkleCohort))) (\<lambda>(initialize, pool).
     bind_cmd (show_exists ln (ln_pubkey ln authority)) (\<lambda>_.
     bind_cmd (show_exists ln program_id) (\<lambda>_.
     bind_cmd (show_exists ln (sdk_system_program (pk_sdk pk))) (\<lambda>_.
     bind_cmd (show_exists ln pool) (\<lambda>_.
     bind_cmd (submit ln authority initialize) (\<lambda>_.
     lift (Ok pool)))))))"

definition open_demo_round ::
  "('kp, 'tx, 'n) localnet \<Rightarrow> packages \<Rightarrow> 'kp \<Rightarrow> pubkey \<Rightarrow> pubkey \<Rightarrow> (pubkey, 'n) task" where
  "open_demo_round ln pk authority program_id pool =
     bind_cmd (request (get_slot ln) RpcError) (\<lambda>slot.
     bind_cmd (lift (map_err Client (open_round_instruction (pk_sdk pk) program_id
         (ln_pubkey ln authority) pool 0 (saturating_add slot 1000) (demo_template pk)))) (\<lambda>(opening, round).
     bind_cmd (submit ln authority opening) (\<lambda>_.
     lift (Ok round))))"

definition submit_admin ::
  "('kp, 'tx, 'n) localnet \<Rightarrow> packages \<Rightarrow> 'kp \<Rightarrow> pubkey \<Rightarrow> pubkey \<Rightarrow> pubkey \<Rightarrow> CoordinationInstruction
     \<Rightarrow> (unit, 'n) task" where
  "submit_admin ln pk authority program_id pool round v =
     bind_cmd (lift (map_err Client (admin_round_instruction (pk_sdk pk) program_id
       (ln_pubkey ln authority) pool round v))) (\<lambda>ins.
     bind_cmd (submit ln authority ins) (\<lambda>_. lift (Ok ())))"

text \<open>The result is the release slot.\<close>

definition drive_demo_round ::
  "('kp, 'tx, 'n) localnet \<Rightarrow> packages \<Rightarrow> 'kp \<Rightarrow> pubkey \<Rightarrow> pubkey \<Rightarrow> pubkey \<Rightarrow> Digest32 \<Rightarrow> u32
     \<Rightarrow> (u64, 'n) task" where
  "drive_demo_round ln pk authority program_id pool round root included =
     bind_cmd (submit_admin ln pk authority program_id pool round
       (PublishCohortRoot (digest_bytes root) included)) (\<lambda>_.
     bind_cmd (submit_admin ln pk authority program_id pool round SealRound) (\<lambda>_.
     bind_cmd (request (get_slot ln) RpcError) (\<lambda>slot.
     let release_slot = saturating_add slot 10 in
     bind_cmd (submit_admin ln pk authority program_id pool round (ScheduleRelease release_slot)) (\<lambda>_.
     bind_cmd (wait_for_slot (get_slot ln) release_slot) (\<lambda>_.
     bind_cmd (lift (map_err Client (begin_window_instruction (pk_sdk pk) program_id round))) (\<lambda>beginning.
     bind_cmd (submit ln authority beginning) (\<lambda>_.
     lift (Ok release_slot))))))))"

definition check_round ::
  "('kp, 'tx, 'n) localnet \<Rightarrow> packages \<Rightarrow> pubkey \<Rightarrow> Digest32 \<Rightarrow> u32 \<Rightarrow> (unit, 'n) task" where
  "check_round ln pk round root included =
     bind_cmd (request (ln_get_account ln round) RpcError) (\<lambda>data.
     bind_cmd (lift (ok_or (pk_round_deserialize pk data) IoError)) (\<lambda>onchain.
     lift (ensure (ra_cohort_root onchain = digest_bytes root \<and> ra_accepted_count onchain = included
         \<and> ra_state onchain = State.ExecutionWindow) (Bail ''on-chain round verification failed''))))"

definition try_u32 :: "nat \<Rightarrow> (u32, CliError) result" where
  "try_u32 n = (if n < 2 ^ 32 then Ok (of_nat n) else Err (Bail ''out of range integral type conversion''))"

definition receipts_hash :: "(bytes \<Rightarrow> bytes) \<Rightarrow> LocalExecutionReceipt list \<Rightarrow> Digest32" where
  "receipts_hash blake3 receipts = Digest32_hash blake3 (ascii ''local-receipts'')
     (concat (map (ascii \<circ> lr_signature) receipts))"

text \<open>From the creation of the pool to the check of the round account; the result is the receipts.\<close>

definition run_demo_round ::
  "('kp, 'tx, 'n) localnet \<Rightarrow> packages \<Rightarrow> string \<Rightarrow> 'kp \<Rightarrow> pubkey \<Rightarrow> string list \<Rightarrow> Digest32 \<Rightarrow> u32
     \<Rightarrow> PreparedAction \<Rightarrow> (LocalExecutionReceipt list, 'n) task" where
  "run_demo_round ln pk rpc_address authority program_id participant_paths root included action =
     bind_cmd (create_demo_pool ln pk authority program_id) (\<lambda>pool.
     bind_cmd (open_demo_round ln pk authority program_id pool) (\<lambda>round.
     bind_cmd (drive_demo_round ln pk authority program_id pool round root included) (\<lambda>release_slot.
     bind_cmd (lift (ok_or (ln_parse_url ln rpc_address) (Bail ''url''))) (\<lambda>rpc_url.
     bind_cmd (execute_wallets ln (pk_public_cluster pk) (pk_memo_program pk) action rpc_url
       release_slot (saturating_add release_slot 30) (take 5 participant_paths)) (\<lambda>receipts.
     bind_cmd (check_round ln pk round root included) (\<lambda>_.
     lift (Ok receipts)))))))"

text \<open>What follows the start of the validator, which is killed at the end of the scope.\<close>

definition with_validator ::
  "('kp, 'tx, 'n) localnet \<Rightarrow> packages \<Rightarrow> string \<Rightarrow> string \<Rightarrow> string \<Rightarrow> 'kp \<Rightarrow> string \<Rightarrow> string \<Rightarrow> pubkey
     \<Rightarrow> Digest32 \<Rightarrow> u32 \<Rightarrow> PreparedAction \<Rightarrow> (LocalDemoResult, 'n) task" where
  "with_validator ln pk artifact directory rpc_address authority authority_path program_path program_id
     root included action =
     bind_cmd (wait_for_validator (probe_validator ln rpc_address)) (\<lambda>_.
     bind_cmd (deploy_program ln rpc_address authority authority_path program_path artifact) (\<lambda>signature.
     bind_cmd (fund_participants ln rpc_address directory [0..<6]) (\<lambda>participant_paths.
     bind_cmd (run_demo_round ln pk rpc_address authority program_id participant_paths root included
       action) (\<lambda>receipts.
     let slots = map lr_observed_slot receipts in
     bind_cmd (lift (try_u32 (length slots))) (\<lambda>n.
     lift (Ok \<lparr>ld_submitted = n, ld_confirmed = n,
       ld_spread = saturating_sub (max_or 0 slots) (min_or 0 slots), ld_program_id = program_id,
       ld_deployment_signature = signature, ld_receipt_hash = receipts_hash (pk_blake3 pk) receipts\<rparr>))))))"

definition spawn_validator :: "('kp, 'tx, 'n) localnet \<Rightarrow> string list \<Rightarrow> (unit, 'n) task" where
  "spawn_validator ln args s = (case ln_spawn ln args s of (ok, s') \<Rightarrow> (ensure ok IoError, s'))"

definition run_localnet_demo ::
  "('kp, 'tx, 'n) localnet \<Rightarrow> packages \<Rightarrow> Digest32 \<Rightarrow> u32 \<Rightarrow> PreparedAction \<Rightarrow> (LocalDemoResult, 'n) task" where
  "run_localnet_demo ln pk root included action =
     bind_cmd (setup_checks ln) (\<lambda>_.
     bind_cmd (build_program ln) (\<lambda>(workspace, artifact).
     bind_cmd (request (ln_tempdir ln) IoError) (\<lambda>directory.
     scoped (ln_unwinds ln) (ln_remove_dir ln directory) (
       bind_cmd (new_keypair ln) (\<lambda>authority.
       bind_cmd (new_keypair ln) (\<lambda>program.
       let authority_path = path_join directory ''authority.json'';
           program_path = path_join directory ''program.json'' in
       bind_cmd (store_keypair ln authority authority_path) (\<lambda>_.
       bind_cmd (store_keypair ln program program_path) (\<lambda>_.
       bind_cmd (\<lambda>s. (available_ports (ln_can_bind ln s), s)) (\<lambda>ports.
       let rpc_address = ''http://127.0.0.1:'' @ show_port (fst ports) in
       bind_cmd (spawn_validator ln
         (validator_args (path_join directory ''validator-ledger'') ports)) (\<lambda>_.
       scoped (ln_unwinds ln) (ln_kill ln)
         (with_validator ln pk artifact directory rpc_address authority authority_path program_path
            (ln_pubkey ln program) root included action)))))))))))"

section \<open>The full demonstration\<close>

definition on_world :: "('a, 'n) task \<Rightarrow> tree \<times> 'n \<Rightarrow> ('a, CliError) result \<times> tree \<times> 'n" where
  "on_world m p = (case m (snd p) of (r, s) \<Rightarrow> (r, fst p, s))"

definition on_tree :: "(tree \<Rightarrow> ('a, CliError) result \<times> tree) \<Rightarrow> tree \<times> 'n
    \<Rightarrow> ('a, CliError) result \<times> tree \<times> 'n" where
  "on_tree m p = (case m (fst p) of (r, t) \<Rightarrow> (r, t, snd p))"

fun simulate_times :: "nat \<Rightarrow> PreparedAction \<Rightarrow> (unit, CliError) result" where
  "simulate_times 0 action = Ok ()"
| "simulate_times (Suc n) action =
     and_then (map_err Action (MemoTemplate_simulate action)) (\<lambda>r.
     and_then (ensure (sr_succeeded r) (Bail ''condition failed'')) (\<lambda>_.
     simulate_times n action))"

text \<open>The numbers \<open>full_demo\<close> prints, with the local result.\<close>

record DemoSummary =
  ds_accepted :: nat
  ds_included :: u32
  ds_simulated :: u32
  ds_dropped :: u32
  ds_second_included :: u32
  ds_local :: LocalDemoResult
  ds_trace_hash :: Digest32

text \<open>
  The database and the evidence lie in a temporary directory: the store starts empty, and both
  are gone with the directory at the end. A subtraction below zero panics.
\<close>

definition remove_under :: "string \<Rightarrow> tree \<Rightarrow> tree" where
  "remove_under directory t =
     (\<lambda>p. if prefix directory p then None else fst t p, {p \<in> snd t. \<not> prefix directory p})"

definition full_demo ::
  "('sk, 'vk) crypto \<Rightarrow> env \<Rightarrow> (bytes \<Rightarrow> bytes) \<Rightarrow> ('g, 'f) lab \<Rightarrow> (bytes \<Rightarrow> string) \<Rightarrow> 'f evidence_env
     \<Rightarrow> (Manifest \<Rightarrow> bytes option) \<Rightarrow> (bytes \<Rightarrow> Manifest option) \<Rightarrow> disk \<Rightarrow> packages
     \<Rightarrow> ('kp, 'tx, 'n) localnet \<Rightarrow> tree \<times> 'n \<Rightarrow> (DemoSummary, CliError) result \<times> tree \<times> 'n" where
  "full_demo cr env draw lb hex ev manifest_json manifest_from dk pk ln =
     bind_cmd (on_world (request (ln_tempdir ln) IoError)) (\<lambda>directory.
     scoped (ln_unwinds ln) (\<lambda>(t, s). (remove_under directory t, ln_remove_dir ln directory s)) (
       bind_cmd (lift (fst (full_demo_rounds cr env draw empty_db))) (\<lambda>(root, included, second_included).
       bind_cmd (lift (lab_evaluate lb
         (scenario 25 7 PrivacyBackend.MerkleCohort (f_decimal (lb_f64 lb) 8 2)))) (\<lambda>report.
       let observed = em_observed_cohort_size (er_metrics report) in
       bind_cmd (lift (ok_or (pk_memo_program pk) PubkeyError)) (\<lambda>memo_program.
       bind_cmd (lift (map_err Action (MemoTemplate_prepare \<lparr>mt_memo_program_id = memo_program\<rparr>
         (Memo (map of_char ''mirror-pool-demo''))))) (\<lambda>action.
       bind_cmd (lift (simulate_times (unat observed) action)) (\<lambda>_.
       bind_cmd (on_world (run_localnet_demo ln pk root included action)) (\<lambda>local.
       let evidence = path_join directory ''evidence'' in
       bind_cmd (on_tree (generate lb hex ev manifest_json dk evidence (Some local))) (\<lambda>_.
       bind_cmd (on_tree (on_files (verify ev manifest_from dk evidence))) (\<lambda>_.
       bind_cmd (lift (case checked_sub 25 observed of None \<Rightarrow> Panic | Some d \<Rightarrow> Ok d)) (\<lambda>dropped.
       lift (Ok \<lparr>ds_accepted = 25, ds_included = included, ds_simulated = observed,
         ds_dropped = dropped, ds_second_included = second_included, ds_local = local,
         ds_trace_hash = er_trace_hash report\<rparr>))))))))))))"

section \<open>What a finished run shows\<close>

lemma scoped_Ok_iff [result_simps]:
  "scoped u cleanup body s = (Ok a, s') \<longleftrightarrow> (\<exists>s1. body s = (Ok a, s1) \<and> s' = cleanup s1)"
  by (auto simp: scoped_def split: prod.splits result.splits)

lemma request_Ok_iff [result_simps]:
  "request m e s = (Ok a, s') \<longleftrightarrow> m s = (Some a, s')"
  by (auto simp: request_def result_simps split: prod.splits)

text \<open>A successful guarded execution has sent its transaction, after all the checks.\<close>

lemma execute_confirmed:
  assumes "snd (execute_local_memo pc memo ep a url ws we True True) = Ok r"
  obtains tx where "send_justified memo ep a url ws we (lr_observed_slot r) (lr_estimated_fee_lamports r) tx"
    "ep_send_and_confirm ep tx = Some (lr_signature r)"
    "fst (execute_local_memo pc memo ep a url ws we True True)
       = [GetSlot, ReadKeypair, GetLatestBlockhash, Simulate tx, GetFee tx, Send tx]"
proof -
  have "\<exists>tx. send_justified memo ep a url ws we (lr_observed_slot r) (lr_estimated_fee_lamports r) tx
      \<and> ep_send_and_confirm ep tx = Some (lr_signature r)"
    using assms unfolding execute_local_memo_def
    by (auto simp: result_simps is_ok_unit map_err_Ok_iff memo_policy_validates send_justified_def
        memo_transaction_def within_default_limits_def Let_def not_less
        split: if_splits option.splits)
  then obtain tx where tx: "send_justified memo ep a url ws we (lr_observed_slot r) (lr_estimated_fee_lamports r) tx"
    "ep_send_and_confirm ep tx = Some (lr_signature r)" by blast
  show ?thesis using that [OF tx] execute_justified [OF _ _ tx(1), of True True pc] by simp
qed

text \<open>
  One wallet after the other has executed the action: at the state its turn comes, the checks of
  \<open>send_justified\<close> hold of a transaction signed with this wallet's key, the endpoint confirms it
  with the signature of the receipt, and the state moves on by exactly the requests of one
  guarded execution, the last of which sends this transaction.
\<close>

fun executed ::
  "('kp, 'tx, 'n) localnet \<Rightarrow> pubkey option \<Rightarrow> PreparedAction \<Rightarrow> host \<Rightarrow> u64 \<Rightarrow> u64 \<Rightarrow> string list
     \<Rightarrow> 'n \<Rightarrow> LocalExecutionReceipt list \<Rightarrow> 'n \<Rightarrow> bool" where
  "executed ln memo a url ws we [] s receipts s' \<longleftrightarrow> receipts = [] \<and> s' = s"
| "executed ln memo a url ws we (path # paths) s receipts s' \<longleftrightarrow>
    (\<exists>r rest ep tx. receipts = r # rest
       \<and> ep = (ln_endpoint ln s)\<lparr>ep_read_keypair_file := ln_read_keypair_file ln path s\<rparr>
       \<and> send_justified memo ep a url ws we (lr_observed_slot r) (lr_estimated_fee_lamports r) tx
       \<and> ep_send_and_confirm ep tx = Some (lr_signature r)
       \<and> executed ln memo a url ws we paths
           (ln_after ln [GetSlot, ReadKeypair, GetLatestBlockhash, Simulate tx, GetFee tx, Send tx] s)
           rest s')"

lemma execute_wallets_Ok:
  assumes "execute_wallets ln pc memo a url ws we paths s = (Ok rs, s')"
  shows "executed ln memo a url ws we paths s rs s'"
  using assms
proof (induction paths arbitrary: rs s)
  case (Cons path paths)
  let ?ep = "(ln_endpoint ln s)\<lparr>ep_read_keypair_file := ln_read_keypair_file ln path s\<rparr>"
  from Cons.prems obtain r s1 rest where
    r: "execute_wallet ln pc memo a url ws we path s = (Ok r, s1)"
    and rest: "execute_wallets ln pc memo a url ws we paths s1 = (Ok rest, s')" and rs: "rs = r # rest"
    by (auto simp: result_simps)
  have ok: "snd (execute_local_memo pc memo ?ep a url ws we True True) = Ok r"
    and s1: "s1 = ln_after ln (fst (execute_local_memo pc memo ?ep a url ws we True True)) s"
    using r by (auto simp: execute_wallet_def map_err_Ok_iff split: prod.splits)
  from ok show ?case
    by (rule execute_confirmed) (use Cons.IH [OF rest] s1 rs in auto)
qed (simp add: result_simps)

lemma executed_receipts:
  assumes "executed ln memo a url ws we paths s rs s'"
  shows "length rs = length paths"
    and "\<forall>r \<in> set rs. ws \<le> lr_observed_slot r \<and> lr_observed_slot r \<le> we"
proof -
  have "length rs = length paths
      \<and> (\<forall>r \<in> set rs. ws \<le> lr_observed_slot r \<and> lr_observed_slot r \<le> we)"
    using assms
  proof (induction paths arbitrary: s rs)
    case (Cons path paths)
    then show ?case by (fastforce simp: send_justified_def)
  qed simp
  then show "length rs = length paths"
    and "\<forall>r \<in> set rs. ws \<le> lr_observed_slot r \<and> lr_observed_slot r \<le> we" by blast+
qed

lemma fund_participants_length:
  "fund_participants ln addr d is s = (Ok paths, s') \<Longrightarrow> length paths = length is"
  by (induction "is" arbitrary: paths s) (auto simp: result_simps Let_def)

lemma check_round_Ok:
  assumes "check_round ln pk round root included s = (Ok (), s')"
  obtains data r where "ln_get_account ln round s = (Some data, s')"
    "pk_round_deserialize pk data = Some r" "ra_cohort_root r = digest_bytes root"
    "ra_accepted_count r = included" "ra_state r = State.ExecutionWindow"
  using assms that by (auto simp: check_round_def result_simps)

lemma saturating_add_le:
  fixes a b :: "'a::len word"
  shows "unat (saturating_add a b) \<le> unat a + unat b"
proof (cases "unat a + unat b < 2 ^ LENGTH('a)")
  case True
  then show ?thesis by (simp add: saturating_add_def unat_word_ariths)
next
  case False
  have "unat (saturating_add a b) < 2 ^ LENGTH('a)" by (rule unsigned_less)
  then show ?thesis using False by linarith
qed

lemma window_spread:
  assumes "\<forall>x \<in> set slots. ws \<le> x \<and> x \<le> saturating_add ws 30"
  shows "saturating_sub (max_or 0 slots) (min_or 0 slots) \<le> (30 :: u64)"
proof -
  have "unat (spread 0 slots) \<le> 30"
    using saturating_add_le [of ws 30] assms
    by (intro spread_le [of _ "unat ws"]) (fastforce simp: word_le_nat_alt)
  then show ?thesis by (simp add: spread_def word_le_nat_alt)
qed

text \<open>
  What the part of the demonstration on the validator has done when it reports \<open>d\<close>, leaving the
  state \<open>s'\<close>: the addresses of its pool and round are those of the instructions that create
  them, the five executions follow one another and the account of this round is read right after
  them.
\<close>

definition demo_done ::
  "('kp, 'tx, 'n) localnet \<Rightarrow> packages \<Rightarrow> Digest32 \<Rightarrow> u32 \<Rightarrow> PreparedAction \<Rightarrow> LocalDemoResult \<Rightarrow> 'n \<Rightarrow> bool"
  where
  "demo_done ln pk root included action d s' \<longleftrightarrow>
    (\<exists>authority initialize pool slot opening round address url release paths s1 receipts s2 data r.
       initialize_pool_instruction (pk_sdk pk) (ld_program_id d) (ln_pubkey ln authority)
         (digest_bytes (Digest32_hash (pk_blake3 pk) (ascii ''full-demo-onchain'') (ascii ''pool'')))
         (demo_template pk) 10 50 2 50 30 Backend.MerkleCohort = Ok (initialize, pool)
     \<and> open_round_instruction (pk_sdk pk) (ld_program_id d) (ln_pubkey ln authority) pool 0
         (saturating_add slot 1000) (demo_template pk) = Ok (opening, round)
     \<and> ln_parse_url ln address = Some url \<and> length paths = 5
     \<and> executed ln (pk_memo_program pk) action url release (saturating_add release 30) paths
         s1 receipts s2
     \<and> ld_submitted d = of_nat (length receipts) \<and> ld_confirmed d = of_nat (length receipts)
     \<and> ld_receipt_hash d = receipts_hash (pk_blake3 pk) receipts
     \<and> ld_spread d = saturating_sub (max_or 0 (map lr_observed_slot receipts))
         (min_or 0 (map lr_observed_slot receipts))
     \<and> ln_get_account ln round s2 = (Some data, s')
     \<and> pk_round_deserialize pk data = Some r \<and> ra_cohort_root r = digest_bytes root
     \<and> ra_accepted_count r = included \<and> ra_state r = State.ExecutionWindow)"

lemma demo_done_numbers:
  assumes "demo_done ln pk root included action d s'"
  shows "ld_submitted d = 5 \<and> ld_confirmed d = 5 \<and> ld_spread d \<le> 30"
proof -
  from assms obtain url release paths s1 receipts s2 where len: "length paths = 5"
    and run: "executed ln (pk_memo_program pk) action url release (saturating_add release 30) paths
         s1 receipts s2"
    and d: "ld_submitted d = of_nat (length receipts)" "ld_confirmed d = of_nat (length receipts)"
      "ld_spread d = saturating_sub (max_or 0 (map lr_observed_slot receipts))
         (min_or 0 (map lr_observed_slot receipts))"
    unfolding demo_done_def by blast
  show ?thesis
    using executed_receipts [OF run] len d window_spread [of "map lr_observed_slot receipts" release]
    by simp
qed

lemma with_validator_Ok:
  assumes "with_validator ln pk artifact directory rpc authority apath ppath program_id root included
      action s = (Ok d, s')"
  shows "demo_done ln pk root included action d s'"
proof -
  from assms obtain paths s1 s2 url slot release initialize pool opening_ins receipts s3 s4 round n signature where
    fund: "fund_participants ln rpc directory [0..<6] s1 = (Ok paths, s2)"
    and init: "initialize_pool_instruction (pk_sdk pk) program_id (ln_pubkey ln authority)
         (digest_bytes (Digest32_hash (pk_blake3 pk) (ascii ''full-demo-onchain'') (ascii ''pool'')))
         (demo_template pk) 10 50 2 50 30 Backend.MerkleCohort = Ok (initialize, pool)"
    and opened: "open_round_instruction (pk_sdk pk) program_id (ln_pubkey ln authority) pool 0
         (saturating_add slot 1000) (demo_template pk) = Ok (opening_ins, round)"
    and url: "ln_parse_url ln rpc = Some url"
    and run: "execute_wallets ln (pk_public_cluster pk) (pk_memo_program pk) action url release
        (saturating_add release 30) (take 5 paths) s3 = (Ok receipts, s4)"
    and round: "check_round ln pk round root included s4 = (Ok (), s')"
    and n: "try_u32 (length (map lr_observed_slot receipts)) = Ok n"
    and d: "d = \<lparr>ld_submitted = n, ld_confirmed = n,
       ld_spread = saturating_sub (max_or 0 (map lr_observed_slot receipts))
         (min_or 0 (map lr_observed_slot receipts)), ld_program_id = program_id,
       ld_deployment_signature = signature, ld_receipt_hash = receipts_hash (pk_blake3 pk) receipts\<rparr>"
    unfolding with_validator_def run_demo_round_def create_demo_pool_def open_demo_round_def
    by (auto simp: result_simps Let_def simp del: upt_rec_numeral)
  have paths: "length (take 5 paths) = 5" using fund_participants_length [OF fund] by simp
  have "n = of_nat (length receipts)" using n by (simp add: try_u32_def split: if_splits)
  moreover obtain data r where "ln_get_account ln round s4 = (Some data, s')"
    "pk_round_deserialize pk data = Some r" "ra_cohort_root r = digest_bytes root"
    "ra_accepted_count r = included" "ra_state r = State.ExecutionWindow"
    using check_round_Ok [OF round] by metis
  ultimately show ?thesis unfolding demo_done_def
    using init opened url paths execute_wallets_Ok [OF run] d
    by (intro exI [of _ authority] exI [of _ initialize] exI [of _ pool] exI [of _ slot]
        exI [of _ opening_ins] exI [of _ round] exI [of _ rpc] exI [of _ url] exI [of _ release]
        exI [of _ "take 5 paths"] exI [of _ s3] exI [of _ receipts] exI [of _ s4] exI [of _ data]
        exI [of _ r]) simp
qed

lemma localnet_demo_Ok:
  assumes "run_localnet_demo ln pk root included action s = (Ok d, s')"
  shows "\<exists>directory s2. demo_done ln pk root included action d s2
    \<and> s' = ln_remove_dir ln directory (ln_kill ln s2)"
proof -
  obtain artifact directory rpc authority apath ppath program_id s2 s1 where
    run: "with_validator ln pk artifact directory rpc authority apath ppath program_id root included
      action s1 = (Ok d, s2)" and s': "s' = ln_remove_dir ln directory (ln_kill ln s2)"
    using assms unfolding run_localnet_demo_def by (auto simp: result_simps Let_def)
  show ?thesis using with_validator_Ok [OF run] s' by blast
qed

lemma localnet_demo_numbers:
  assumes "run_localnet_demo ln pk root included action s = (Ok d, s')"
  shows "ld_submitted d = 5 \<and> ld_confirmed d = 5 \<and> ld_spread d \<le> 30"
proof -
  obtain directory s2 where "demo_done ln pk root included action d s2"
    using localnet_demo_Ok [OF assms] by auto
  then show ?thesis by (rule demo_done_numbers)
qed


section \<open>Cleaning up\<close>

definition maintains :: "('n \<Rightarrow> bool) \<Rightarrow> ('a, 'n) task \<Rightarrow> bool" where
  "maintains P m \<longleftrightarrow> (\<forall>s. P s \<longrightarrow> P (snd (m s)))"

lemma maintains_lift: "maintains P (lift r)"
  by (simp add: maintains_def lift_def)

lemma maintains_bind:
  assumes "maintains P m" "\<And>a. maintains P (k a)"
  shows "maintains P (bind_cmd m k)"
  using assms unfolding maintains_def bind_cmd_alt by (auto split: result.splits)

lemma maintains_request: "(\<And>s. P s \<Longrightarrow> P (snd (m s))) \<Longrightarrow> maintains P (request m e)"
  by (simp add: maintains_def request_def case_prod_beta)

lemma maintains_check: "maintains P (\<lambda>s. (c s, s))"
  by (simp add: maintains_def)

text \<open>The same for a task with clean-ups, unless it panics in a build that aborts.\<close>

definition cleans :: "bool \<Rightarrow> ('n \<Rightarrow> bool) \<Rightarrow> ('a, 'n) task \<Rightarrow> bool" where
  "cleans unwinds P m \<longleftrightarrow> (\<forall>s. P s \<longrightarrow> unwinds \<or> fst (m s) \<noteq> Panic \<longrightarrow> P (snd (m s)))"

lemma maintains_cleans: "maintains P m \<Longrightarrow> cleans u P m"
  by (simp add: maintains_def cleans_def)

lemma cleans_bind:
  assumes "cleans u P m" "\<And>a. cleans u P (k a)"
  shows "cleans u P (bind_cmd m k)"
  using assms unfolding cleans_def bind_cmd_alt by (auto split: result.splits)

text \<open>\<open>idle\<close> is any property of the world that only starting a validator can end.\<close>

definition idle_world :: "('kp, 'tx, 'n) localnet \<Rightarrow> ('n \<Rightarrow> bool) \<Rightarrow> bool" where
  "idle_world ln idle \<longleftrightarrow> (\<forall>s. idle (ln_kill ln s))
   \<and> (\<forall>s. idle s \<longrightarrow> (\<forall>directory. idle (ln_remove_dir ln directory s))
        \<and> (\<forall>args. idle (snd (ln_output ln args s))) \<and> idle (snd (ln_tempdir ln s))
        \<and> idle (snd (ln_keypair_new ln s))
        \<and> (\<forall>kp path. idle (snd (ln_write_keypair_file ln kp path s)))
        \<and> (\<forall>args. \<not> fst (ln_spawn ln args s) \<longrightarrow> idle (snd (ln_spawn ln args s))))"

lemma idle_must_run:
  assumes "idle_world ln idle"
  shows "maintains idle (must_run ln args msg)"
  using assms unfolding must_run_def
  by (auto intro!: maintains_bind maintains_lift maintains_request simp: idle_world_def)

lemma idle_check_versions:
  assumes "idle_world ln idle"
  shows "maintains idle (check_versions ln programs)"
  by (induction programs) (auto intro: maintains_lift maintains_bind idle_must_run [OF assms])

lemma idle_keypairs:
  assumes "idle_world ln idle"
  shows "maintains idle (new_keypair ln)" "maintains idle (store_keypair ln kp path)"
  using assms
  by (simp_all add: maintains_def new_keypair_def store_keypair_def idle_world_def case_prod_beta)

lemma cleans_scoped:
  assumes "cleans u P body" "\<And>s. P s \<Longrightarrow> P (cleanup s)"
  shows "cleans u P (scoped u cleanup body)"
  using assms unfolding cleans_def scoped_def by (fastforce split: prod.splits result.splits)

lemma idle_spawn_scoped:
  assumes "idle_world ln idle"
  shows "cleans u idle (bind_cmd (spawn_validator ln args) (\<lambda>_. scoped u (ln_kill ln) body))"
  using assms unfolding cleans_def bind_cmd_alt spawn_validator_def scoped_def idle_world_def
  by (auto simp: ensure_def case_prod_beta split: result.splits)

lemma idle_localnet_demo:
  assumes "idle_world ln idle"
  shows "cleans (ln_unwinds ln) idle (run_localnet_demo ln pk root included action)"
  unfolding run_localnet_demo_def setup_checks_def build_program_def Let_def split_beta
  by (intro cleans_bind cleans_scoped idle_spawn_scoped maintains_cleans maintains_bind maintains_lift
      maintains_check idle_must_run idle_check_versions idle_keypairs maintains_request assms)
    (use assms in \<open>auto simp: idle_world_def\<close>)

section \<open>The whole demonstration\<close>

lemma on_world_Ok_iff [result_simps]:
  "on_world m p = (Ok a, p') \<longleftrightarrow> m (snd p) = (Ok a, snd p') \<and> fst p' = fst p"
  by (cases p') (auto simp: on_world_def split: prod.splits)

lemma on_tree_Ok_iff [result_simps]:
  "on_tree m p = (Ok a, p') \<longleftrightarrow> m (fst p) = (Ok a, fst p') \<and> snd p' = snd p"
  by (cases p') (auto simp: on_tree_def split: prod.splits)

lemma simulate_times_Ok:
  assumes "MemoTemplate_prepare self ps = Ok a"
  shows "simulate_times n a = Ok ()"
proof -
  have "MemoTemplate_simulate a = Ok r \<Longrightarrow> sr_succeeded r" for r
    using assms memo_size_small by (auto simp: memo_prepare_Ok_iff MemoTemplate_simulate_def)
  then show ?thesis
    by (induction n) (auto simp: MemoTemplate_simulate_def)
qed

definition demo_memo :: "pubkey \<Rightarrow> PreparedAction" where
  "demo_memo program = (case MemoTemplate_prepare \<lparr>mt_memo_program_id = program\<rparr>
     (Memo (map of_char ''mirror-pool-demo'')) of Ok a \<Rightarrow> a)"

lemma demo_memo_prepared:
  "MemoTemplate_prepare \<lparr>mt_memo_program_id = program\<rparr> (Memo (map of_char ''mirror-pool-demo''))
     = Ok (demo_memo program)"
proof -
  have "utf8 (map of_char ''mirror-pool-demo'') \<noteq> []"
    "length (utf8 (map of_char ''mirror-pool-demo'')) \<le> 64"
    "\<not> list_ex is_control (map of_char ''mirror-pool-demo'')"
    by code_simp+
  then obtain a where a: "MemoTemplate_prepare \<lparr>mt_memo_program_id = program\<rparr>
      (Memo (map of_char ''mirror-pool-demo'')) = Ok a"
    unfolding memo_prepare_Ok_iff by blast
  then show ?thesis by (simp only: demo_memo_def result.case)
qed

lemma refuse_patterns_cases:
  "refuse_patterns ps out = Ok ()
   \<or> (\<exists>p \<in> set ps. refuse_patterns ps out = Err (Bail (''sensitive pattern: '' @ p)))"
  by (induction ps) (auto simp: ensure_def)

lemma generated_evidence_outcome:
  assumes "disk_works dk" "lab_ok lb" "\<forall>q \<in> set (ancestors path). fst t q = None"
    and "\<forall>rs. ev_reports_json ev rs \<noteq> None"
    and "\<forall>json csv md. manifest_json (generated_manifest (ev_hash_hex ev) 127 result json csv md) \<noteq> None"
    and "\<forall>m bs. manifest_json m = Some bs \<longrightarrow> manifest_from bs = Some m"
    and "demo_plausible result"
  obtains t' where "generate lb hex ev manifest_json dk path result t = (Ok 127, t')"
    "verify ev manifest_from dk path (fst t') = (Ok (), fst t')
     \<or> (\<exists>p \<in> set sensitive_patterns. verify ev manifest_from dk path (fst t')
          = (Err (Bail (''sensitive pattern: '' @ p)), fst t'))"
proof -
  from assms(1-5) obtain t' json csv md mb where
    gen: "generate lb hex ev manifest_json dk path result t = (Ok 127, t')"
    and mb: "manifest_json (generated_manifest (ev_hash_hex ev) 127 result json csv md) = Some mb"
    and written: "evidence_file (fst t') path ''evaluation.json'' = Some json"
      "evidence_file (fst t') path ''evaluation.csv'' = Some csv"
      "evidence_file (fst t') path ''evaluation.md'' = Some md"
      "evidence_file (fst t') path ''manifest.json'' = Some mb"
    by (rule generate_writes)
  have m: "manifest_from mb = Some (generated_manifest (ev_hash_hex ev) 127 result json csv md)"
    using assms(6) mb by blast
  have reads: "read_file dk (path_join path name) (fst t') = (Ok bs, fst t')"
    if "evidence_file (fst t') path name = Some bs" for name bs
    using that assms(1) by (auto simp: read_file_Ok_iff disk_works_def evidence_file_def)
  have "verify ev manifest_from dk path (fst t') = (refuse_patterns sensitive_patterns
      (ev_lowercase ev (ev_lossy ev json @ ev_lossy ev csv @ ev_lossy ev md @ ev_lossy ev mb)), fst t')"
    using generated_manifest_checks [OF assms(7)] m
    by (simp add: verify_def bind_cmd_Ok written [THEN reads] lift_def)
  then show ?thesis using that gen
      refuse_patterns_cases [of sensitive_patterns
        "ev_lowercase ev (ev_lossy ev json @ ev_lossy ev csv @ ev_lossy ev md @ ev_lossy ev mb)"]
    by auto
qed

text \<open>
  C32. The full demonstration succeeds as soon as the local validator's part does: when the store,
  the disk and the serialisers do not fail, the 35 tickets do not clash, the rates lie in the
  simulator's range and the local part succeeds for a root of two nodes and 25 tickets, then
  \<open>full_demo\<close> reports both cohorts in full, five confirmed transactions and consistent numbers
  of simulated and dropped participants, without underflow; the only failure left is a
  sensitive pattern in the evidence it wrote.
\<close>

theorem full_demo_reports:
  assumes "demo_env cr env"
    and "demo_cohort cr draw (demo_round cr 1) 10000 1 2 (map of_nat [0..<25]) t c"
    and "demo_cohort cr draw (demo_round cr 2) 20000 50 70 (map of_nat [0..<10]) t2 c2"
    and "\<forall>i < 25. \<forall>j < 10. c (of_nat i) \<noteq> c2 (of_nat j)"
    and "lab_ok lb" "f_le (lb_f64 lb) (f_decimal (lb_f64 lb) 0 0) (f_decimal (lb_f64 lb) 8 2)"
    and "f_less (lb_f64 lb) (f_decimal (lb_f64 lb) 8 2) (f_decimal (lb_f64 lb) 1 0)"
    and "disk_works dk" "\<forall>rs. ev_reports_json ev rs \<noteq> None"
    and "\<forall>d json csv md. manifest_json (generated_manifest (ev_hash_hex ev) 127 (Some d) json csv md) \<noteq> None"
    and "\<forall>m bs. manifest_json m = Some bs \<longrightarrow> manifest_from bs = Some m"
    and "pk_memo_program pk = Some program" "ln_tempdir ln s = (Some directory, s1)"
    and "\<forall>q \<in> set (ancestors (path_join directory ''evidence'')). fst files q = None"
    and "\<forall>l r. \<exists>d s2. run_localnet_demo ln pk (parent (cr_blake3 cr) l r) 25 (demo_memo program) s1
      = (Ok d, s2)"
  shows "(\<exists>summary. fst (full_demo cr env draw lb hex ev manifest_json manifest_from dk pk ln (files, s))
        = Ok summary
      \<and> ds_included summary = 25 \<and> ds_second_included summary = 10
      \<and> unat (ds_simulated summary) + unat (ds_dropped summary) = 25
      \<and> ld_submitted (ds_local summary) = 5 \<and> ld_confirmed (ds_local summary) = 5
      \<and> ld_spread (ds_local summary) \<le> 30)
    \<or> (\<exists>p \<in> set sensitive_patterns.
        fst (full_demo cr env draw lb hex ev manifest_json manifest_from dk pk ln (files, s))
        = Err (Bail (''sensitive pattern: '' @ p)))"
proof -
  obtain root db l r where rounds: "full_demo_rounds cr env draw empty_db = (Ok (root, 25, 10), db)"
    and root: "root = parent (cr_blake3 cr) l r"
    using full_demo_run [OF assms(1-4)] by blast
  let ?sc = "scenario 25 7 PrivacyBackend.MerkleCohort (f_decimal (lb_f64 lb) 8 2)"
  have "validate (lb_f64 lb) ?sc = Ok ()" "unat (sc_execution_window_slots ?sc) \<le> 20"
    using assms(6,7) by (simp_all add: validate_def scenario_def)
  then obtain rep where rep: "lab_evaluate lb ?sc = Ok rep"
    using lab_evaluate_total [OF assms(5)] by blast
  let ?observed = "em_observed_cohort_size (er_metrics rep)"
  have "?observed \<le> 25"
    using evaluation_bounded [of "lb_f64 lb" "lb_rng lb" "lb_blake3 lb" "lb_trace lb" ?sc rep] rep assms(5)
    by (auto simp: lab_evaluate_def map_err_Ok_iff lab_ok_def scenario_def)
  then have sub: "checked_sub 25 ?observed = Some (25 - ?observed)"
    "unat ?observed + unat (25 - ?observed) = 25"
    by (simp_all add: checked_sub_def unat_sub word_le_nat_alt)
  obtain d s2 where local: "run_localnet_demo ln pk root 25 (demo_memo program) s1 = (Ok d, s2)"
    using assms(15) root by blast
  have d: "ld_submitted d = 5 \<and> ld_confirmed d = 5 \<and> ld_spread d \<le> 30"
    by (rule localnet_demo_numbers [OF local])
  have "demo_plausible (Some d)" using d by (simp add: demo_plausible_def)
  with assms(5,8-11,14) obtain t' where gen:
    "generate lb hex ev manifest_json dk (path_join directory ''evidence'') (Some d) files = (Ok 127, t')"
    "verify ev manifest_from dk (path_join directory ''evidence'') (fst t') = (Ok (), fst t')
     \<or> (\<exists>p \<in> set sensitive_patterns. verify ev manifest_from dk (path_join directory ''evidence'') (fst t')
          = (Err (Bail (''sensitive pattern: '' @ p)), fst t'))"
    by (rule_tac generated_evidence_outcome [of dk lb "path_join directory ''evidence''" files ev
          manifest_json "Some d" manifest_from hex]) auto
  show ?thesis
    unfolding full_demo_def
    using rounds rep assms(12,13) demo_memo_prepared [of program] simulate_times_Ok [OF demo_memo_prepared]
      local gen sub d
    by (auto simp: bind_cmd_def lift_def on_world_def on_tree_def on_files_def request_def scoped_def Let_def)
qed

end
