(* ===== verification/MP_Rounds.thy ===== *)
theory MP_Rounds
  imports MP_Program
begin

text \<open>
  What the instructions of the on-chain program do to the round accounts of the ledger.

  \<open>round_step\<close> is the abstract specification of a round: the seven ways its metadata
  may change, over the pool policies of the ledger and the clock, with no account lists,
  owners, signatures or byte layouts. The handlers refine it: every successful instruction
  moves every live round account by such a step, leaves it alone, or closes it. The
  invariants of a round's whole history are then proved by rule induction on steps and
  carried to instruction sequences.
\<close>

section \<open>The abstract round machine\<close>

inductive round_step ::
  "(pubkey \<Rightarrow> PoolAccount option) \<Rightarrow> u64 \<Rightarrow> RoundAccount \<Rightarrow> RoundAccount \<Rightarrow> bool"
  for pools :: "pubkey \<Rightarrow> PoolAccount option" and slot :: u64 where
  step_register:
    "\<lbrakk>pools (ra_pool r) = Some p; pa_backend p = Backend.TransparentRegistry;
      ra_state r = State.Registration \<or> ra_state r = State.ThresholdReached;
      slot < ra_registration_deadline r; ra_accepted_count r < pa_max_participants p\<rbrakk>
     \<Longrightarrow> round_step pools slot r
          (r\<lparr>ra_accepted_count := ra_accepted_count r + 1,
             ra_state := if pa_min_participants p \<le> ra_accepted_count r + 1
                         then State.ThresholdReached else ra_state r\<rparr>)"
| step_publish:
    "\<lbrakk>pools (ra_pool r) = Some p; pa_backend p = Backend.MerkleCohort;
      ra_state r = State.Registration;
      pa_min_participants p \<le> n; n \<le> pa_max_participants p;
      root \<noteq> zero32; ra_cohort_root r = zero32\<rbrakk>
     \<Longrightarrow> round_step pools slot r
          (r\<lparr>ra_cohort_root := root, ra_accepted_count := n,
             ra_state := State.ThresholdReached\<rparr>)"
| step_seal:
    "\<lbrakk>pools (ra_pool r) = Some p; ra_state r = State.ThresholdReached;
      pa_min_participants p \<le> ra_accepted_count r\<rbrakk>
     \<Longrightarrow> round_step pools slot r (r\<lparr>ra_state := State.Sealed\<rparr>)"
| step_schedule:
    "\<lbrakk>pools q = Some p; ra_state r = State.Sealed; ra_release_slot r = 0;
      slot \<le> release; pa_min_release_delay p \<le> release - slot;
      release - slot \<le> pa_max_release_delay p;
      unat release + unat (pa_execution_window p) < 2 ^ 64\<rbrakk>
     \<Longrightarrow> round_step pools slot r
          (r\<lparr>ra_release_slot := release,
             ra_window_end_slot := release + pa_execution_window p,
             ra_state := State.ReleaseScheduled\<rparr>)"
| step_begin:
    "\<lbrakk>ra_state r = State.ReleaseScheduled; ra_release_slot r \<le> slot;
      slot \<le> ra_window_end_slot r\<rbrakk>
     \<Longrightarrow> round_step pools slot r (r\<lparr>ra_state := State.ExecutionWindow\<rparr>)"
| step_finalize:
    "\<lbrakk>ra_state r = State.ExecutionWindow; ra_window_end_slot r < slot; metrics \<noteq> zero32\<rbrakk>
     \<Longrightarrow> round_step pools slot r
          (r\<lparr>ra_metrics_hash := metrics, ra_state := State.Completed\<rparr>)"
| step_cancel:
    "ra_state r \<notin> {State.Completed, State.Cancelled, State.Expired}
     \<Longrightarrow> round_step pools slot r (r\<lparr>ra_state := State.Cancelled\<rparr>)"

inductive_cases round_stepE: "round_step pools slot r r'"

text \<open>The typed reading of the ledger: accounts of the program that decode.\<close>

definition pool_at :: "runtime \<Rightarrow> pubkey \<Rightarrow> ledger \<Rightarrow> pubkey \<Rightarrow> PoolAccount option" where
  "pool_at rt program_id L k =
     (if ac_owner (L k) = program_id then rt_pool_deserialize rt (ac_data (L k)) else None)"

definition round_at :: "runtime \<Rightarrow> pubkey \<Rightarrow> ledger \<Rightarrow> pubkey \<Rightarrow> RoundAccount option" where
  "round_at rt program_id L k =
     (if ac_owner (L k) = program_id then rt_round_deserialize rt (ac_data (L k)) else None)"

text \<open>
  The documented behaviour of the runtime and of Borsh: the codecs round-trip; both account
  types start with their version byte and share the layout of the first 34 bytes, so that
  the authority of a pool and the pool of a round are the same bytes; \<open>create_account\<close>
  gives the new account to the program with zeroed data and changes no other account's
  data or owner.
\<close>

definition runtime_ok :: "runtime \<Rightarrow> bool" where
  "runtime_ok rt \<longleftrightarrow>
     account_codec (rt_pool_to_vec rt) (rt_pool_deserialize rt)
   \<and> account_codec (rt_round_to_vec rt) (rt_round_deserialize rt)
   \<and> (\<forall>bs p. rt_pool_deserialize rt bs = Some p \<longrightarrow> bs \<noteq> [] \<and> hd bs = pa_version p)
   \<and> (\<forall>bs r. rt_round_deserialize rt bs = Some r \<longrightarrow> bs \<noteq> [] \<and> hd bs = ra_version r)
   \<and> (\<forall>bs p r. rt_pool_deserialize rt bs = Some p \<longrightarrow> rt_round_deserialize rt bs = Some r
        \<longrightarrow> pa_authority p = ra_pool r)
   \<and> (\<forall>payer account lamports space owner seeds L L'.
        rt_create_account rt payer account lamports space owner seeds L = Ok L' \<longrightarrow>
          ac_data (L' (ai_key account)) = replicate (unat space) 0
        \<and> ac_owner (L' (ai_key account)) = owner
        \<and> (\<forall>k. k \<noteq> ai_key account \<longrightarrow>
              ac_data (L' k) = ac_data (L k) \<and> ac_owner (L' k) = ac_owner (L k)))"

lemma runtime_okD:
  assumes "runtime_ok rt"
  shows "account_codec (rt_pool_to_vec rt) (rt_pool_deserialize rt)"
    and "account_codec (rt_round_to_vec rt) (rt_round_deserialize rt)"
    and "rt_pool_deserialize rt bs = Some p \<Longrightarrow> bs \<noteq> [] \<and> hd bs = pa_version p"
    and "rt_round_deserialize rt bs = Some r \<Longrightarrow> bs \<noteq> [] \<and> hd bs = ra_version r"
    and "rt_pool_deserialize rt bs = Some p \<Longrightarrow> rt_round_deserialize rt bs = Some r
           \<Longrightarrow> pa_authority p = ra_pool r"
  using assms by (auto simp: runtime_ok_def)

lemma runtime_ok_create:
  assumes "runtime_ok rt"
    and "rt_create_account rt payer account lamports space owner seeds L = Ok L'"
  shows "ac_data (L' (ai_key account)) = replicate (unat space) 0"
    and "ac_owner (L' (ai_key account)) = owner"
    and "k \<noteq> ai_key account \<Longrightarrow> ac_data (L' k) = ac_data (L k)"
    and "k \<noteq> ai_key account \<Longrightarrow> ac_owner (L' k) = ac_owner (L k)"
  using assms unfolding runtime_ok_def by blast+

lemma runtime_ok_clock [simp]: "runtime_ok (rt\<lparr>rt_clock_slot := s\<rparr>) = runtime_ok rt"
  by (simp add: runtime_ok_def)

lemma at_clock [simp]:
  "pool_at (rt\<lparr>rt_clock_slot := s\<rparr>) = pool_at rt"
  "round_at (rt\<lparr>rt_clock_slot := s\<rparr>) = round_at rt"
  by (simp_all add: pool_at_def round_at_def fun_eq_iff)

lemma at_cong:
  assumes "ac_data (L' k) = ac_data (L k)" "ac_owner (L' k) = ac_owner (L k)"
  shows "pool_at rt program_id L' k = pool_at rt program_id L k"
    and "round_at rt program_id L' k = round_at rt program_id L k"
  using assms by (simp_all add: pool_at_def round_at_def)

section \<open>Handlers on the typed ledger\<close>

lemma write_round:
  assumes "runtime_ok rt" "write_account (rt_round_to_vec rt) info r L = Ok L'"
    and "ac_owner (L (ai_key info)) = program_id"
  shows "round_at rt program_id L' (ai_key info) = Some r"
  using account_codec.read_after_write [OF runtime_okD(2) [OF assms(1)] assms(2)] assms(3)
    write_account_frame(2) [OF assms(2)]
  by (simp add: round_at_def read_account_Ok_iff)

lemma write_pool:
  assumes "runtime_ok rt" "write_account (rt_pool_to_vec rt) info p L = Ok L'"
    and "ac_owner (L (ai_key info)) = program_id"
  shows "pool_at rt program_id L' (ai_key info) = Some p"
  using account_codec.read_after_write [OF runtime_okD(1) [OF assms(1)] assms(2)] assms(3)
    write_account_frame(2) [OF assms(2)]
  by (simp add: pool_at_def read_account_Ok_iff)

text \<open>The common outcome of the handlers that rewrite one round account in place.\<close>

definition updates_round ::
  "runtime \<Rightarrow> pubkey \<Rightarrow> AccountInfo \<Rightarrow> RoundAccount \<Rightarrow> RoundAccount \<Rightarrow> ledger \<Rightarrow> ledger \<Rightarrow> bool" where
  "updates_round rt program_id info r r' L L' \<longleftrightarrow>
     round_at rt program_id L (ai_key info) = Some r
   \<and> write_account (rt_round_to_vec rt) info r' L = Ok L'"

definition administers ::
  "runtime \<Rightarrow> pubkey \<Rightarrow> AccountInfo list \<Rightarrow> AccountInfo \<Rightarrow> AccountInfo \<Rightarrow> PoolAccount \<Rightarrow> ledger
     \<Rightarrow> bool" where
  "administers rt program_id accounts pool_info round_info p L \<longleftrightarrow>
     (\<exists>authority rest. accounts = authority # pool_info # round_info # rest
        \<and> ai_is_signer authority \<and> pa_authority p = ai_key authority)
   \<and> pool_at rt program_id L (ai_key pool_info) = Some p"

lemma at_owned_iff:
  "pool_at rt program_id L k = Some p \<longleftrightarrow>
     ac_owner (L k) = program_id \<and> rt_pool_deserialize rt (ac_data (L k)) = Some p"
  "round_at rt program_id L k = Some r \<longleftrightarrow>
     ac_owner (L k) = program_id \<and> rt_round_deserialize rt (ac_data (L k)) = Some r"
  by (auto simp: pool_at_def round_at_def)

lemmas handler_at_simps = handler_simps updates_round_def administers_def at_owned_iff

lemma publish_root_Ok_iff:
  "publish_root rt program_id accounts root n L = Ok L' \<longleftrightarrow>
    (\<exists>pool_info round_info p r. administers rt program_id accounts pool_info round_info p L
      \<and> pa_backend p = Backend.MerkleCohort \<and> ra_pool r = ai_key pool_info
      \<and> ra_state r = State.Registration
      \<and> pa_min_participants p \<le> n \<and> n \<le> pa_max_participants p
      \<and> root \<noteq> zero32 \<and> ra_cohort_root r = zero32
      \<and> updates_round rt program_id round_info r
          (r\<lparr>ra_cohort_root := root, ra_accepted_count := n,
             ra_state := State.ThresholdReached\<rparr>) L L')"
  by (auto simp: publish_root_def handler_at_simps not_less)

lemma seal_Ok_iff:
  "MP_Program.seal rt program_id accounts L = Ok L' \<longleftrightarrow>
    (\<exists>pool_info round_info p r. administers rt program_id accounts pool_info round_info p L
      \<and> ra_pool r = ai_key pool_info \<and> ra_state r = State.ThresholdReached
      \<and> pa_min_participants p \<le> ra_accepted_count r
      \<and> updates_round rt program_id round_info r (r\<lparr>ra_state := State.Sealed\<rparr>) L L')"
  by (auto simp: seal_def handler_at_simps not_less)

lemma cancel_Ok_iff:
  "cancel rt program_id accounts L = Ok L' \<longleftrightarrow>
    (\<exists>pool_info round_info p r. administers rt program_id accounts pool_info round_info p L
      \<and> ra_state r \<notin> {State.Completed, State.Cancelled, State.Expired}
      \<and> updates_round rt program_id round_info r (r\<lparr>ra_state := State.Cancelled\<rparr>) L L')"
  by (auto simp: cancel_def handler_at_simps)

lemma finalize_Ok_iff:
  "finalize rt program_id accounts metrics L = Ok L' \<longleftrightarrow>
    (\<exists>pool_info round_info p r slot. administers rt program_id accounts pool_info round_info p L
      \<and> ra_state r = State.ExecutionWindow
      \<and> rt_clock_slot rt = Ok slot \<and> ra_window_end_slot r < slot \<and> metrics \<noteq> zero32
      \<and> updates_round rt program_id round_info r
          (r\<lparr>ra_metrics_hash := metrics, ra_state := State.Completed\<rparr>) L L')"
  by (auto simp: finalize_def handler_at_simps not_le)

lemma schedule_Ok_iff:
  "schedule rt program_id accounts release L = Ok L' \<longleftrightarrow>
    (\<exists>pool_info round_info p r slot. administers rt program_id accounts pool_info round_info p L
      \<and> rt_clock_slot rt = Ok slot
      \<and> ra_state r = State.Sealed \<and> ra_release_slot r = 0
      \<and> slot \<le> release \<and> pa_min_release_delay p \<le> release - slot
      \<and> release - slot \<le> pa_max_release_delay p
      \<and> unat release + unat (pa_execution_window p) < 2 ^ 64
      \<and> updates_round rt program_id round_info r
          (r\<lparr>ra_release_slot := release,
             ra_window_end_slot := release + pa_execution_window p,
             ra_state := State.ReleaseScheduled\<rparr>) L L')"
  by (auto simp: schedule_def handler_at_simps checked_sub_Some_iff checked_add_Some_iff not_less
     )

lemma begin_window_Ok_iff:
  "begin_window rt program_id accounts L = Ok L' \<longleftrightarrow>
    (\<exists>round_info rest r slot. accounts = round_info # rest
      \<and> rt_clock_slot rt = Ok slot
      \<and> ra_state r = State.ReleaseScheduled
      \<and> ra_release_slot r \<le> slot \<and> slot \<le> ra_window_end_slot r
      \<and> updates_round rt program_id round_info r (r\<lparr>ra_state := State.ExecutionWindow\<rparr>) L L')"
  by (cases accounts) (auto simp: begin_window_def handler_at_simps not_less)


lemma close_Ok_iff:
  "close rt program_id accounts L = Ok L' \<longleftrightarrow>
    (\<exists>authority pool_info round_info rest p r.
      accounts = authority # pool_info # round_info # rest
      \<and> administers rt program_id accounts pool_info round_info p L
      \<and> ai_is_writable authority
      \<and> round_at rt program_id L (ai_key round_info) = Some r
      \<and> ra_state r \<in> {State.Completed, State.Cancelled, State.Expired}
      \<and> unat (ac_lamports (L (ai_key authority))) + unat (ac_lamports (L (ai_key round_info)))
           < 2 ^ 64
      \<and> L' = set_data (ai_key round_info)
               (replicate (length (ac_data (L (ai_key round_info)))) 0)
               (set_lamports (ai_key round_info) 0
                 (set_lamports (ai_key authority)
                   (ac_lamports (L (ai_key authority)) + ac_lamports (L (ai_key round_info))) L)))"
  (is "?l \<longleftrightarrow> ?r")
proof
  assume ?l
  then show ?r
    by (auto simp: close_def handler_at_simps Let_def checked_add_Some_iff)
next
  assume ?r
  then show ?l
    by (elim exE conjE) (simp add: close_def admin_accounts_def require_signer_def
        require_owned_def read_account_def administers_def at_owned_iff Let_def checked_add_def)
qed

text \<open>The round a successful registration writes.\<close>

definition registered :: "PoolAccount \<Rightarrow> RoundAccount \<Rightarrow> RoundAccount" where
  "registered p r = r\<lparr>ra_accepted_count := ra_accepted_count r + 1,
     ra_state := if pa_min_participants p \<le> ra_accepted_count r + 1
                 then State.ThresholdReached else ra_state r\<rparr>"

lemma registered_unfold:
  "(if pa_min_participants p \<le> ra_accepted_count r + 1
    then r\<lparr>ra_accepted_count := ra_accepted_count r + 1, ra_state := State.ThresholdReached\<rparr>
    else r\<lparr>ra_accepted_count := ra_accepted_count r + 1\<rparr>) = registered p r"
  by (simp add: registered_def)

lemma register_Ok_iff:
  "register_transparent rt program_id accounts key bump L = Ok L' \<longleftrightarrow>
    (\<exists>payer pool_info round_info record_info system_info rest p r slot L1 L2.
      accounts = payer # pool_info # round_info # record_info # system_info # rest
      \<and> ai_is_signer payer
      \<and> pool_at rt program_id L (ai_key pool_info) = Some p
      \<and> round_at rt program_id L (ai_key round_info) = Some r
      \<and> rt_clock_slot rt = Ok slot
      \<and> pa_backend p = Backend.TransparentRegistry \<and> ra_pool r = ai_key pool_info
      \<and> (ra_state r = State.Registration \<or> ra_state r = State.ThresholdReached)
      \<and> slot < ra_registration_deadline r \<and> ra_accepted_count r < pa_max_participants p
      \<and> rt_create_program_address rt (participant_seeds (ai_key round_info) key bump) program_id
          = Some (ai_key record_info)
      \<and> create_pda_account rt payer record_info system_info program_id 96
          (participant_seeds (ai_key round_info) key bump) L = Ok L1
      \<and> write_account (rt_record_to_vec rt) record_info
          \<lparr>pr_version = 1, pr_bump = bump, pr_round = ai_key round_info,
           pr_coordination_key = key\<rparr> L1 = Ok L2
      \<and> write_account (rt_round_to_vec rt) round_info (registered p r) L2 = Ok L')"
  (is "?l \<longleftrightarrow> ?r")
proof
  assume ?l
  then show ?r
    by (auto simp: register_transparent_def handler_simps at_owned_iff Let_def not_le
        derive_pda_def checked_add_one_below(1) registered_unfold)
next
  assume ?r
  then show ?l
    by (elim exE conjE) (simp add: register_transparent_def require_signer_def require_owned_def
        read_account_def at_owned_iff Let_def not_le derive_pda_def checked_add_one_below(1)
        registered_unfold)
qed

definition fresh_round :: "pubkey \<Rightarrow> u64 \<Rightarrow> u64 \<Rightarrow> bytes \<Rightarrow> u8 \<Rightarrow> RoundAccount" where
  "fresh_round pool round_id deadline template bump =
     \<lparr>ra_version = 1, ra_bump = bump, ra_pool = pool,
      ra_round_id = round_id, ra_state = State.Registration,
      ra_registration_deadline = deadline, ra_template_hash = template,
      ra_accepted_count = 0, ra_cohort_root = zero32, ra_release_slot = 0,
      ra_window_end_slot = 0, ra_metrics_hash = zero32\<rparr>"

lemma open_round_Ok_iff:
  "open_round rt program_id accounts round_id deadline template bump L = Ok L' \<longleftrightarrow>
    (\<exists>authority pool_info round_info system_info rest p slot L1 L2.
      accounts = authority # pool_info # round_info # system_info # rest
      \<and> administers rt program_id accounts pool_info round_info p L
      \<and> \<not> pa_paused p \<and> pa_next_round p = round_id \<and> pa_template_hash p = template
      \<and> rt_clock_slot rt = Ok slot \<and> slot < deadline
      \<and> rt_create_program_address rt (round_seeds (ai_key pool_info) round_id bump) program_id
          = Some (ai_key round_info)
      \<and> create_pda_account rt authority round_info system_info program_id ROUND_ACCOUNT_SIZE
          (round_seeds (ai_key pool_info) round_id bump) L = Ok L1
      \<and> unat round_id + 1 < 2 ^ 64
      \<and> write_account (rt_pool_to_vec rt) pool_info
          (p\<lparr>pa_next_round := round_id + 1\<rparr>) L1 = Ok L2
      \<and> write_account (rt_round_to_vec rt) round_info
          (fresh_round (ai_key pool_info) round_id deadline template bump) L2 = Ok L')"
  (is "?l \<longleftrightarrow> ?r")
proof
  assume ?l
  then show ?r
    by (auto simp: open_round_def handler_at_simps Let_def not_le derive_pda_def
        checked_add_Some_iff fresh_round_def)
next
  assume ?r
  then show ?l
    by (auto simp: open_round_def handler_at_simps Let_def not_le derive_pda_def
        checked_add_Some_iff fresh_round_def)
qed

definition new_pool ::
  "bytes \<Rightarrow> bytes \<Rightarrow> u32 \<Rightarrow> u32 \<Rightarrow> u64 \<Rightarrow> u64 \<Rightarrow> u64 \<Rightarrow> Backend \<Rightarrow> u8 \<Rightarrow> pubkey \<Rightarrow> PoolAccount" where
  "new_pool pool_id template mn mx min_delay max_delay window backend bump authority =
     \<lparr>pa_version = 1, pa_bump = bump, pa_authority = authority,
      pa_pool_id = pool_id, pa_template_hash = template,
      pa_min_participants = mn, pa_max_participants = mx,
      pa_min_release_delay = min_delay, pa_max_release_delay = max_delay,
      pa_execution_window = window, pa_backend = backend,
      pa_next_round = 0, pa_paused = False\<rparr>"

lemma initialize_Ok_iff:
  "initialize rt program_id accounts pool_id template mn mx min_delay max_delay window backend
     bump L = Ok L' \<longleftrightarrow>
    (\<exists>authority pool_info system_info rest L1.
      accounts = authority # pool_info # system_info # rest
      \<and> 2 \<le> mn \<and> mn \<le> mx \<and> mx \<le> MAX_COHORT_SIZE \<and> window \<noteq> 0 \<and> min_delay \<le> max_delay
      \<and> ai_is_signer authority
      \<and> rt_create_program_address rt [ascii ''pool'', pool_id, [bump]] program_id
          = Some (ai_key pool_info)
      \<and> create_pda_account rt authority pool_info system_info program_id POOL_ACCOUNT_SIZE
          [ascii ''pool'', pool_id, [bump]] L = Ok L1
      \<and> write_account (rt_pool_to_vec rt) pool_info
          (new_pool pool_id template mn mx min_delay max_delay window backend bump
             (ai_key authority)) L1 = Ok L')"
  by (auto simp: initialize_def handler_simps Let_def not_less derive_pda_def new_pool_def)

lemmas handler_Ok_iffs =
  initialize_Ok_iff open_round_Ok_iff register_Ok_iff publish_root_Ok_iff seal_Ok_iff
  schedule_Ok_iff begin_window_Ok_iff finalize_Ok_iff cancel_Ok_iff close_Ok_iff

section \<open>Refinement\<close>

lemma updates_round_effect:
  assumes "runtime_ok rt" "updates_round rt program_id info r r' L L'"
  shows "round_at rt program_id L' (ai_key info) = Some r'"
    and "k \<noteq> ai_key info \<Longrightarrow> L' k = L k"
  using assms write_round write_account_frame(1)
  by (auto simp: updates_round_def at_owned_iff)

text \<open>An account of the program whose first byte is set cannot be created over.\<close>

definition live :: "pubkey \<Rightarrow> ledger \<Rightarrow> pubkey \<Rightarrow> bool" where
  "live program_id L k \<longleftrightarrow>
     ac_owner (L k) = program_id \<and> ac_data (L k) \<noteq> [] \<and> hd (ac_data (L k)) \<noteq> 0"

lemma live_round:
  assumes "runtime_ok rt" "round_at rt program_id L k = Some r" "ra_version r \<noteq> 0"
  shows "live program_id L k"
  using assms runtime_okD(4) [OF assms(1)] by (auto simp: live_def at_owned_iff)

lemma live_pool:
  assumes "runtime_ok rt" "pool_at rt program_id L k = Some p" "pa_version p \<noteq> 0"
  shows "live program_id L k"
  using assms runtime_okD(3) [OF assms(1)] by (auto simp: live_def at_owned_iff)

lemma create_pda_effect:
  assumes "runtime_ok rt"
    and "create_pda_account rt payer account system program_id space seeds L = Ok L1"
  shows "ac_owner (L1 (ai_key account)) = program_id"
    and "k \<noteq> ai_key account \<Longrightarrow> ac_data (L1 k) = ac_data (L k)"
    and "k \<noteq> ai_key account \<Longrightarrow> ac_owner (L1 k) = ac_owner (L k)"
    and "live program_id L k \<Longrightarrow> k \<noteq> ai_key account"
  using assms(2) runtime_ok_create [OF assms(1)]
  by (auto simp: create_pda_account_Ok_iff live_def)

definition untouched :: "ledger \<Rightarrow> ledger \<Rightarrow> pubkey \<Rightarrow> bool" where
  "untouched L L' k \<longleftrightarrow> ac_data (L' k) = ac_data (L k) \<and> ac_owner (L' k) = ac_owner (L k)"

definition round_moved :: "runtime \<Rightarrow> pubkey \<Rightarrow> u64 \<Rightarrow> ledger \<Rightarrow> ledger \<Rightarrow> pubkey \<Rightarrow> bool" where
  "round_moved rt program_id slot L L' k \<longleftrightarrow>
    (\<exists>r r'. round_at rt program_id L k = Some r \<and> round_at rt program_id L' k = Some r'
       \<and> round_step (pool_at rt program_id L) slot r r')"

definition round_closed :: "runtime \<Rightarrow> pubkey \<Rightarrow> ledger \<Rightarrow> ledger \<Rightarrow> pubkey \<Rightarrow> bool" where
  "round_closed rt program_id L L' k \<longleftrightarrow>
    (\<exists>r. round_at rt program_id L k = Some r
       \<and> ra_state r \<in> {State.Completed, State.Cancelled, State.Expired}
       \<and> ac_data (L' k) = replicate (length (ac_data (L k))) 0 \<and> ac_lamports (L' k) = 0)"

definition round_opened :: "runtime \<Rightarrow> pubkey \<Rightarrow> AccountInfo list \<Rightarrow> ledger \<Rightarrow> ledger \<Rightarrow> pubkey \<Rightarrow> bool"
  where
  "round_opened rt program_id accounts L L' k \<longleftrightarrow>
    (\<exists>p authority. pool_at rt program_id L k = Some p
       \<and> authority \<in> set accounts \<and> ai_is_signer authority
       \<and> pa_authority p = ai_key authority
       \<and> unat (pa_next_round p) + 1 < 2 ^ 64
       \<and> (\<exists>info L1 L2. ai_key info = k \<and> ac_owner (L1 k) = program_id
           \<and> write_account (rt_pool_to_vec rt) info
               (p\<lparr>pa_next_round := pa_next_round p + 1\<rparr>) L1 = Ok L2 \<and> L' k = L2 k))"

lemma register_effect:
  assumes "runtime_ok rt" "rt_clock_slot rt = Ok slot"
    and "register_transparent rt program_id accounts key bump L = Ok L'"
    and "live program_id L k"
  shows "untouched L L' k \<or> round_moved rt program_id slot L L' k"
proof -
  from assms(3) obtain payer pool_info round_info record_info system_info rest p r L1 L2 where
    accs: "accounts = payer # pool_info # round_info # record_info # system_info # rest"
    and pool: "pool_at rt program_id L (ai_key pool_info) = Some p"
    and round: "round_at rt program_id L (ai_key round_info) = Some r"
    and guard: "pa_backend p = Backend.TransparentRegistry" "ra_pool r = ai_key pool_info"
      "ra_state r = State.Registration \<or> ra_state r = State.ThresholdReached"
      "slot < ra_registration_deadline r" "ra_accepted_count r < pa_max_participants p"
    and create: "create_pda_account rt payer record_info system_info program_id 96
          (participant_seeds (ai_key round_info) key bump) L = Ok L1"
    and wrec: "write_account (rt_record_to_vec rt) record_info
          \<lparr>pr_version = 1, pr_bump = bump, pr_round = ai_key round_info,
           pr_coordination_key = key\<rparr> L1 = Ok L2"
    and wr: "write_account (rt_round_to_vec rt) round_info (registered p r) L2 = Ok L'"
    using assms(2) by (auto simp: register_Ok_iff)
  note made = create_pda_effect [OF assms(1) create]
  have k: "k \<noteq> ai_key record_info" using made(4) assms(4) .
  then have same: "ac_data (L2 k) = ac_data (L k)" "ac_owner (L2 k) = ac_owner (L k)"
    using made(2,3) write_account_frame(1) [OF wrec] by auto
  show ?thesis
  proof (cases "k = ai_key round_info")
    case True
    then have "round_at rt program_id L' k = Some (registered p r)"
      using write_round [OF assms(1) wr] same round by (simp add: at_owned_iff)
    moreover have "round_step (pool_at rt program_id L) slot r (registered p r)"
      unfolding registered_def using guard pool by (intro step_register) auto
    ultimately show ?thesis using True round unfolding round_moved_def by blast
  next
    case False
    then show ?thesis using same write_account_frame(1) [OF wr] by (simp add: untouched_def)
  qed
qed

lemma initialize_effect:
  assumes "runtime_ok rt"
    and "initialize rt program_id accounts pool_id template mn mx min_delay max_delay window
           backend bump L = Ok L'"
    and "live program_id L k"
  shows "untouched L L' k"
  using assms(2) create_pda_effect [OF assms(1)] assms(3) write_account_frame(1)
  unfolding initialize_Ok_iff untouched_def by metis

lemma open_round_effect:
  assumes "runtime_ok rt"
    and "open_round rt program_id accounts round_id deadline template bump L = Ok L'"
    and "live program_id L k"
  shows "untouched L L' k \<or> round_opened rt program_id accounts L L' k"
proof -
  from assms(2) obtain authority pool_info round_info system_info rest p L1 L2 where
    accs: "accounts = authority # pool_info # round_info # system_info # rest"
    and admin: "administers rt program_id accounts pool_info round_info p L"
    and next_round: "pa_next_round p = round_id" "unat round_id + 1 < 2 ^ 64"
    and create: "create_pda_account rt authority round_info system_info program_id
          ROUND_ACCOUNT_SIZE (round_seeds (ai_key pool_info) round_id bump) L = Ok L1"
    and wp: "write_account (rt_pool_to_vec rt) pool_info
          (p\<lparr>pa_next_round := round_id + 1\<rparr>) L1 = Ok L2"
    and wr: "write_account (rt_round_to_vec rt) round_info
          (fresh_round (ai_key pool_info) round_id deadline template bump) L2 = Ok L'"
    unfolding open_round_Ok_iff by blast
  note made = create_pda_effect [OF assms(1) create]
  have k: "k \<noteq> ai_key round_info" using made(4) assms(3) .
  then have L': "L' k = L2 k" using write_account_frame(1) [OF wr] by simp
  show ?thesis
  proof (cases "k = ai_key pool_info")
    case True
    have "ac_owner (L1 k) = program_id" using made(3) [OF k] assms(3) by (simp add: live_def)
    then show ?thesis using True accs admin next_round wp L'
      by (fastforce simp: administers_def round_opened_def)
  next
    case False
    then have "L2 k = L1 k" using write_account_frame(1) [OF wp] by simp
    then show ?thesis using L' made(2,3) [OF k] by (simp add: untouched_def)
  qed
qed


lemma updates_round_moves:
  assumes "runtime_ok rt" "updates_round rt program_id info r r' L L'"
    and "round_step (pool_at rt program_id L) slot r r'"
  shows "untouched L L' k \<or> round_moved rt program_id slot L L' k"
proof (cases "k = ai_key info")
  case True
  then show ?thesis
    using updates_round_effect(1) [OF assms(1,2)] assms(2,3)
    by (auto simp: round_moved_def updates_round_def)
next
  case False
  then show ?thesis using updates_round_effect(2) [OF assms(1,2)] by (simp add: untouched_def)
qed

lemma administers_pool:
  "administers rt program_id accounts pool_info round_info p L
    \<Longrightarrow> pool_at rt program_id L (ai_key pool_info) = Some p"
  by (simp add: administers_def)

lemma close_effect:
  assumes "close rt program_id accounts L = Ok L'"
  shows "untouched L L' k
    \<or> 2 < length accounts \<and> ai_key (accounts ! 2) = k \<and> round_closed rt program_id L L' k"
proof -
  from assms obtain authority pool_info round_info rest r where
    accs: "accounts = authority # pool_info # round_info # rest"
    and round: "round_at rt program_id L (ai_key round_info) = Some r"
    and state: "ra_state r \<in> {State.Completed, State.Cancelled, State.Expired}"
    and L': "L' = set_data (ai_key round_info)
               (replicate (length (ac_data (L (ai_key round_info)))) 0)
               (set_lamports (ai_key round_info) 0
                 (set_lamports (ai_key authority)
                   (ac_lamports (L (ai_key authority)) + ac_lamports (L (ai_key round_info))) L))"
    unfolding close_Ok_iff by blast
  show ?thesis
  proof (cases "k = ai_key round_info")
    case True
    then have "round_closed rt program_id L L' k"
      unfolding round_closed_def using round state by (simp add: L')
    then show ?thesis using True accs by simp
  next
    case False
    then show ?thesis by (simp add: untouched_def L')
  qed
qed

lemma publish_root_moves:
  assumes "publish_root rt program_id accounts root n L = Ok L'"
  obtains info r r' where "updates_round rt program_id info r r' L L'"
    "round_step (pool_at rt program_id L) slot r r'"
  using assms unfolding publish_root_Ok_iff
  by (elim exE conjE) (rule that, assumption, rule step_publish, auto dest: administers_pool)

lemma seal_moves:
  assumes "MP_Program.seal rt program_id accounts L = Ok L'"
  obtains info r r' where "updates_round rt program_id info r r' L L'"
    "round_step (pool_at rt program_id L) slot r r'"
  using assms unfolding seal_Ok_iff
  by (elim exE conjE) (rule that, assumption, rule step_seal, auto dest: administers_pool)

lemma schedule_moves:
  assumes "rt_clock_slot rt = Ok slot"
    and "schedule rt program_id accounts release L = Ok L'"
  obtains info r r' where "updates_round rt program_id info r r' L L'"
    "round_step (pool_at rt program_id L) slot r r'"
  using assms unfolding schedule_Ok_iff
  by (elim exE conjE) (rule that, assumption, rule step_schedule, auto dest: administers_pool)

lemma begin_window_moves:
  assumes "rt_clock_slot rt = Ok slot"
    and "begin_window rt program_id accounts L = Ok L'"
  obtains info r r' where "updates_round rt program_id info r r' L L'"
    "round_step (pool_at rt program_id L) slot r r'"
  using assms unfolding begin_window_Ok_iff
  by (elim exE conjE) (rule that, assumption, rule step_begin, auto dest: administers_pool)

lemma finalize_moves:
  assumes "rt_clock_slot rt = Ok slot"
    and "finalize rt program_id accounts metrics L = Ok L'"
  obtains info r r' where "updates_round rt program_id info r r' L L'"
    "round_step (pool_at rt program_id L) slot r r'"
  using assms unfolding finalize_Ok_iff
  by (elim exE conjE) (rule that, assumption, rule step_finalize, auto dest: administers_pool)

lemma cancel_moves:
  assumes "cancel rt program_id accounts L = Ok L'"
  obtains info r r' where "updates_round rt program_id info r r' L L'"
    "round_step (pool_at rt program_id L) slot r r'"
  using assms unfolding cancel_Ok_iff
  by (elim exE conjE) (rule that, assumption, rule step_cancel, auto dest: administers_pool)

text \<open>Every instruction, on every live account.\<close>

lemma dispatch_effect:
  assumes "runtime_ok rt" "rt_clock_slot rt = Ok slot"
    and "dispatch rt program_id accounts ins L = Ok L'" "live program_id L k"
  shows "untouched L L' k \<or> round_moved rt program_id slot L L' k
    \<or> round_opened rt program_id accounts L L' k
    \<or> ins = CloseRound \<and> 2 < length accounts \<and> ai_key (accounts ! 2) = k
        \<and> round_closed rt program_id L L' k"
proof (cases ins)
  case (InitializePool pool_id template mn mx mind maxd window backend bump)
  then show ?thesis
    using initialize_effect [OF assms(1) _ assms(4)] assms(3) by simp
next
  case (OpenRound round_id deadline template bump)
  then have "open_round rt program_id accounts round_id deadline template bump L = Ok L'"
    using assms(3) by simp
  then show ?thesis using open_round_effect [OF assms(1) _ assms(4)] by blast
next
  case (RegisterTransparent key bump)
  then have "register_transparent rt program_id accounts key bump L = Ok L'"
    using assms(3) by simp
  then show ?thesis using register_effect [OF assms(1,2) _ assms(4)] by blast
next
  case (PublishCohortRoot root n)
  then have "publish_root rt program_id accounts root n L = Ok L'" using assms(3) by simp
  then obtain info r r' where "updates_round rt program_id info r r' L L'"
    "round_step (pool_at rt program_id L) slot r r'"
    by (rule publish_root_moves)
  then show ?thesis using updates_round_moves [OF assms(1)] by blast
next
  case SealRound
  then have "MP_Program.seal rt program_id accounts L = Ok L'" using assms(3) by simp
  then obtain info r r' where "updates_round rt program_id info r r' L L'"
    "round_step (pool_at rt program_id L) slot r r'"
    by (rule seal_moves)
  then show ?thesis using updates_round_moves [OF assms(1)] by blast
next
  case (ScheduleRelease release)
  then have "schedule rt program_id accounts release L = Ok L'" using assms(3) by simp
  then obtain info r r' where "updates_round rt program_id info r r' L L'"
    "round_step (pool_at rt program_id L) slot r r'"
    by (rule schedule_moves [OF assms(2)])
  then show ?thesis using updates_round_moves [OF assms(1)] by blast
next
  case BeginExecutionWindow
  then have "begin_window rt program_id accounts L = Ok L'" using assms(3) by simp
  then obtain info r r' where "updates_round rt program_id info r r' L L'"
    "round_step (pool_at rt program_id L) slot r r'"
    by (rule begin_window_moves [OF assms(2)])
  then show ?thesis using updates_round_moves [OF assms(1)] by blast
next
  case (FinalizeRound metrics)
  then have "finalize rt program_id accounts metrics L = Ok L'" using assms(3) by simp
  then obtain info r r' where "updates_round rt program_id info r r' L L'"
    "round_step (pool_at rt program_id L) slot r r'"
    by (rule finalize_moves [OF assms(2)])
  then show ?thesis using updates_round_moves [OF assms(1)] by blast
next
  case CancelRound
  then have "cancel rt program_id accounts L = Ok L'" using assms(3) by simp
  then obtain info r r' where "updates_round rt program_id info r r' L L'"
    "round_step (pool_at rt program_id L) slot r r'"
    by (rule cancel_moves)
  then show ?thesis using updates_round_moves [OF assms(1)] by blast
next
  case CloseRound
  then show ?thesis using close_effect [of rt program_id accounts L L' k] assms(3) by auto
qed


lemma process_effect:
  assumes "runtime_ok rt" "rt_clock_slot rt = Ok slot"
    and "process_instruction rt program_id accounts data L = Ok L'" "live program_id L k"
  shows "untouched L L' k \<or> round_moved rt program_id slot L L' k
    \<or> round_opened rt program_id accounts L L' k
    \<or> rt_try_instruction rt data = Some CloseRound \<and> 2 < length accounts
        \<and> ai_key (accounts ! 2) = k \<and> round_closed rt program_id L L' k"
  using assms(3) dispatch_effect [OF assms(1,2) _ assms(4)]
  unfolding process_instruction_def and_then_Ok_iff ok_or_Ok_iff by blast

lemma round_cases:
  assumes "runtime_ok rt" "rt_clock_slot rt = Ok slot"
    and "process_instruction rt program_id accounts data L = Ok L'"
    and "round_at rt program_id L k = Some r" "ra_version r \<noteq> 0"
    and "\<forall>info \<in> set accounts. ai_is_signer info \<longrightarrow> ai_key info \<noteq> ra_pool r"
  obtains "round_at rt program_id L' k = Some r"
    | r' where "round_at rt program_id L' k = Some r'"
        "round_step (pool_at rt program_id L) slot r r'"
    | "rt_try_instruction rt data = Some CloseRound" "2 < length accounts"
        "ai_key (accounts ! 2) = k" "round_closed rt program_id L L' k"
proof -
  have "live program_id L k" using live_round assms(1,4,5) .
  then consider "untouched L L' k" | "round_moved rt program_id slot L L' k"
    | "round_opened rt program_id accounts L L' k"
    | "rt_try_instruction rt data = Some CloseRound" "2 < length accounts"
        "ai_key (accounts ! 2) = k" "round_closed rt program_id L L' k"
    using process_effect [OF assms(1-3), of k] by argo
  then show thesis
  proof cases
    case 1
    then show ?thesis using that(1) assms(4) at_cong(2) [of L' k L] by (simp add: untouched_def)
  next
    case 2
    then show ?thesis using that(2) assms(4) by (auto simp: round_moved_def)
  next
    case 3
    then obtain p authority where p: "pool_at rt program_id L k = Some p"
      and authority: "authority \<in> set accounts" "ai_is_signer authority"
        "pa_authority p = ai_key authority"
      unfolding round_opened_def by blast
    have "pa_authority p = ra_pool r"
      using runtime_okD(5) [OF assms(1)] p assms(4) by (auto simp: at_owned_iff)
    then show ?thesis using authority assms(6) by auto
  next
    case 4
    then show ?thesis using that(3) by blast
  qed
qed

text \<open>
  C3. The program refines the abstract round machine: whatever accounts and bytes an
  instruction carries, if it succeeds then every round account of the program is left as it
  was, or moved by one permitted step at the current slot under the policies stored on the
  ledger, or, by a close instruction that names it, wiped with its lamports removed. The
  pool address of the round is assumed not to sign (it is a program address).
\<close>

theorem process_refines_round_step:
  assumes "runtime_ok rt" "rt_clock_slot rt = Ok slot"
    and "process_instruction rt program_id accounts data L = Ok L'"
    and "round_at rt program_id L k = Some r" "ra_version r \<noteq> 0"
    and "\<forall>info \<in> set accounts. ai_is_signer info \<longrightarrow> ai_key info \<noteq> ra_pool r"
  shows "round_at rt program_id L' k = Some r
    \<or> (\<exists>r'. round_at rt program_id L' k = Some r'
         \<and> round_step (pool_at rt program_id L) slot r r')
    \<or> rt_try_instruction rt data = Some CloseRound \<and> 2 < length accounts
         \<and> ai_key (accounts ! 2) = k \<and> round_closed rt program_id L L' k"
  using assms by (rule round_cases) blast+

section \<open>Histories\<close>

definition chain_edge :: "State \<Rightarrow> State \<Rightarrow> bool" where
  "chain_edge s t \<longleftrightarrow>
     (s, t) \<in> {(State.Registration, State.ThresholdReached),
               (State.ThresholdReached, State.Sealed),
               (State.Sealed, State.ReleaseScheduled),
               (State.ReleaseScheduled, State.ExecutionWindow),
               (State.ExecutionWindow, State.Completed)}
   \<or> t = State.Cancelled \<and> s \<notin> {State.Completed, State.Cancelled, State.Expired}"

fun chain_rank :: "State \<Rightarrow> nat" where
  "chain_rank State.Registration = 0"
| "chain_rank State.ThresholdReached = 1"
| "chain_rank State.Sealed = 2"
| "chain_rank State.ReleaseScheduled = 3"
| "chain_rank State.ExecutionWindow = 4"
| "chain_rank State.Finalizing = 5"
| "chain_rank State.Completed = 6"
| "chain_rank State.Cancelled = 6"
| "chain_rank State.Expired = 6"

definition chain_terminal :: "State \<Rightarrow> bool" where
  "chain_terminal s \<longleftrightarrow> s \<in> {State.Completed, State.Cancelled, State.Expired}"

interpretation chain_graph: lifecycle chain_edge chain_terminal chain_rank 6
proof
  show "chain_edge s t \<Longrightarrow> chain_rank s < chain_rank t" for s t
    by (cases s) (auto simp: chain_edge_def)
  show "chain_rank s \<le> 6" for s by (cases s) simp_all
  show "chain_terminal s \<longleftrightarrow> (\<forall>t. \<not> chain_edge s t)" for s
    by (cases s) (auto simp: chain_edge_def chain_terminal_def)
qed

text \<open>The facts of a round that hold in every reachable state, for its pool's policy.\<close>

definition round_ok :: "PoolAccount \<Rightarrow> RoundAccount \<Rightarrow> bool" where
  "round_ok p r \<longleftrightarrow>
     ra_accepted_count r \<le> pa_max_participants p
   \<and> (ra_state r \<in> {State.ThresholdReached, State.Sealed, State.ReleaseScheduled,
                    State.ExecutionWindow, State.Completed} \<longrightarrow>
        pa_min_participants p \<le> ra_accepted_count r
      \<and> (pa_backend p = Backend.MerkleCohort \<longrightarrow> ra_cohort_root r \<noteq> zero32))
   \<and> (ra_state r \<in> {State.Registration, State.ThresholdReached, State.Sealed} \<longrightarrow>
        ra_release_slot r = 0 \<and> ra_window_end_slot r = 0)
   \<and> ra_release_slot r \<le> ra_window_end_slot r
   \<and> (ra_state r = State.Registration \<or> pa_backend p = Backend.TransparentRegistry
        \<longrightarrow> ra_cohort_root r = zero32)
   \<and> (ra_metrics_hash r \<noteq> zero32 \<longleftrightarrow> ra_state r = State.Completed)
   \<and> ra_state r \<notin> {State.Finalizing, State.Expired}"

text \<open>What a later state of a round keeps of an earlier one.\<close>

definition round_later :: "RoundAccount \<Rightarrow> RoundAccount \<Rightarrow> bool" where
  "round_later r r' \<longleftrightarrow>
     (ra_version r', ra_bump r', ra_pool r', ra_round_id r', ra_registration_deadline r',
      ra_template_hash r')
       = (ra_version r, ra_bump r, ra_pool r, ra_round_id r, ra_registration_deadline r,
          ra_template_hash r)
   \<and> chain_edge\<^sup>*\<^sup>* (ra_state r) (ra_state r')
   \<and> (ra_cohort_root r \<noteq> zero32 \<longrightarrow> ra_cohort_root r' = ra_cohort_root r)
   \<and> (2 \<le> chain_rank (ra_state r) \<longrightarrow> ra_accepted_count r' = ra_accepted_count r)
   \<and> (3 \<le> chain_rank (ra_state r) \<longrightarrow>
        ra_release_slot r' = ra_release_slot r \<and> ra_window_end_slot r' = ra_window_end_slot r)
   \<and> (chain_terminal (ra_state r) \<longrightarrow> r' = r)"

lemma round_later_refl: "round_later r r"
  by (simp add: round_later_def)

lemma round_later_trans:
  assumes "round_later r s" "round_later s t"
  shows "round_later r t"
proof (cases "chain_terminal (ra_state r)")
  case True
  then have "s = r" using assms(1) by (simp add: round_later_def)
  then show ?thesis using assms(2) by simp
next
  case False
  have path: "chain_edge\<^sup>*\<^sup>* (ra_state r) (ra_state s)" "chain_edge\<^sup>*\<^sup>* (ra_state s) (ra_state t)"
    using assms unfolding round_later_def by blast+
  then have "chain_rank (ra_state r) \<le> chain_rank (ra_state s)"
    using chain_graph.rtrancl_rank by blast
  moreover have "chain_edge\<^sup>*\<^sup>* (ra_state r) (ra_state t)" using path by (rule rtranclp_trans)
  ultimately show ?thesis using assms False unfolding round_later_def by simp
qed

lemma round_step_later:
  assumes "round_step pools slot r r'"
  shows "round_later r r'"
proof -
  have "ra_state r' = ra_state r \<or> chain_edge (ra_state r) (ra_state r')"
    using assms by cases (auto simp: chain_edge_def)
  then have "chain_edge\<^sup>*\<^sup>* (ra_state r) (ra_state r')" by auto
  with assms show ?thesis
    by (cases rule: round_step.cases) (auto simp: round_later_def chain_terminal_def)
qed

lemma round_step_ok:
  assumes "round_step pools slot r r'" "round_ok p r"
    and "pools (ra_pool r) = Some (p\<lparr>pa_next_round := n\<rparr>)"
  shows "round_ok p r'"
  using assms
proof cases
  case (step_register p')
  then have p': "p' = p\<lparr>pa_next_round := n\<rparr>" using assms(3) by simp
  have below: "ra_accepted_count r + 1 \<le> pa_max_participants p"
    using checked_add_one_below(2) [OF step_register(6)] p' by simp
  have grow: "ra_accepted_count r \<le> ra_accepted_count r + 1"
    using checked_add_ge [OF checked_add_one_below(1) [OF step_register(6)]] .
  then have reached: "pa_min_participants p \<le> ra_accepted_count r + 1"
    if "ra_state r = State.ThresholdReached"
    using that assms(2) order_trans by (auto simp: round_ok_def)
  show ?thesis using step_register(4)
  proof
    assume "ra_state r = State.Registration"
    then show ?thesis using step_register(3) assms(2) below
      unfolding step_register(1) p' by (simp add: round_ok_def)
  next
    assume "ra_state r = State.ThresholdReached"
    then show ?thesis using step_register(3) assms(2) below reached
      unfolding step_register(1) p' by (simp add: round_ok_def)
  qed
next
  case (step_schedule q p' release)
  have "release \<le> release + pa_execution_window p'"
    using step_schedule(8) checked_add_ge [of release "pa_execution_window p'"]
    by (simp add: checked_add_def)
  then show ?thesis using step_schedule assms(2) by (auto simp: round_ok_def)
qed (auto simp: round_ok_def)

text \<open>The pool of a round, whose policy no instruction changes but for the next round's number.\<close>

definition pool_has :: "runtime \<Rightarrow> pubkey \<Rightarrow> PoolAccount \<Rightarrow> ledger \<Rightarrow> pubkey \<Rightarrow> bool" where
  "pool_has rt program_id p L q \<longleftrightarrow> (\<exists>n. pool_at rt program_id L q = Some (p\<lparr>pa_next_round := n\<rparr>))"

text \<open>
  The accounts carry no type tag, so the bytes of a pool may also read as a round; such a pool
  can be passed as the round of an instruction and rewritten as one. \<open>pool_only\<close> rules this out.
\<close>

definition pool_only :: "runtime \<Rightarrow> PoolAccount \<Rightarrow> bool" where
  "pool_only rt p \<longleftrightarrow>
     (\<forall>n bs rest. rt_pool_to_vec rt (p\<lparr>pa_next_round := n\<rparr>) = Some bs
        \<longrightarrow> rt_round_deserialize rt (bs @ rest) = None)"

lemma pool_has_step:
  assumes "runtime_ok rt" "rt_clock_slot rt = Ok slot" "pa_version p \<noteq> 0"
    and "process_instruction rt program_id accounts data L = Ok L'"
    and "pool_has rt program_id p L q" "round_at rt program_id L q = None"
  shows "pool_has rt program_id p L' q" and "pool_only rt p \<Longrightarrow> round_at rt program_id L' q = None"
proof -
  from assms(5) obtain n where p: "pool_at rt program_id L q = Some (p\<lparr>pa_next_round := n\<rparr>)"
    by (auto simp: pool_has_def)
  have "live program_id L q" using live_pool [OF assms(1) p] assms(3) by simp
  then consider "untouched L L' q" | "round_opened rt program_id accounts L L' q"
    using process_effect [OF assms(1,2,4)] assms(6)
    unfolding round_moved_def round_closed_def by fastforce
  then have "pool_has rt program_id p L' q \<and> (pool_only rt p \<longrightarrow> round_at rt program_id L' q = None)"
  proof cases
    case 1
    then show ?thesis using at_cong [of L' q L] p assms(6) by (auto simp: untouched_def pool_has_def)
  next
    case 2
    then obtain info L1 L2 where
      info: "ai_key info = q" "ac_owner (L1 q) = program_id" and L': "L' q = L2 q"
      and wp: "write_account (rt_pool_to_vec rt) info (p\<lparr>pa_next_round := n + 1\<rparr>) L1 = Ok L2"
      using p unfolding round_opened_def by auto
    have at: "pool_at rt program_id L2 q = Some (p\<lparr>pa_next_round := n + 1\<rparr>)"
      using write_pool [OF assms(1) wp] info by simp
    from wp obtain bs rest where "rt_pool_to_vec rt (p\<lparr>pa_next_round := n + 1\<rparr>) = Some bs"
      "ac_data (L2 q) = bs @ rest"
      using info by (auto simp: write_account_Ok_iff)
    then have "pool_only rt p \<longrightarrow> round_at rt program_id L2 q = None"
      by (auto simp: pool_only_def round_at_def)
    then show ?thesis using at L' at_cong [of L' q L2] by (auto simp: pool_has_def)
  qed
  then show "pool_has rt program_id p L' q"
    and "pool_only rt p \<Longrightarrow> round_at rt program_id L' q = None" by blast+
qed

text \<open>
  A history is a sequence of submitted instructions, each with the slot it executes in; one
  that fails leaves the ledger as it was.
\<close>

type_synonym tx = "u64 \<times> AccountInfo list \<times> bytes"

fun apply_tx :: "runtime \<Rightarrow> pubkey \<Rightarrow> tx \<Rightarrow> ledger \<Rightarrow> ledger" where
  "apply_tx rt program_id (slot, accounts, data) L =
     (case process_instruction (rt\<lparr>rt_clock_slot := Ok slot\<rparr>) program_id accounts data L of
        Ok L' \<Rightarrow> L' | _ \<Rightarrow> L)"

fun apply_txs :: "runtime \<Rightarrow> pubkey \<Rightarrow> tx list \<Rightarrow> ledger \<Rightarrow> ledger" where
  "apply_txs rt program_id [] L = L"
| "apply_txs rt program_id (t # ts) L = apply_txs rt program_id ts (apply_tx rt program_id t L)"

fun signed_by :: "pubkey \<Rightarrow> tx \<Rightarrow> bool" where
  "signed_by q (slot, accounts, data) \<longleftrightarrow> (\<exists>info \<in> set accounts. ai_is_signer info \<and> ai_key info = q)"

fun closes :: "runtime \<Rightarrow> pubkey \<Rightarrow> tx \<Rightarrow> bool" where
  "closes rt k (slot, accounts, data) \<longleftrightarrow>
     rt_try_instruction rt data = Some CloseRound \<and> 2 < length accounts \<and> ai_key (accounts ! 2) = k"

lemma apply_tx_keeps:
  assumes "runtime_ok rt" "pa_version p \<noteq> 0" "\<not> signed_by (ra_pool r) t"
    and "pool_has rt program_id p L (ra_pool r)" "round_at rt program_id L (ra_pool r) = None"
    and "round_at rt program_id L k = Some r" "ra_version r \<noteq> 0" "round_ok p r"
  shows "pool_has rt program_id p (apply_tx rt program_id t L) (ra_pool r)
    \<and> ((\<exists>r'. round_at rt program_id (apply_tx rt program_id t L) k = Some r'
          \<and> round_ok p r' \<and> round_later r r')
      \<or> closes rt k t \<and> round_closed rt program_id L (apply_tx rt program_id t L) k)"
proof -
  obtain slot accounts data where t: "t = (slot, accounts, data)" by (cases t)
  let ?rt = "rt\<lparr>rt_clock_slot := Ok slot\<rparr>"
  show ?thesis
  proof (cases "process_instruction ?rt program_id accounts data L")
    case (Ok L')
    have ok: "runtime_ok ?rt" "rt_clock_slot ?rt = Ok slot" using assms(1) by simp_all
    have pool: "pool_has rt program_id p L' (ra_pool r)"
      using pool_has_step [OF ok assms(2) Ok, of "ra_pool r"] assms(4,5)
      by (simp add: pool_has_def)
    obtain n where n: "pool_at rt program_id L (ra_pool r) = Some (p\<lparr>pa_next_round := n\<rparr>)"
      using assms(4) by (auto simp: pool_has_def)
    have "(\<exists>r'. round_at rt program_id L' k = Some r' \<and> round_ok p r' \<and> round_later r r')
      \<or> closes rt k t \<and> round_closed rt program_id L L' k"
      using ok Ok _ assms(7)
    proof (rule round_cases)
      show "round_at ?rt program_id L k = Some r" using assms(6) by simp
      show "\<forall>info\<in>set accounts. ai_is_signer info \<longrightarrow> ai_key info \<noteq> ra_pool r"
        using assms(3) t by auto
    next
      assume "round_at ?rt program_id L' k = Some r"
      then show ?thesis using assms(8) round_later_refl by auto
    next
      fix r' assume "round_at ?rt program_id L' k = Some r'"
        "round_step (pool_at ?rt program_id L) slot r r'"
      then show ?thesis using round_step_ok [OF _ assms(8), of "pool_at rt program_id L" slot r' n]
          n round_step_later by auto
    next
      assume "rt_try_instruction ?rt data = Some CloseRound" "2 < length accounts"
        "ai_key (accounts ! 2) = k" "round_closed ?rt program_id L L' k"
      then show ?thesis by (simp add: t round_closed_def)
    qed
    then show ?thesis using pool Ok t by simp
  next
    case (Err e)
    then show ?thesis using assms t round_later_refl by auto
  next
    case Panic
    then show ?thesis using assms t round_later_refl by auto
  qed
qed

text \<open>
  C2. The invariant of a round's history: start from a round that satisfies the round
  invariant, as a freshly opened one does, and let any sequence of instructions follow, at any
  slots, with any accounts, by any signers except the round's pool, whose address has no key.
  All the time until a close instruction wipes the round, which then was in a terminal state, or
  until the bytes of the pool account read as a round (there is no type tag, see \<open>pool_has\<close>), the
  round account holds a round that satisfies the invariant: the cohort is within the policy's
  maximum and has reached its minimum once past registration, a Merkle round past registration
  has a nonzero root, the release window does not wrap and is zero before scheduling, and the
  metrics hash is set exactly when completed. Its identity, published root, sealed cohort size and
  release window never change once set, and its state moved along the lifecycle graph.
\<close>

theorem round_history:
  assumes "runtime_ok rt" "pa_version p \<noteq> 0"
    and "pool_has rt program_id p L (ra_pool r)"
    and "round_at rt program_id L k = Some r" "ra_version r \<noteq> 0" "round_ok p r"
    and "\<forall>t \<in> set txs. \<not> signed_by (ra_pool r) t"
  shows "\<exists>i \<le> length txs.
      (\<forall>j \<le> i. \<exists>r'. round_at rt program_id (apply_txs rt program_id (take j txs) L) k = Some r'
         \<and> round_ok p r' \<and> round_later r r')
    \<and> (i = length txs
       \<or> closes rt k (txs ! i) \<and> round_closed rt program_id
           (apply_txs rt program_id (take i txs) L) (apply_txs rt program_id (take (Suc i) txs) L) k
       \<or> round_at rt program_id (apply_txs rt program_id (take i txs) L) (ra_pool r) \<noteq> None)"
  using assms(3-7)
proof (induction txs arbitrary: L r)
  case Nil
  then show ?case using round_later_refl by auto
next
  case (Cons t ts)
  let ?L = "apply_tx rt program_id t L"
  show ?case
  proof (cases "round_at rt program_id L (ra_pool r) = None")
    case False
    then show ?thesis using Cons.prems round_later_refl by (intro exI [of _ 0]) auto
  next
    case True
    from apply_tx_keeps [OF assms(1,2) _ Cons.prems(1) True Cons.prems(2-4), of t] Cons.prems(5)
    have pool: "pool_has rt program_id p ?L (ra_pool r)" and
      "(\<exists>r'. round_at rt program_id ?L k = Some r' \<and> round_ok p r' \<and> round_later r r')
        \<or> closes rt k t \<and> round_closed rt program_id L ?L k" by simp_all
    then consider "closes rt k t \<and> round_closed rt program_id L ?L k"
      | r' where "round_at rt program_id ?L k = Some r'" "round_ok p r'" "round_later r r'" by blast
    then show ?thesis
    proof cases
      case 1
      then show ?thesis using Cons.prems round_later_refl by (intro exI [of _ 0]) auto
    next
      case 2
      have same: "ra_pool r' = ra_pool r" "ra_version r' = ra_version r"
        using 2(3) by (simp_all add: round_later_def)
      obtain i where i: "i \<le> length ts"
        "\<forall>j \<le> i. \<exists>r''. round_at rt program_id (apply_txs rt program_id (take j ts) ?L) k = Some r''
           \<and> round_ok p r'' \<and> round_later r' r''"
        "i = length ts
         \<or> closes rt k (ts ! i) \<and> round_closed rt program_id
             (apply_txs rt program_id (take i ts) ?L) (apply_txs rt program_id (take (Suc i) ts) ?L) k
         \<or> round_at rt program_id (apply_txs rt program_id (take i ts) ?L) (ra_pool r) \<noteq> None"
        using Cons.IH [of ?L r'] pool 2 same Cons.prems by auto
      have "\<exists>r''. round_at rt program_id (apply_txs rt program_id (take j (t # ts)) L) k = Some r''
          \<and> round_ok p r'' \<and> round_later r r''" if "j \<le> Suc i" for j
        using that i(2) 2(3) Cons.prems(2,4) round_later_refl round_later_trans
        by (cases j) fastforce+
      then show ?thesis using i(1,3) by (intro exI [of _ "Suc i"]) auto
    qed
  qed
qed

text \<open>For a pool whose bytes never read as a round only closing ends the history.\<close>

lemma pool_only_txs:
  assumes "runtime_ok rt" "pa_version p \<noteq> 0" "pool_only rt p"
    and "pool_has rt program_id p L q" "round_at rt program_id L q = None"
  shows "round_at rt program_id (apply_txs rt program_id txs L) q = None"
  using assms(4,5)
proof (induction txs arbitrary: L)
  case (Cons t ts)
  obtain slot accounts data where t: "t = (slot, accounts, data)" by (cases t)
  let ?rt = "rt\<lparr>rt_clock_slot := Ok slot\<rparr>" and ?L = "apply_tx rt program_id t L"
  have ok: "runtime_ok ?rt" "rt_clock_slot ?rt = Ok slot" using assms(1) by simp_all
  have "pool_has rt program_id p ?L q \<and> round_at rt program_id ?L q = None"
  proof (cases "process_instruction ?rt program_id accounts data L")
    case (Ok L')
    then show ?thesis using pool_has_step [OF ok assms(2) Ok, of q] Cons.prems assms(3)
      by (simp add: t pool_has_def pool_only_def)
  qed (use Cons.prems t in simp_all)
  then show ?case using Cons.IH by simp
qed simp

theorem round_history_kept:
  assumes "runtime_ok rt" "pa_version p \<noteq> 0" "pool_only rt p"
    and "pool_has rt program_id p L (ra_pool r)" "round_at rt program_id L (ra_pool r) = None"
    and "round_at rt program_id L k = Some r" "ra_version r \<noteq> 0" "round_ok p r"
    and "\<forall>t \<in> set txs. \<not> signed_by (ra_pool r) t \<and> \<not> closes rt k t"
  shows "\<exists>r'. round_at rt program_id (apply_txs rt program_id txs L) k = Some r'
    \<and> round_ok p r' \<and> round_later r r'"
  using assms(4-9)
proof (induction txs arbitrary: L r)
  case Nil
  then show ?case using round_later_refl by auto
next
  case (Cons t ts)
  let ?L = "apply_tx rt program_id t L"
  obtain r' where pool: "pool_has rt program_id p ?L (ra_pool r)"
    and r': "round_at rt program_id ?L k = Some r'" "round_ok p r'" "round_later r r'"
    using apply_tx_keeps [OF assms(1,2) _ Cons.prems(1-5), of t] Cons.prems(6) by auto
  have "ra_pool r' = ra_pool r" "ra_version r' = ra_version r"
    using r'(3) by (simp_all add: round_later_def)
  moreover have "round_at rt program_id ?L (ra_pool r) = None"
    using pool_only_txs [OF assms(1-3) Cons.prems(1,2), of "[t]"] by simp
  ultimately obtain r'' where "round_at rt program_id (apply_txs rt program_id ts ?L) k = Some r''"
    "round_ok p r''" "round_later r' r''"
    using Cons.IH [of ?L r'] pool r' Cons.prems by auto
  then show ?case using round_later_trans [OF r'(3)] by auto
qed

end
