(* ===== verification/MP_Borsh.thy ===== *)
theory MP_Borsh
  imports MP_Rounds
begin

text \<open>
  An executable instance of the runtime that the on-chain program is parameterised by: the
  Borsh encoding of the program's account and instruction types (fields in declaration
  order, integers little-endian, enums as a tag byte, fixed arrays as they are, Booleans as
  0 or 1), a System Program that moves the rent and allocates zeroed data, and a simple
  address derivation. It shows that the assumptions of the theorems hold together and lets
  the witnesses run real instruction bytes. None of it models code of the repository.
\<close>

section \<open>Primitive readers\<close>

definition get_bytes :: "nat \<Rightarrow> bytes \<Rightarrow> (bytes \<times> bytes) option" where
  "get_bytes n bs = (if length bs < n then None else Some (take n bs, drop n bs))"

fun get_u8 :: "bytes \<Rightarrow> (u8 \<times> bytes) option" where
  "get_u8 [] = None"
| "get_u8 (b # bs) = Some (b, bs)"

definition get_word :: "nat \<Rightarrow> bytes \<Rightarrow> ('a::len word \<times> bytes) option" where
  "get_word n bs = map_option (\<lambda>(b, rest). (of_nat (le_value b), rest)) (get_bytes n bs)"

definition put_word :: "nat \<Rightarrow> 'a::len word \<Rightarrow> bytes" where
  "put_word n w = le_bytes n (unat w)"

definition get_u32 :: "bytes \<Rightarrow> (u32 \<times> bytes) option" where
  "get_u32 = get_word 4"

definition get_u64 :: "bytes \<Rightarrow> (u64 \<times> bytes) option" where
  "get_u64 = get_word 8"

definition get_tag :: "'a list \<Rightarrow> bytes \<Rightarrow> ('a \<times> bytes) option" where
  "get_tag vs bs = Option.bind (get_u8 bs) (\<lambda>(t, rest).
     if unat t < length vs then Some (vs ! unat t, rest) else None)"

definition put_tag :: "'a list \<Rightarrow> 'a \<Rightarrow> bytes" where
  "put_tag vs v = [of_nat (length (takeWhile (\<lambda>u. u \<noteq> v) vs))]"

lemma get_bytes_append: "length b = n \<Longrightarrow> get_bytes n (b @ rest) = Some (b, rest)"
  by (simp add: get_bytes_def)

lemma get_word_append:
  assumes "LENGTH('a) = 8 * n"
  shows "get_word n (put_word n (w :: 'a::len word) @ rest) = Some (w, rest)"
proof -
  have "unat w < 2 ^ LENGTH('a)" by (rule unsigned_less)
  then have "unat w < 256 ^ n" using assms by (simp add: power_mult)
  then show ?thesis
    by (simp add: get_word_def put_word_def get_bytes_append le_value_le_bytes)
qed

lemma get_u32_append [simp]: "get_u32 (put_word 4 w @ rest) = Some (w, rest)"
  by (simp add: get_u32_def get_word_append)

lemma get_u64_append [simp]: "get_u64 (put_word 8 w @ rest) = Some (w, rest)"
  by (simp add: get_u64_def get_word_append)

lemma put_tag_Cons [simp]: "put_tag vs v @ rest = hd (put_tag vs v) # rest"
  by (simp add: put_tag_def)

lemma get_tag_append:
  assumes "v \<in> set vs" "length vs < 256"
  shows "get_tag vs (hd (put_tag vs v) # rest) = Some (v, rest)"
proof -
  let ?i = "length (takeWhile (\<lambda>u. u \<noteq> v) vs)"
  have i: "?i < length vs"
    using assms(1) by (metis (mono_tags, lifting) length_takeWhile_le nless_le takeWhile_eq_all_conv takeWhile_eq_take take_all)
  then have "vs ! ?i = v" using nth_length_takeWhile [of "\<lambda>u. u \<noteq> v" vs] by simp
  moreover have "unat (of_nat ?i :: u8) = ?i"
    using i assms(2) by (simp add: unat_of_nat)
  ultimately show ?thesis using i by (simp add: get_tag_def put_tag_def)
qed

section \<open>Account codecs\<close>

definition backends :: "Backend list" where
  "backends = [Backend.TransparentRegistry, Backend.MerkleCohort]"

definition states :: "State list" where
  "states = [State.Registration, State.ThresholdReached, State.Sealed, State.ReleaseScheduled,
     State.ExecutionWindow, State.Finalizing, State.Completed, State.Cancelled, State.Expired]"

definition bools :: "bool list" where
  "bools = [False, True]"

lemma get_tag_backend [simp]:
  "get_tag backends (hd (put_tag backends b) # rest) = Some (b, rest)"
  by (rule get_tag_append) (cases b; simp add: backends_def)+

lemma get_tag_state [simp]: "get_tag states (hd (put_tag states s) # rest) = Some (s, rest)"
  by (rule get_tag_append) (cases s; simp add: states_def)+

lemma get_tag_bool [simp]: "get_tag bools (hd (put_tag bools b) # rest) = Some (b, rest)"
  by (rule get_tag_append) (cases b; simp add: bools_def)+

definition borsh_pool_to_vec :: "PoolAccount \<Rightarrow> bytes option" where
  "borsh_pool_to_vec p =
     (if length (pa_authority p) = 32 \<and> length (pa_pool_id p) = 32
         \<and> length (pa_template_hash p) = 32
      then Some ([pa_version p, pa_bump p] @ pa_authority p @ pa_pool_id p @ pa_template_hash p
        @ put_word 4 (pa_min_participants p) @ put_word 4 (pa_max_participants p)
        @ put_word 8 (pa_min_release_delay p) @ put_word 8 (pa_max_release_delay p)
        @ put_word 8 (pa_execution_window p) @ put_tag backends (pa_backend p)
        @ put_word 8 (pa_next_round p) @ put_tag bools (pa_paused p))
      else None)"

definition borsh_pool_deserialize :: "bytes \<Rightarrow> PoolAccount option" where
  "borsh_pool_deserialize bs =
     Option.bind (get_u8 bs) (\<lambda>(version, bs).
     Option.bind (get_u8 bs) (\<lambda>(bump, bs).
     Option.bind (get_bytes 32 bs) (\<lambda>(authority, bs).
     Option.bind (get_bytes 32 bs) (\<lambda>(pool_id, bs).
     Option.bind (get_bytes 32 bs) (\<lambda>(template, bs).
     Option.bind (get_u32 bs) (\<lambda>(mn, bs).
     Option.bind (get_u32 bs) (\<lambda>(mx, bs).
     Option.bind (get_u64 bs) (\<lambda>(mind, bs).
     Option.bind (get_u64 bs) (\<lambda>(maxd, bs).
     Option.bind (get_u64 bs) (\<lambda>(window, bs).
     Option.bind (get_tag backends bs) (\<lambda>(backend, bs).
     Option.bind (get_u64 bs) (\<lambda>(next_round, bs).
     Option.bind (get_tag bools bs) (\<lambda>(paused, bs).
     Some \<lparr>pa_version = version, pa_bump = bump, pa_authority = authority,
           pa_pool_id = pool_id, pa_template_hash = template,
           pa_min_participants = mn, pa_max_participants = mx,
           pa_min_release_delay = mind, pa_max_release_delay = maxd,
           pa_execution_window = window, pa_backend = backend,
           pa_next_round = next_round, pa_paused = paused\<rparr>)))))))))))))"

definition borsh_round_to_vec :: "RoundAccount \<Rightarrow> bytes option" where
  "borsh_round_to_vec r =
     (if length (ra_pool r) = 32 \<and> length (ra_template_hash r) = 32
         \<and> length (ra_cohort_root r) = 32 \<and> length (ra_metrics_hash r) = 32
      then Some ([ra_version r, ra_bump r] @ ra_pool r @ put_word 8 (ra_round_id r)
        @ put_tag states (ra_state r) @ put_word 8 (ra_registration_deadline r)
        @ ra_template_hash r @ put_word 4 (ra_accepted_count r) @ ra_cohort_root r
        @ put_word 8 (ra_release_slot r) @ put_word 8 (ra_window_end_slot r)
        @ ra_metrics_hash r)
      else None)"

definition borsh_round_deserialize :: "bytes \<Rightarrow> RoundAccount option" where
  "borsh_round_deserialize bs =
     Option.bind (get_u8 bs) (\<lambda>(version, bs).
     Option.bind (get_u8 bs) (\<lambda>(bump, bs).
     Option.bind (get_bytes 32 bs) (\<lambda>(pool, bs).
     Option.bind (get_u64 bs) (\<lambda>(round_id, bs).
     Option.bind (get_tag states bs) (\<lambda>(state, bs).
     Option.bind (get_u64 bs) (\<lambda>(deadline, bs).
     Option.bind (get_bytes 32 bs) (\<lambda>(template, bs).
     Option.bind (get_u32 bs) (\<lambda>(accepted, bs).
     Option.bind (get_bytes 32 bs) (\<lambda>(root, bs).
     Option.bind (get_u64 bs) (\<lambda>(release, bs).
     Option.bind (get_u64 bs) (\<lambda>(window_end, bs).
     Option.bind (get_bytes 32 bs) (\<lambda>(metrics, bs).
     Some \<lparr>ra_version = version, ra_bump = bump, ra_pool = pool,
           ra_round_id = round_id, ra_state = state, ra_registration_deadline = deadline,
           ra_template_hash = template, ra_accepted_count = accepted, ra_cohort_root = root,
           ra_release_slot = release, ra_window_end_slot = window_end,
           ra_metrics_hash = metrics\<rparr>))))))))))))"

definition borsh_record_to_vec :: "ParticipantRecord \<Rightarrow> bytes option" where
  "borsh_record_to_vec r =
     (if length (pr_round r) = 32 \<and> length (pr_coordination_key r) = 32
      then Some ([pr_version r, pr_bump r] @ pr_round r @ pr_coordination_key r)
      else None)"

interpretation borsh_pool: account_codec borsh_pool_to_vec borsh_pool_deserialize
  by unfold_locales
    (clarsimp simp: borsh_pool_to_vec_def borsh_pool_deserialize_def get_bytes_append
      split: if_splits)

interpretation borsh_round: account_codec borsh_round_to_vec borsh_round_deserialize
  by unfold_locales
    (clarsimp simp: borsh_round_to_vec_def borsh_round_deserialize_def get_bytes_append
      split: if_splits)

section \<open>Instruction codec\<close>

definition len32 :: "bytes list \<Rightarrow> bytes \<Rightarrow> bytes option" where
  "len32 arrays bs = (if \<forall>a \<in> set arrays. length a = 32 then Some bs else None)"

fun borsh_instruction_to_vec :: "CoordinationInstruction \<Rightarrow> bytes option" where
  "borsh_instruction_to_vec
     (InitializePool pool_id template mn mx mind maxd window backend bump) =
     len32 [pool_id, template]
       (0 # pool_id @ template @ put_word 4 mn @ put_word 4 mx @ put_word 8 mind
          @ put_word 8 maxd @ put_word 8 window @ put_tag backends backend @ [bump])"
| "borsh_instruction_to_vec (OpenRound round_id deadline template bump) =
     len32 [template] (1 # put_word 8 round_id @ put_word 8 deadline @ template @ [bump])"
| "borsh_instruction_to_vec (RegisterTransparent key bump) = len32 [key] (2 # key @ [bump])"
| "borsh_instruction_to_vec (PublishCohortRoot root n) =
     len32 [root] (3 # root @ put_word 4 n)"
| "borsh_instruction_to_vec SealRound = Some [4]"
| "borsh_instruction_to_vec (ScheduleRelease release) = Some (5 # put_word 8 release)"
| "borsh_instruction_to_vec BeginExecutionWindow = Some [6]"
| "borsh_instruction_to_vec (FinalizeRound metrics) = len32 [metrics] (7 # metrics)"
| "borsh_instruction_to_vec CancelRound = Some [8]"
| "borsh_instruction_to_vec CloseRound = Some [9]"

text \<open>\<open>try_from_slice\<close> requires the whole slice to be used up.\<close>

definition finish :: "'a \<Rightarrow> bytes \<Rightarrow> 'a option" where
  "finish x bs = (if bs = [] then Some x else None)"

definition borsh_try_instruction :: "bytes \<Rightarrow> CoordinationInstruction option" where
  "borsh_try_instruction bs =
    Option.bind (get_u8 bs) (\<lambda>(tag, bs).
    if tag = 0 then
      Option.bind (get_bytes 32 bs) (\<lambda>(pool_id, bs).
      Option.bind (get_bytes 32 bs) (\<lambda>(template, bs).
      Option.bind (get_u32 bs) (\<lambda>(mn, bs).
      Option.bind (get_u32 bs) (\<lambda>(mx, bs).
      Option.bind (get_u64 bs) (\<lambda>(mind, bs).
      Option.bind (get_u64 bs) (\<lambda>(maxd, bs).
      Option.bind (get_u64 bs) (\<lambda>(window, bs).
      Option.bind (get_tag backends bs) (\<lambda>(backend, bs).
      Option.bind (get_u8 bs) (\<lambda>(bump, bs).
      finish (InitializePool pool_id template mn mx mind maxd window backend bump) bs)))))))))
    else if tag = 1 then
      Option.bind (get_u64 bs) (\<lambda>(round_id, bs).
      Option.bind (get_u64 bs) (\<lambda>(deadline, bs).
      Option.bind (get_bytes 32 bs) (\<lambda>(template, bs).
      Option.bind (get_u8 bs) (\<lambda>(bump, bs).
      finish (OpenRound round_id deadline template bump) bs))))
    else if tag = 2 then
      Option.bind (get_bytes 32 bs) (\<lambda>(key, bs).
      Option.bind (get_u8 bs) (\<lambda>(bump, bs). finish (RegisterTransparent key bump) bs))
    else if tag = 3 then
      Option.bind (get_bytes 32 bs) (\<lambda>(root, bs).
      Option.bind (get_u32 bs) (\<lambda>(n, bs). finish (PublishCohortRoot root n) bs))
    else if tag = 4 then finish SealRound bs
    else if tag = 5 then
      Option.bind (get_u64 bs) (\<lambda>(release, bs). finish (ScheduleRelease release) bs)
    else if tag = 6 then finish BeginExecutionWindow bs
    else if tag = 7 then
      Option.bind (get_bytes 32 bs) (\<lambda>(metrics, bs). finish (FinalizeRound metrics) bs)
    else if tag = 8 then finish CancelRound bs
    else if tag = 9 then finish CloseRound bs
    else None)"

lemma get_end:
  "length b = n \<Longrightarrow> get_bytes n b = Some (b, [])"
  "get_u32 (put_word 4 w) = Some (w, [])"
  "get_u64 (put_word 8 v) = Some (v, [])"
  using get_bytes_append [of b n "[]"] get_u32_append [of w "[]"] get_u64_append [of v "[]"]
  by simp_all

lemma borsh_instruction_roundtrip:
  "borsh_instruction_to_vec ins = Some bs \<Longrightarrow> borsh_try_instruction bs = Some ins"
  by (cases ins) (auto simp: borsh_try_instruction_def len32_def finish_def get_bytes_append
      get_end split: if_splits)

section \<open>The runtime\<close>

definition system_create_account ::
  "AccountInfo \<Rightarrow> AccountInfo \<Rightarrow> u64 \<Rightarrow> u64 \<Rightarrow> pubkey \<Rightarrow> bytes list \<Rightarrow> ledger
     \<Rightarrow> (ledger, ProgramError) result" where
  "system_create_account payer account lamports space owner seeds L =
    (let from = L (ai_key payer); to = L (ai_key account) in
     if ai_key payer = ai_key account \<or> \<not> ai_is_signer payer
        \<or> ac_lamports to \<noteq> 0 \<or> ac_data to \<noteq> [] \<or> ac_lamports from < lamports
     then Err (Custom 0)
     else Ok (L(ai_key payer := from\<lparr>ac_lamports := ac_lamports from - lamports\<rparr>,
                ai_key account := \<lparr>ac_lamports = lamports, ac_data = replicate (unat space) 0,
                                   ac_owner = owner\<rparr>)))"

definition sample_address :: "bytes list \<Rightarrow> pubkey \<Rightarrow> pubkey option" where
  "sample_address seeds program_id = Some (take 32 (rev (concat seeds) @ program_id))"

definition borsh_runtime :: "u64 \<Rightarrow> runtime" where
  "borsh_runtime slot =
     \<lparr>rt_clock_slot = Ok slot,
      rt_minimum_balance = (\<lambda>space. Ok (of_nat (128 + space) * 6960)),
      rt_create_program_address = sample_address,
      rt_system_program = replicate 32 0,
      rt_create_account = system_create_account,
      rt_try_instruction = borsh_try_instruction,
      rt_pool_to_vec = borsh_pool_to_vec,
      rt_pool_deserialize = borsh_pool_deserialize,
      rt_round_to_vec = borsh_round_to_vec,
      rt_round_deserialize = borsh_round_deserialize,
      rt_record_to_vec = borsh_record_to_vec\<rparr>"

lemma get_u8_Some_iff: "get_u8 bs = Some p \<longleftrightarrow> bs = fst p # snd p"
  by (cases bs; cases p) auto

lemma pool_starts:
  assumes "borsh_pool_deserialize bs = Some p"
  obtains rest where "bs = pa_version p # pa_bump p # pa_authority p @ rest"
    "length (pa_authority p) = 32"
  using assms that [of "drop 34 bs"]
  by (auto simp: borsh_pool_deserialize_def bind_eq_Some_conv get_u8_Some_iff get_bytes_def
      split: if_splits)

lemma round_starts:
  assumes "borsh_round_deserialize bs = Some r"
  obtains rest where "bs = ra_version r # ra_bump r # ra_pool r @ rest"
    "length (ra_pool r) = 32"
  using assms that [of "drop 34 bs"]
  by (auto simp: borsh_round_deserialize_def bind_eq_Some_conv get_u8_Some_iff get_bytes_def
      split: if_splits)

lemma borsh_runtime_ok: "runtime_ok (borsh_runtime slot)"
  unfolding runtime_ok_def
proof (intro conjI allI impI)
  show "account_codec (rt_pool_to_vec (borsh_runtime slot)) (rt_pool_deserialize (borsh_runtime slot))"
    "account_codec (rt_round_to_vec (borsh_runtime slot)) (rt_round_deserialize (borsh_runtime slot))"
    by (simp_all add: borsh_runtime_def borsh_pool.account_codec_axioms
        borsh_round.account_codec_axioms)
next
  fix bs p assume "rt_pool_deserialize (borsh_runtime slot) bs = Some p"
  then have "borsh_pool_deserialize bs = Some p" by (simp add: borsh_runtime_def)
  then show "bs \<noteq> []" "hd bs = pa_version p" by (auto elim: pool_starts)
next
  fix bs r assume "rt_round_deserialize (borsh_runtime slot) bs = Some r"
  then have "borsh_round_deserialize bs = Some r" by (simp add: borsh_runtime_def)
  then show "bs \<noteq> []" "hd bs = ra_version r" by (auto elim: round_starts)
next
  fix bs p r assume "rt_pool_deserialize (borsh_runtime slot) bs = Some p"
    "rt_round_deserialize (borsh_runtime slot) bs = Some r"
  then have "borsh_pool_deserialize bs = Some p" "borsh_round_deserialize bs = Some r"
    by (simp_all add: borsh_runtime_def)
  then show "pa_authority p = ra_pool r" by (auto elim!: pool_starts round_starts)
qed (auto simp: borsh_runtime_def system_create_account_def Let_def split: if_splits)

text \<open>
  A pool account that Borsh cannot read as a round: byte 8 of its pool id, which is where a
  round has its state tag, is no tag of a state.
\<close>

lemma get_tag_state_None: "9 \<le> b \<Longrightarrow> get_tag states (b # rest) = None"
  by (simp add: get_tag_def states_def word_le_nat_alt)

lemma borsh_pool_only:
  assumes "9 \<le> pa_pool_id p ! 8"
  shows "pool_only (borsh_runtime slot) p"
  unfolding pool_only_def
proof (intro allI impI)
  fix n bs rest
  assume "rt_pool_to_vec (borsh_runtime slot) (p\<lparr>pa_next_round := n\<rparr>) = Some bs"
  then obtain tail where len: "length (pa_authority p) = 32" "length (pa_pool_id p) = 32"
    and bs: "bs = pa_version p # pa_bump p # pa_authority p @ pa_pool_id p @ tail"
    by (auto simp: borsh_runtime_def borsh_pool_to_vec_def split: if_splits)
  have split: "pa_pool_id p = take 8 (pa_pool_id p) @ pa_pool_id p ! 8 # drop 9 (pa_pool_id p)"
    using id_take_nth_drop [of 8 "pa_pool_id p"] len by simp
  have "get_u64 (pa_pool_id p @ tail @ rest) =
    Some (of_nat (le_value (take 8 (pa_pool_id p))),
          pa_pool_id p ! 8 # drop 9 (pa_pool_id p) @ tail @ rest)"
    using len by (subst split, simp only: get_u64_def get_word_def append_assoc)
      (simp add: get_bytes_append)
  then have "borsh_round_deserialize (bs @ rest) = None"
    using get_tag_state_None [OF assms] len bs
    by (simp add: borsh_round_deserialize_def get_bytes_append)
  then show "rt_round_deserialize (borsh_runtime slot) (bs @ rest) = None"
    by (simp add: borsh_runtime_def)
qed

section \<open>A concrete ledger\<close>

definition sample_program :: pubkey where
  "sample_program = replicate 32 9"

definition sample_authority :: AccountInfo where
  "sample_authority = \<lparr>ai_key = replicate 32 1, ai_is_signer = True, ai_is_writable = True\<rparr>"

definition sample_pool_info :: AccountInfo where
  "sample_pool_info = \<lparr>ai_key = replicate 32 2, ai_is_signer = False, ai_is_writable = True\<rparr>"

definition sample_round_info :: AccountInfo where
  "sample_round_info = \<lparr>ai_key = replicate 32 3, ai_is_signer = False, ai_is_writable = True\<rparr>"

definition sample_pool :: PoolAccount where
  "sample_pool = new_pool (replicate 8 0 @ replicate 24 200) (replicate 32 7) 2 3 5 50 10 Backend.MerkleCohort 255
     (ai_key sample_authority)"

definition sample_round_account :: RoundAccount where
  "sample_round_account = fresh_round (ai_key sample_pool_info) 0 100 (replicate 32 7) 254"

definition stored :: "bytes option \<Rightarrow> Account" where
  "stored bs = \<lparr>ac_lamports = 1000, ac_data = take 256 (the bs @ replicate 256 0),
     ac_owner = sample_program\<rparr>"

definition sample_ledger :: ledger where
  "sample_ledger k =
     (if k = ai_key sample_pool_info then stored (borsh_pool_to_vec sample_pool)
      else if k = ai_key sample_round_info then stored (borsh_round_to_vec sample_round_account)
      else \<lparr>ac_lamports = (if k = ai_key sample_authority then 1000000000 else 0),
            ac_data = [], ac_owner = replicate 32 0\<rparr>)"

definition sample_accounts :: "AccountInfo list" where
  "sample_accounts = [sample_authority, sample_pool_info, sample_round_info]"

definition publish_bytes :: bytes where
  "publish_bytes = the (borsh_instruction_to_vec (PublishCohortRoot (replicate 32 4) 3))"

lemma sample_round_at:
  "round_at (borsh_runtime slot) sample_program sample_ledger (ai_key sample_round_info)
     = Some sample_round_account"
proof -
  have "borsh_round_deserialize (ac_data (sample_ledger (ai_key sample_round_info)))
      = Some sample_round_account"
    "ac_owner (sample_ledger (ai_key sample_round_info)) = sample_program"
    by code_simp+
  then show ?thesis by (simp add: round_at_def borsh_runtime_def)
qed

lemma sample_publish_ok:
  "is_ok (process_instruction (borsh_runtime 20) sample_program sample_accounts publish_bytes
     sample_ledger)"
  by code_simp

lemma sample_pool_has:
  "pool_has (borsh_runtime slot) sample_program sample_pool sample_ledger (ai_key sample_pool_info)"
  "round_at (borsh_runtime slot) sample_program sample_ledger (ai_key sample_pool_info) = None"
proof -
  have "borsh_pool_deserialize (ac_data (sample_ledger (ai_key sample_pool_info)))
      = Some (sample_pool\<lparr>pa_next_round := 0\<rparr>)"
    "borsh_round_deserialize (ac_data (sample_ledger (ai_key sample_pool_info))) = None"
    "ac_owner (sample_ledger (ai_key sample_pool_info)) = sample_program"
    by code_simp+
  then show "pool_has (borsh_runtime slot) sample_program sample_pool sample_ledger (ai_key sample_pool_info)"
    "round_at (borsh_runtime slot) sample_program sample_ledger (ai_key sample_pool_info) = None"
    by (auto simp: pool_has_def pool_at_def round_at_def borsh_runtime_def)
qed

lemma borsh_clock: "rt_clock_slot (borsh_runtime slot) = Ok slot"
  by (simp add: borsh_runtime_def)

lemma sample_pool_only: "pool_only (borsh_runtime slot) sample_pool"
proof (rule borsh_pool_only)
  show "9 \<le> pa_pool_id sample_pool ! 8"
    by (simp add: sample_pool_def new_pool_def nth_append)
qed

lemma sample_versions: "pa_version sample_pool \<noteq> 0" "ra_version sample_round_account \<noteq> 0"
  by (simp_all add: sample_pool_def new_pool_def sample_round_account_def fresh_round_def)

lemma sample_round_pool: "ra_pool sample_round_account = ai_key sample_pool_info"
  by (simp add: sample_round_account_def fresh_round_def)

lemma fresh_round_ok: "round_ok p (fresh_round pool round_id deadline template bump)"
  by (simp add: round_ok_def fresh_round_def)

lemma sample_round_ok: "round_ok sample_pool sample_round_account"
  by (simp add: sample_round_account_def fresh_round_ok)

lemmas sample_facts = borsh_runtime_ok borsh_clock sample_pool_only sample_versions(1)
  sample_round_pool sample_versions(2) sample_round_ok

lemma sample_signers:
  "\<forall>info \<in> set sample_accounts. ai_is_signer info \<longrightarrow> ai_key info \<noteq> ra_pool sample_round_account"
  by code_simp

theorem process_refines_round_step_witness:
  "\<exists>L'. process_instruction (borsh_runtime 20) sample_program sample_accounts publish_bytes
      sample_ledger = Ok L'
    \<and> (round_at (borsh_runtime 20) sample_program L' (ai_key sample_round_info)
         = Some sample_round_account
       \<or> (\<exists>r'. round_at (borsh_runtime 20) sample_program L' (ai_key sample_round_info) = Some r'
           \<and> round_step (pool_at (borsh_runtime 20) sample_program sample_ledger) 20
               sample_round_account r')
       \<or> rt_try_instruction (borsh_runtime 20) publish_bytes = Some CloseRound
           \<and> 2 < length sample_accounts
           \<and> ai_key (sample_accounts ! 2) = ai_key sample_round_info
           \<and> round_closed (borsh_runtime 20) sample_program sample_ledger L'
               (ai_key sample_round_info))"
proof -
  obtain L' where "process_instruction (borsh_runtime 20) sample_program sample_accounts
      publish_bytes sample_ledger = Ok L'"
    using sample_publish_ok by (auto simp: is_ok_iff)
  then show ?thesis
    using process_refines_round_step [OF sample_facts(1,2) _ sample_round_at sample_facts(6)
        sample_signers] by blast
qed

definition sample_txs :: "tx list" where
  "sample_txs =
     [(20, sample_accounts, publish_bytes), (21, sample_accounts, [4]),
      (22, sample_accounts, the (borsh_instruction_to_vec (ScheduleRelease 40))),
      (45, [sample_round_info], [6]),
      (51, sample_accounts, the (borsh_instruction_to_vec (FinalizeRound (replicate 32 5))))]"

lemma sample_txs_keep:
  "\<forall>t \<in> set sample_txs. \<not> signed_by (ra_pool sample_round_account) t
     \<and> \<not> closes (borsh_runtime 0) (ai_key sample_round_info) t"
  by code_simp

theorem round_history_kept_witness:
  "\<exists>r'. round_at (borsh_runtime 0) sample_program
      (apply_txs (borsh_runtime 0) sample_program sample_txs sample_ledger)
      (ai_key sample_round_info) = Some r'
    \<and> round_ok sample_pool r' \<and> round_later sample_round_account r'"
  using sample_facts(6) sample_facts(5)
  by (intro round_history_kept [OF sample_facts(1,4,3) _ _ sample_round_at _ sample_facts(7)
        sample_txs_keep]) (simp_all add: sample_pool_has)

text \<open>The same instructions, and then the round is closed.\<close>

definition closing_txs :: "tx list" where
  "closing_txs = sample_txs @ [(52, sample_accounts, the (borsh_instruction_to_vec CloseRound))]"

lemma closing_txs_unsigned: "\<forall>t \<in> set closing_txs. \<not> signed_by (ai_key sample_pool_info) t"
  by code_simp

theorem round_history_witness:
  "\<exists>i \<le> length closing_txs.
      (\<forall>j \<le> i. \<exists>r'. round_at (borsh_runtime 0) sample_program
           (apply_txs (borsh_runtime 0) sample_program (take j closing_txs) sample_ledger)
           (ai_key sample_round_info) = Some r'
         \<and> round_ok sample_pool r' \<and> round_later sample_round_account r')
    \<and> (i = length closing_txs
       \<or> closes (borsh_runtime 0) (ai_key sample_round_info) (closing_txs ! i)
         \<and> round_closed (borsh_runtime 0) sample_program
           (apply_txs (borsh_runtime 0) sample_program (take i closing_txs) sample_ledger)
           (apply_txs (borsh_runtime 0) sample_program (take (Suc i) closing_txs) sample_ledger)
           (ai_key sample_round_info)
       \<or> round_at (borsh_runtime 0) sample_program
           (apply_txs (borsh_runtime 0) sample_program (take i closing_txs) sample_ledger)
           (ra_pool sample_round_account) \<noteq> None)"
  using sample_facts(5,6) closing_txs_unsigned sample_pool_has(1)
  by (intro round_history [OF sample_facts(1,4) _ sample_round_at _ sample_facts(7)]) simp_all

end
