(* ===== verification/MP_Authority.thy ===== *)
theory MP_Authority
  imports MP_Borsh
begin

text \<open>
  Who may do what on chain, and what the instructions achieve: the signature every
  administrative instruction needs, the creation of pools and rounds, the return of a closed
  round's rent, the run of a Merkle round from registration to completion, and the cases the
  authority check does not cover.
\<close>

section \<open>Authority\<close>

fun admin_instruction :: "CoordinationInstruction \<Rightarrow> bool" where
  "admin_instruction (InitializePool _ _ _ _ _ _ _ _ _) = False"
| "admin_instruction (RegisterTransparent _ _) = False"
| "admin_instruction BeginExecutionWindow = False"
| "admin_instruction _ = True"

text \<open>
  C7. Every instruction that opens, publishes, seals, schedules, finalizes, cancels or
  closes succeeds only if its first account signed the transaction and is the authority
  recorded in a pool account owned by the program, which is its second account.
\<close>

theorem admin_requires_authority:
  assumes "rt_try_instruction rt data = Some ins" "admin_instruction ins"
    and "process_instruction rt program_id accounts data L = Ok L'"
  shows "\<exists>authority pool_info round_info rest p.
    accounts = authority # pool_info # round_info # rest \<and> ai_is_signer authority
    \<and> pool_at rt program_id L (ai_key pool_info) = Some p \<and> pa_authority p = ai_key authority"
proof -
  have "dispatch rt program_id accounts ins L = Ok L'"
    using assms(1,3) by (simp add: process_instruction_def)
  then have "\<exists>pool_info round_info p. administers rt program_id accounts pool_info round_info p L"
    using assms(2) by (cases ins) (auto simp only: dispatch.simps admin_instruction.simps
        open_round_Ok_iff publish_root_Ok_iff seal_Ok_iff schedule_Ok_iff finalize_Ok_iff
        cancel_Ok_iff close_Ok_iff)
  then show ?thesis by (auto simp: administers_def)
qed

theorem admin_requires_authority_witness:
  "\<exists>authority pool_info round_info rest p.
    sample_accounts = authority # pool_info # round_info # rest \<and> ai_is_signer authority
    \<and> pool_at (borsh_runtime 20) sample_program sample_ledger (ai_key pool_info) = Some p
    \<and> pa_authority p = ai_key authority"
proof -
  have bytes: "rt_try_instruction (borsh_runtime 20) publish_bytes
      = Some (PublishCohortRoot (replicate 32 4) 3)"
    by code_simp
  obtain L' where "process_instruction (borsh_runtime 20) sample_program sample_accounts
      publish_bytes sample_ledger = Ok L'"
    using sample_publish_ok by (auto simp: is_ok_iff)
  then show ?thesis using admin_requires_authority [OF bytes] by simp
qed

section \<open>Space for a round\<close>

definition arrays32 :: "RoundAccount \<Rightarrow> bool" where
  "arrays32 r \<longleftrightarrow> length (ra_pool r) = 32 \<and> length (ra_template_hash r) = 32
     \<and> length (ra_cohort_root r) = 32 \<and> length (ra_metrics_hash r) = 32"

definition round_fits :: "runtime \<Rightarrow> ledger \<Rightarrow> pubkey \<Rightarrow> bool" where
  "round_fits rt L k \<longleftrightarrow>
     (\<forall>r. arrays32 r \<longrightarrow> (\<exists>bs. rt_round_to_vec rt r = Some bs \<and> length bs \<le> length (ac_data (L k))))"

lemma borsh_round_fits:
  assumes "167 \<le> length (ac_data (L k))"
  shows "round_fits (borsh_runtime slot) L k"
  using assms
  by (simp add: round_fits_def arrays32_def borsh_runtime_def borsh_round_to_vec_def put_word_def
      put_tag_def)

lemma round_fits_clock [simp]: "round_fits (rt\<lparr>rt_clock_slot := s\<rparr>) = round_fits rt"
  by (simp add: round_fits_def fun_eq_iff)

text \<open>A round of a pool, both stored on the ledger in different accounts.\<close>

definition hosts ::
  "runtime \<Rightarrow> pubkey \<Rightarrow> pubkey \<Rightarrow> PoolAccount \<Rightarrow> pubkey \<Rightarrow> RoundAccount \<Rightarrow> ledger \<Rightarrow> bool" where
  "hosts rt program_id q p k r L \<longleftrightarrow>
     q \<noteq> k \<and> pool_at rt program_id L q = Some p \<and> round_at rt program_id L k = Some r
   \<and> arrays32 r \<and> round_fits rt L k"

lemma updates_round_hosts:
  assumes "runtime_ok rt" "hosts rt program_id q p (ai_key info) r L" "arrays32 r'"
  obtains L' where "updates_round rt program_id info r r' L L'"
    "hosts rt program_id q p (ai_key info) r' L'"
    "\<And>k. ac_lamports (L' k) = ac_lamports (L k)"
    "\<And>k. k \<noteq> ai_key info \<Longrightarrow> L' k = L k"
    "length (ac_data (L' (ai_key info))) = length (ac_data (L (ai_key info)))"
proof -
  obtain L' where wr: "write_account (rt_round_to_vec rt) info r' L = Ok L'"
    using assms(2,3) by (auto simp: hosts_def round_fits_def write_account_Ok_iff)
  have up: "updates_round rt program_id info r r' L L'"
    using assms(2) wr by (simp add: updates_round_def hosts_def)
  note frame = write_account_frame [OF wr]
  have "L' q = L q" using frame(1) assms(2) by (simp add: hosts_def)
  then have "hosts rt program_id q p (ai_key info) r' L'"
    using assms(2,3) updates_round_effect(1) [OF assms(1) up] frame(4)
    by (simp add: hosts_def round_fits_def at_owned_iff)
  then show ?thesis using that up frame by blast
qed

text \<open>Instructions whose guards hold are carried out.\<close>

definition admin_list :: "AccountInfo list \<Rightarrow> PoolAccount \<Rightarrow> AccountInfo \<Rightarrow> AccountInfo \<Rightarrow> bool" where
  "admin_list accounts p pool_info round_info \<longleftrightarrow>
     (\<exists>authority rest. accounts = authority # pool_info # round_info # rest
        \<and> ai_is_signer authority \<and> pa_authority p = ai_key authority)"

lemma administersI:
  assumes "hosts rt program_id (ai_key pool_info) p k r L"
    and "admin_list accounts p pool_info round_info"
  shows "administers rt program_id accounts pool_info round_info p L"
  using assms by (simp add: hosts_def admin_list_def administers_def)

lemma apply_tx_Ok:
  assumes "rt_try_instruction rt data = Some ins"
    and "dispatch (rt\<lparr>rt_clock_slot := Ok slot\<rparr>) program_id accounts ins L = Ok L'"
  shows "apply_tx rt program_id (slot, accounts, data) L = L'"
  using assms by (simp add: process_instruction_def)

lemma apply_tx_updates:
  assumes "runtime_ok rt" "rt_try_instruction rt data = Some ins"
    and "hosts rt program_id q p (ai_key info) r L" "arrays32 r'"
    and "\<And>L'. updates_round rt program_id info r r' L L' \<Longrightarrow>
      dispatch (rt\<lparr>rt_clock_slot := Ok slot\<rparr>) program_id accounts ins L = Ok L'"
  shows "hosts rt program_id q p (ai_key info) r' (apply_tx rt program_id (slot, accounts, data) L)"
    and "ac_lamports (apply_tx rt program_id (slot, accounts, data) L k) = ac_lamports (L k)"
    and "length (ac_data (apply_tx rt program_id (slot, accounts, data) L (ai_key info)))
           = length (ac_data (L (ai_key info)))"
    and "k \<noteq> ai_key info \<Longrightarrow> apply_tx rt program_id (slot, accounts, data) L k = L k"
proof -
  obtain L' where L': "updates_round rt program_id info r r' L L'"
    "hosts rt program_id q p (ai_key info) r' L'"
    "\<And>k. ac_lamports (L' k) = ac_lamports (L k)"
    "\<And>k. k \<noteq> ai_key info \<Longrightarrow> L' k = L k"
    "length (ac_data (L' (ai_key info))) = length (ac_data (L (ai_key info)))"
    using updates_round_hosts [OF assms(1,3,4)] by blast
  have "apply_tx rt program_id (slot, accounts, data) L = L'"
    using apply_tx_Ok [OF assms(2) assms(5) [OF L'(1)]] .
  then show "hosts rt program_id q p (ai_key info) r'
      (apply_tx rt program_id (slot, accounts, data) L)"
    "ac_lamports (apply_tx rt program_id (slot, accounts, data) L k) = ac_lamports (L k)"
    "length (ac_data (apply_tx rt program_id (slot, accounts, data) L (ai_key info)))
           = length (ac_data (L (ai_key info)))"
    "k \<noteq> ai_key info \<Longrightarrow> apply_tx rt program_id (slot, accounts, data) L k = L k"
    using L' by simp_all
qed

lemma clock_irrelevant [simp]:
  "updates_round (rt\<lparr>rt_clock_slot := s\<rparr>) = updates_round rt"
  "administers (rt\<lparr>rt_clock_slot := s\<rparr>) = administers rt"
  by (simp_all add: updates_round_def administers_def fun_eq_iff)

lemma publish_tx:
  assumes "runtime_ok rt" "rt_try_instruction rt data = Some (PublishCohortRoot root n)"
    and "hosts rt program_id (ai_key pool_info) p (ai_key round_info) r L"
    and "admin_list accounts p pool_info round_info"
    and "pa_backend p = Backend.MerkleCohort" "ra_pool r = ai_key pool_info"
    and "ra_state r = State.Registration" "pa_min_participants p \<le> n" "n \<le> pa_max_participants p"
    and "root \<noteq> zero32" "length root = 32" "ra_cohort_root r = zero32"
  shows "hosts rt program_id (ai_key pool_info) p (ai_key round_info)
    (r\<lparr>ra_cohort_root := root, ra_accepted_count := n, ra_state := State.ThresholdReached\<rparr>)
    (apply_tx rt program_id (slot, accounts, data) L)"
  using assms administersI [OF assms(3,4)]
  by (intro apply_tx_updates(1) [OF assms(1-3)])
    (auto simp: arrays32_def hosts_def publish_root_Ok_iff)

lemma seal_tx:
  assumes "runtime_ok rt" "rt_try_instruction rt data = Some SealRound"
    and "hosts rt program_id (ai_key pool_info) p (ai_key round_info) r L"
    and "admin_list accounts p pool_info round_info" "ra_pool r = ai_key pool_info"
    and "ra_state r = State.ThresholdReached" "pa_min_participants p \<le> ra_accepted_count r"
  shows "hosts rt program_id (ai_key pool_info) p (ai_key round_info)
    (r\<lparr>ra_state := State.Sealed\<rparr>) (apply_tx rt program_id (slot, accounts, data) L)"
  using assms administersI [OF assms(3,4)]
  by (intro apply_tx_updates(1) [OF assms(1-3)])
    (auto simp: arrays32_def hosts_def seal_Ok_iff)

lemma schedule_tx:
  assumes "runtime_ok rt" "rt_try_instruction rt data = Some (ScheduleRelease release)"
    and "hosts rt program_id (ai_key pool_info) p (ai_key round_info) r L"
    and "admin_list accounts p pool_info round_info"
    and "ra_state r = State.Sealed" "ra_release_slot r = 0"
    and "slot \<le> release" "pa_min_release_delay p \<le> release - slot"
    and "release - slot \<le> pa_max_release_delay p"
    and "unat release + unat (pa_execution_window p) < 2 ^ 64"
  shows "hosts rt program_id (ai_key pool_info) p (ai_key round_info)
    (r\<lparr>ra_release_slot := release, ra_window_end_slot := release + pa_execution_window p,
       ra_state := State.ReleaseScheduled\<rparr>) (apply_tx rt program_id (slot, accounts, data) L)"
  using assms administersI [OF assms(3,4)]
  by (intro apply_tx_updates(1) [OF assms(1-3)])
    (auto simp: arrays32_def hosts_def schedule_Ok_iff)

lemma begin_tx:
  assumes "runtime_ok rt" "rt_try_instruction rt data = Some BeginExecutionWindow"
    and "hosts rt program_id q p (ai_key round_info) r L"
    and "ra_state r = State.ReleaseScheduled"
    and "ra_release_slot r \<le> slot" "slot \<le> ra_window_end_slot r"
  shows "hosts rt program_id q p (ai_key round_info)
    (r\<lparr>ra_state := State.ExecutionWindow\<rparr>)
    (apply_tx rt program_id (slot, round_info # rest, data) L)"
  using assms
  by (intro apply_tx_updates(1) [OF assms(1-3)])
    (auto simp: arrays32_def hosts_def begin_window_Ok_iff)

lemma finalize_tx:
  assumes "runtime_ok rt" "rt_try_instruction rt data = Some (FinalizeRound metrics)"
    and "hosts rt program_id (ai_key pool_info) p (ai_key round_info) r L"
    and "admin_list accounts p pool_info round_info"
    and "ra_state r = State.ExecutionWindow" "ra_window_end_slot r < slot"
    and "metrics \<noteq> zero32" "length metrics = 32"
  shows "hosts rt program_id (ai_key pool_info) p (ai_key round_info)
    (r\<lparr>ra_metrics_hash := metrics, ra_state := State.Completed\<rparr>)
    (apply_tx rt program_id (slot, accounts, data) L)"
  using assms administersI [OF assms(3,4)]
  by (intro apply_tx_updates(1) [OF assms(1-3)])
    (auto simp: arrays32_def hosts_def finalize_Ok_iff)

section \<open>A Merkle round runs to completion\<close>

text \<open>
  An authority that publishes a nonzero root with a cohort size within the policy, seals,
  schedules a release within the delay bounds and finalizes after the window, together with
  anyone who begins the window while it is open, completes a round in registration.
\<close>

lemma merkle_round_run:
  assumes "runtime_ok rt"
    and "hosts rt program_id (ai_key pool_info) p (ai_key round_info) r L"
    and "admin_list accounts p pool_info round_info"
    and "pa_backend p = Backend.MerkleCohort" "ra_pool r = ai_key pool_info"
    and "ra_state r = State.Registration" "ra_cohort_root r = zero32" "ra_release_slot r = 0"
    and "pa_min_participants p \<le> n" "n \<le> pa_max_participants p"
    and "root \<noteq> zero32" "length root = 32" "metrics \<noteq> zero32" "length metrics = 32"
    and "s3 \<le> release" "pa_min_release_delay p \<le> release - s3"
    and "release - s3 \<le> pa_max_release_delay p"
    and "unat release + unat (pa_execution_window p) < 2 ^ 64"
    and "release \<le> s4" "s4 \<le> release + pa_execution_window p"
    and "release + pa_execution_window p < s5"
    and "rt_try_instruction rt d1 = Some (PublishCohortRoot root n)"
    and "rt_try_instruction rt d2 = Some SealRound"
    and "rt_try_instruction rt d3 = Some (ScheduleRelease release)"
    and "rt_try_instruction rt d4 = Some BeginExecutionWindow"
    and "rt_try_instruction rt d5 = Some (FinalizeRound metrics)"
  shows "round_at rt program_id
      (apply_txs rt program_id
        [(s1, accounts, d1), (s2, accounts, d2), (s3, accounts, d3), (s4, [round_info], d4),
         (s5, accounts, d5)] L) (ai_key round_info)
    = Some (r\<lparr>ra_cohort_root := root, ra_accepted_count := n, ra_release_slot := release,
              ra_window_end_slot := release + pa_execution_window p,
              ra_metrics_hash := metrics, ra_state := State.Completed\<rparr>)"
proof -
  let ?h = "hosts rt program_id (ai_key pool_info) p (ai_key round_info)"
  define L1 where "L1 = apply_tx rt program_id (s1, accounts, d1) L"
  define L2 where "L2 = apply_tx rt program_id (s2, accounts, d2) L1"
  define L3 where "L3 = apply_tx rt program_id (s3, accounts, d3) L2"
  define L4 where "L4 = apply_tx rt program_id (s4, [round_info], d4) L3"
  define L5 where "L5 = apply_tx rt program_id (s5, accounts, d5) L4"
  have "?h (r\<lparr>ra_cohort_root := root, ra_accepted_count := n,
      ra_state := State.ThresholdReached\<rparr>) L1"
    unfolding L1_def using assms by (intro publish_tx) simp_all
  then have "?h (r\<lparr>ra_cohort_root := root, ra_accepted_count := n, ra_state := State.Sealed\<rparr>) L2"
    unfolding L2_def using seal_tx [OF assms(1,23) _ assms(3)] assms(5,9) by fastforce
  then have "?h (r\<lparr>ra_cohort_root := root, ra_accepted_count := n, ra_release_slot := release,
      ra_window_end_slot := release + pa_execution_window p,
      ra_state := State.ReleaseScheduled\<rparr>) L3"
    unfolding L3_def using schedule_tx [OF assms(1,24) _ assms(3)] assms(8,15-18) by fastforce
  then have "?h (r\<lparr>ra_cohort_root := root, ra_accepted_count := n, ra_release_slot := release,
      ra_window_end_slot := release + pa_execution_window p,
      ra_state := State.ExecutionWindow\<rparr>) L4"
    unfolding L4_def using begin_tx [OF assms(1,25)] assms(19,20) by fastforce
  then have "?h (r\<lparr>ra_cohort_root := root, ra_accepted_count := n, ra_release_slot := release,
      ra_window_end_slot := release + pa_execution_window p, ra_metrics_hash := metrics,
      ra_state := State.Completed\<rparr>) L5"
    unfolding L5_def using finalize_tx [OF assms(1,26) _ assms(3)] assms(13,14,21) by fastforce
  then show ?thesis
    by (simp add: hosts_def L1_def L2_def L3_def L4_def L5_def del: apply_tx.simps)
qed

lemma sample_hosts:
  "hosts (borsh_runtime slot) sample_program (ai_key sample_pool_info) sample_pool
     (ai_key sample_round_info) sample_round_account sample_ledger"
proof -
  have pool: "borsh_pool_deserialize (ac_data (sample_ledger (ai_key sample_pool_info)))
      = Some sample_pool"
    and rest: "ac_owner (sample_ledger (ai_key sample_pool_info)) = sample_program"
    "ai_key sample_pool_info \<noteq> ai_key sample_round_info" "arrays32 sample_round_account"
    "167 \<le> length (ac_data (sample_ledger (ai_key sample_round_info)))"
    by code_simp+
  then show ?thesis using sample_round_at borsh_round_fits
    by (simp add: hosts_def pool_at_def borsh_runtime_def)
qed

lemma sample_admin_list: "admin_list sample_accounts sample_pool sample_pool_info sample_round_info"
  by (simp add: admin_list_def sample_accounts_def sample_pool_def new_pool_def
      sample_authority_def)

section \<open>Closing\<close>

text \<open>
  C10. Closing returns the rent and destroys the round: it succeeds only in a terminal
  state, moves exactly the round's lamports to the signing authority, so that their sum is
  conserved without wrap-around, zeroes the round's data, and touches no other account.
\<close>

theorem close_returns_rent:
  assumes "close rt program_id (authority # pool_info # round_info # rest) L = Ok L'"
    and "ai_key authority \<noteq> ai_key round_info"
  shows "\<exists>r. round_at rt program_id L (ai_key round_info) = Some r \<and> chain_terminal (ra_state r)
    \<and> unat (ac_lamports (L' (ai_key authority)))
        = unat (ac_lamports (L (ai_key authority))) + unat (ac_lamports (L (ai_key round_info)))
    \<and> L' = L(ai_key authority := (L (ai_key authority))
               \<lparr>ac_lamports := ac_lamports (L' (ai_key authority))\<rparr>,
             ai_key round_info := (L (ai_key round_info))
               \<lparr>ac_lamports := 0,
                ac_data := replicate (length (ac_data (L (ai_key round_info)))) 0\<rparr>)"
proof -
  let ?a = "ac_lamports (L (ai_key authority))" and ?r = "ac_lamports (L (ai_key round_info))"
  from assms(1) obtain r where r: "round_at rt program_id L (ai_key round_info) = Some r"
    "ra_state r \<in> {State.Completed, State.Cancelled, State.Expired}"
    and sum: "unat ?a + unat ?r < 2 ^ 64"
    and L': "L' = set_data (ai_key round_info)
               (replicate (length (ac_data (L (ai_key round_info)))) 0)
               (set_lamports (ai_key round_info) 0
                 (set_lamports (ai_key authority) (?a + ?r) L))"
    unfolding close_Ok_iff list.inject by blast
  have lam: "ac_lamports (L' (ai_key authority)) = ?a + ?r" using assms(2) by (simp add: L')
  moreover have "unat (?a + ?r) = unat ?a + unat ?r"
    using checked_add_unat [of ?a ?r "?a + ?r"] sum by (simp add: checked_add_def)
  moreover have "L' = L(ai_key authority := (L (ai_key authority))\<lparr>ac_lamports := ?a + ?r\<rparr>,
      ai_key round_info := (L (ai_key round_info))\<lparr>ac_lamports := 0,
        ac_data := replicate (length (ac_data (L (ai_key round_info)))) 0\<rparr>)"
    using assms(2) by (simp add: L' set_data_def set_lamports_def fun_eq_iff)
  ultimately show ?thesis using r by (auto simp: chain_terminal_def)
qed

text \<open>The sample ledger with another round in the round account.\<close>

definition ledger_with :: "RoundAccount \<Rightarrow> ledger" where
  "ledger_with r = sample_ledger(ai_key sample_round_info := stored (borsh_round_to_vec r))"

lemma sample_keys:
  "ai_key sample_authority \<noteq> ai_key sample_round_info"
  "ai_key sample_pool_info \<noteq> ai_key sample_round_info"
  "ai_key sample_authority \<noteq> ai_key sample_pool_info"
  by code_simp+

lemma ledger_with_hosts:
  assumes "arrays32 r"
  shows "hosts (borsh_runtime slot) sample_program (ai_key sample_pool_info) sample_pool
    (ai_key sample_round_info) r (ledger_with r)"
proof -
  from assms obtain bs where bs: "borsh_round_to_vec r = Some bs" "length bs = 167"
    by (simp add: arrays32_def borsh_round_to_vec_def put_word_def put_tag_def)
  have "round_at (borsh_runtime slot) sample_program (ledger_with r) (ai_key sample_round_info)
      = Some r"
    using borsh_round.decode_encode [OF bs(1)] bs
    by (simp add: round_at_def ledger_with_def stored_def borsh_runtime_def)
  moreover have "pool_at (borsh_runtime slot) sample_program (ledger_with r)
      (ai_key sample_pool_info) = Some sample_pool"
    using sample_hosts [of slot] sample_keys(2) by (simp add: hosts_def at_owned_iff ledger_with_def)
  moreover have "round_fits (borsh_runtime slot) (ledger_with r) (ai_key sample_round_info)"
    using bs by (intro borsh_round_fits) (simp add: ledger_with_def stored_def)
  ultimately show ?thesis using assms sample_keys(2) by (simp add: hosts_def)
qed

lemma ledger_with_lamports:
  "ac_lamports (ledger_with r (ai_key sample_authority)) = 1000000000"
  "ac_lamports (ledger_with r (ai_key sample_round_info)) = 1000"
  using sample_keys by (simp_all add: ledger_with_def stored_def sample_ledger_def)

lemma sample_authority_facts:
  "ai_is_signer sample_authority" "ai_is_writable sample_authority"
  "pa_authority sample_pool = ai_key sample_authority"
  by (simp_all add: sample_authority_def sample_pool_def new_pool_def)

definition cancelled_round :: RoundAccount where
  "cancelled_round = sample_round_account\<lparr>ra_state := State.Cancelled\<rparr>"

definition foreign_round :: RoundAccount where
  "foreign_round = sample_round_account\<lparr>ra_pool := replicate 32 6\<rparr>"

lemma sample_rounds:
  "arrays32 cancelled_round" "ra_state cancelled_round = State.Cancelled"
  "arrays32 foreign_round" "ra_state foreign_round = State.Registration"
  "ra_pool foreign_round \<noteq> ai_key sample_pool_info"
  by code_simp+

theorem close_returns_rent_witness:
  "\<exists>L'. close (borsh_runtime 20) sample_program sample_accounts (ledger_with cancelled_round)
      = Ok L'
    \<and> unat (ac_lamports (L' (ai_key sample_authority))) = 1000000000 + 1000"
proof -
  let ?L = "ledger_with cancelled_round"
  note h = ledger_with_hosts [OF sample_rounds(1), of 20]
  obtain L' where
    L': "close (borsh_runtime 20) sample_program sample_accounts ?L = Ok L'"
    using h administersI [OF h sample_admin_list] sample_authority_facts sample_rounds(2)
    by (auto simp: close_Ok_iff sample_accounts_def hosts_def ledger_with_lamports)
  then show ?thesis
    using close_returns_rent [OF _ sample_keys(1), of "borsh_runtime 20" sample_program
        sample_pool_info "[]" ?L L'] by (auto simp: sample_accounts_def ledger_with_lamports)
qed

text \<open>
  C16. Cancelling and closing do not check that the round belongs to the pool: the
  authority of any pool of the program, which anyone can create, can cancel a running round
  of another pool and close it, which wipes the round and pays its rent to that authority.
\<close>

theorem foreign_authority_takes_round:
  assumes "runtime_ok rt"
    and "hosts rt program_id (ai_key pool_info) p (ai_key round_info) r L"
    and "ra_pool r \<noteq> ai_key pool_info"
    and "accounts = authority # pool_info # round_info # rest"
    and "ai_is_signer authority" "ai_is_writable authority" "pa_authority p = ai_key authority"
    and "\<not> chain_terminal (ra_state r)" "ai_key authority \<noteq> ai_key round_info"
    and "unat (ac_lamports (L (ai_key authority))) + unat (ac_lamports (L (ai_key round_info)))
          < 2 ^ 64"
    and "rt_try_instruction rt d1 = Some CancelRound" "rt_try_instruction rt d2 = Some CloseRound"
    and "L' = apply_txs rt program_id [(s1, accounts, d1), (s2, accounts, d2)] L"
  shows "ac_lamports (L' (ai_key authority))
      = ac_lamports (L (ai_key authority)) + ac_lamports (L (ai_key round_info))
    \<and> ac_lamports (L' (ai_key round_info)) = 0
    \<and> ac_data (L' (ai_key round_info)) = replicate (length (ac_data (L (ai_key round_info)))) 0"
proof -
  let ?r = "r\<lparr>ra_state := State.Cancelled\<rparr>"
  define L1 where "L1 = apply_tx rt program_id (s1, accounts, d1) L"
  define L2 where "L2 = set_data (ai_key round_info)
               (replicate (length (ac_data (L1 (ai_key round_info)))) 0)
               (set_lamports (ai_key round_info) 0
                 (set_lamports (ai_key authority)
                   (ac_lamports (L1 (ai_key authority)) + ac_lamports (L1 (ai_key round_info))) L1))"
  have admin: "admin_list accounts p pool_info round_info"
    using assms(4-7) by (simp add: admin_list_def)
  have ok: "dispatch (rt\<lparr>rt_clock_slot := Ok s1\<rparr>) program_id accounts CancelRound L = Ok M"
    if "updates_round rt program_id round_info r ?r L M" for M
    using that administersI [OF assms(2) admin] assms(8)
    by (auto simp: cancel_Ok_iff chain_terminal_def)
  have "arrays32 ?r" using assms(2) by (simp add: hosts_def arrays32_def)
  note tx = apply_tx_updates [OF assms(1,11,2) this ok, folded L1_def]
  have "close (rt\<lparr>rt_clock_slot := Ok s2\<rparr>) program_id accounts L1 = Ok L2"
    unfolding close_Ok_iff L2_def
    using administersI [OF tx(1) admin] tx(1) assms(4,6,10) tx(2) by (auto simp: hosts_def)
  then have "apply_tx rt program_id (s2, accounts, d2) L1 = L2"
    using apply_tx_Ok [OF assms(12)] by simp
  then have "L' = L2" using assms(13) by (simp add: L1_def del: apply_tx.simps)
  then show ?thesis using assms(9) tx(2,3) by (simp add: L2_def)
qed

theorem foreign_authority_takes_round_witness:
  "ac_lamports (apply_txs (borsh_runtime 0) sample_program
      [(20, sample_accounts, [8]), (21, sample_accounts, [9])] (ledger_with foreign_round)
      (ai_key sample_authority)) = 1000001000"
proof -
  have bytes: "rt_try_instruction (borsh_runtime 0) [8] = Some CancelRound"
    "rt_try_instruction (borsh_runtime 0) [9] = Some CloseRound"
    by code_simp+
  have running: "\<not> chain_terminal (ra_state foreign_round)"
    by (simp add: sample_rounds chain_terminal_def)
  show ?thesis
    using foreign_authority_takes_round [OF borsh_runtime_ok
        ledger_with_hosts [OF sample_rounds(3)] sample_rounds(5) sample_accounts_def
        sample_authority_facts running sample_keys(1) _ bytes refl, of 20 21]
    by (simp add: ledger_with_lamports del: apply_txs.simps)
qed

section \<open>One key, two registrations\<close>

definition transparent_pool :: PoolAccount where
  "transparent_pool = sample_pool\<lparr>pa_backend := Backend.TransparentRegistry\<rparr>"

definition transparent_ledger :: ledger where
  "transparent_ledger = sample_ledger(ai_key sample_pool_info :=
     stored (borsh_pool_to_vec transparent_pool))"

definition one_key :: bytes where
  "one_key = replicate 32 8"

definition record_address :: "u8 \<Rightarrow> pubkey" where
  "record_address bump =
     the (sample_address (participant_seeds (ai_key sample_round_info) one_key bump) sample_program)"

definition register_tx :: "u8 \<Rightarrow> tx" where
  "register_tx bump =
     (20, [sample_authority, sample_pool_info, sample_round_info,
           \<lparr>ai_key = record_address bump, ai_is_signer = False, ai_is_writable = True\<rparr>,
           \<lparr>ai_key = replicate 32 0, ai_is_signer = False, ai_is_writable = False\<rparr>],
      the (borsh_instruction_to_vec (RegisterTransparent one_key bump)))"

text \<open>
  The bump of a registration is chosen by the caller and any bump that derives an
  address is accepted, so one coordination key registers once per bump: on a ledger with a
  round that needs two participants, two registrations of the same key reach the threshold.
\<close>

theorem same_key_registers_twice:
  "map_option (\<lambda>r. (ra_accepted_count r, ra_state r))
     (round_at (borsh_runtime 0) sample_program
       (apply_txs (borsh_runtime 0) sample_program [register_tx 254, register_tx 253]
         transparent_ledger) (ai_key sample_round_info))
   = Some (2, State.ThresholdReached)"
  by code_simp

section \<open>Creating pools and rounds\<close>

lemma initialize_live:
  assumes "live program_id L (ai_key pool_info)" "runtime_ok rt"
  shows "initialize rt program_id (authority # pool_info # rest) pool_id template mn mx mind maxd
    window backend bump L \<noteq> Ok L'"
  by (auto simp: initialize_Ok_iff dest: create_pda_effect(4) [OF assms(2) _ assms(1)])

text \<open>
  C8. Creating a pool: a successful initialization leaves, at the address derived from the
  pool id and the bump, exactly the pool that was asked for, with the signer as authority,
  round counter 0, and a policy with at least two participants, ordered bounds of at most
  100000 participants, ordered delays and a nonempty window. It happens once: from then on
  no initialization of this address succeeds.
\<close>

theorem initialize_creates_pool:
  assumes "runtime_ok rt"
    and "initialize rt program_id (authority # pool_info # rest) pool_id template mn mx mind maxd
           window backend bump L = Ok L'"
  shows "rt_create_program_address rt [ascii ''pool'', pool_id, [bump]] program_id
      = Some (ai_key pool_info)
    \<and> pool_at rt program_id L' (ai_key pool_info)
        = Some (new_pool pool_id template mn mx mind maxd window backend bump (ai_key authority))
    \<and> ai_is_signer authority
    \<and> 2 \<le> unat mn \<and> unat mn \<le> unat mx \<and> unat mx \<le> 100000 \<and> mind \<le> maxd \<and> 0 < unat window
    \<and> (\<forall>authority' rest' pool_id' template' mn' mx' mind' maxd' window' backend' bump'.
         \<not> is_ok (initialize rt program_id (authority' # pool_info # rest') pool_id' template'
                    mn' mx' mind' maxd' window' backend' bump' L'))"
proof -
  from assms(2) obtain system_info tail L1 where
    bounds: "2 \<le> mn" "mn \<le> mx" "mx \<le> MAX_COHORT_SIZE" "window \<noteq> 0" "mind \<le> maxd"
    and signer: "ai_is_signer authority"
    and address: "rt_create_program_address rt [ascii ''pool'', pool_id, [bump]] program_id
          = Some (ai_key pool_info)"
    and create: "create_pda_account rt authority pool_info system_info program_id
          POOL_ACCOUNT_SIZE [ascii ''pool'', pool_id, [bump]] L = Ok L1"
    and wp: "write_account (rt_pool_to_vec rt) pool_info
          (new_pool pool_id template mn mx mind maxd window backend bump (ai_key authority)) L1
          = Ok L'"
    by (auto simp: initialize_Ok_iff)
  have pool: "pool_at rt program_id L' (ai_key pool_info)
      = Some (new_pool pool_id template mn mx mind maxd window backend bump (ai_key authority))"
    using write_pool [OF assms(1) wp] create_pda_effect(1) [OF assms(1) create] by simp
  have "live program_id L' (ai_key pool_info)"
    using live_pool [OF assms(1) pool] by (simp add: new_pool_def)
  then have once: "\<not> is_ok (initialize rt program_id (authority' # pool_info # rest') pool_id'
      template' mn' mx' mind' maxd' window' backend' bump' L')"
    for authority' rest' pool_id' template' mn' mx' mind' maxd' window' backend' bump'
    using initialize_live assms(1) by (simp add: is_ok_iff)
  have "2 \<le> unat mn" "unat mn \<le> unat mx" "unat mx \<le> 100000"
    using bounds(1-3) by (simp_all add: word_le_nat_alt MAX_COHORT_SIZE_def)
  then show ?thesis using pool signer address bounds(4,5) once by (simp add: unat_gt_0)
qed

definition system_info :: AccountInfo where
  "system_info = \<lparr>ai_key = replicate 32 0, ai_is_signer = False, ai_is_writable = False\<rparr>"

definition new_pool_info :: AccountInfo where
  "new_pool_info = \<lparr>ai_key = the (sample_address [ascii ''pool'', replicate 32 11, [255]]
     sample_program), ai_is_signer = False, ai_is_writable = True\<rparr>"

lemma sample_initialize_ok:
  "is_ok (initialize (borsh_runtime 20) sample_program
     [sample_authority, new_pool_info, system_info] (replicate 32 11) (replicate 32 7) 2 5 10 20 30
     Backend.MerkleCohort 255 sample_ledger)"
  by code_simp

theorem initialize_creates_pool_witness:
  "\<exists>L'. pool_at (borsh_runtime 20) sample_program L' (ai_key new_pool_info)
    = Some (new_pool (replicate 32 11) (replicate 32 7) 2 5 10 20 30 Backend.MerkleCohort 255
              (ai_key sample_authority))"
proof -
  obtain L' where "initialize (borsh_runtime 20) sample_program
     [sample_authority, new_pool_info, system_info] (replicate 32 11) (replicate 32 7) 2 5 10 20 30
     Backend.MerkleCohort 255 sample_ledger = Ok L'"
    using sample_initialize_ok by (auto simp: is_ok_iff)
  then show ?thesis using initialize_creates_pool [OF borsh_runtime_ok] by blast
qed

text \<open>
  C9. Opening a round: with the pool's current round counter as its id and a deadline after
  the current slot, a successful open stores the empty round in registration at the derived
  address and advances the counter by one without wrap-around; so ids are consecutive, and
  no later open of this pool with the same id succeeds in the new state.
\<close>

theorem open_round_sequential:
  assumes "runtime_ok rt" "pool_at rt program_id L (ai_key pool_info) = Some p"
    and "pa_version p \<noteq> 0"
    and "open_round rt program_id (authority # pool_info # round_info # rest) round_id deadline
           template bump L = Ok L'"
  shows "round_id = pa_next_round p
    \<and> round_at rt program_id L' (ai_key round_info)
        = Some (fresh_round (ai_key pool_info) round_id deadline template bump)
    \<and> pool_at rt program_id L' (ai_key pool_info) = Some (p\<lparr>pa_next_round := round_id + 1\<rparr>)
    \<and> unat (round_id + 1) = unat round_id + 1
    \<and> template = pa_template_hash p
    \<and> (\<forall>authority' round_info' rest' deadline' template' bump'.
         \<not> is_ok (open_round rt program_id (authority' # pool_info # round_info' # rest') round_id
                    deadline' template' bump' L'))"
proof -
  from assms(2,4) obtain system_info L1 L2 where
    next_round: "pa_next_round p = round_id" "unat round_id + 1 < 2 ^ 64"
      "pa_template_hash p = template"
    and create: "create_pda_account rt authority round_info system_info program_id
          ROUND_ACCOUNT_SIZE (round_seeds (ai_key pool_info) round_id bump) L = Ok L1"
    and wp: "write_account (rt_pool_to_vec rt) pool_info
          (p\<lparr>pa_next_round := round_id + 1\<rparr>) L1 = Ok L2"
    and wr: "write_account (rt_round_to_vec rt) round_info
          (fresh_round (ai_key pool_info) round_id deadline template bump) L2 = Ok L'"
    by (auto simp: open_round_Ok_iff administers_def)
  note made = create_pda_effect [OF assms(1) create]
  have differ: "ai_key pool_info \<noteq> ai_key round_info"
    using made(4) live_pool [OF assms(1-3)] .
  have round: "round_at rt program_id L' (ai_key round_info)
      = Some (fresh_round (ai_key pool_info) round_id deadline template bump)"
    using write_round [OF assms(1) wr] made(1) write_account_frame(2) [OF wp] by simp
  have "ac_owner (L1 (ai_key pool_info)) = program_id"
    using made(3) [OF differ] assms(2) by (simp add: at_owned_iff)
  then have pool: "pool_at rt program_id L' (ai_key pool_info)
      = Some (p\<lparr>pa_next_round := round_id + 1\<rparr>)"
    using write_pool [OF assms(1) wp] write_account_frame(1) [OF wr differ]
    by (simp add: at_owned_iff)
  have succ: "unat (round_id + 1) = unat round_id + 1"
    using checked_add_unat [of round_id 1 "round_id + 1"] next_round(2)
    by (simp add: checked_add_def)
  then have "round_id + 1 \<noteq> round_id" by (metis n_not_Suc_n Suc_eq_plus1)
  then show ?thesis using round pool next_round succ
    by (simp add: is_ok_iff open_round_Ok_iff administers_def)
qed

definition new_round_info :: AccountInfo where
  "new_round_info = \<lparr>ai_key = the (sample_address (round_seeds (ai_key sample_pool_info) 0 250)
     sample_program), ai_is_signer = False, ai_is_writable = True\<rparr>"

lemma sample_open_ok:
  "is_ok (open_round (borsh_runtime 20) sample_program
     [sample_authority, sample_pool_info, new_round_info, system_info] 0 90 (replicate 32 7) 250
     sample_ledger)"
  by code_simp

theorem open_round_sequential_witness:
  "\<exists>L'. pool_at (borsh_runtime 20) sample_program L' (ai_key sample_pool_info)
      = Some (sample_pool\<lparr>pa_next_round := 0 + 1\<rparr>)
    \<and> round_at (borsh_runtime 20) sample_program L' (ai_key new_round_info)
      = Some (fresh_round (ai_key sample_pool_info) 0 90 (replicate 32 7) 250)"
proof -
  obtain L' where "open_round (borsh_runtime 20) sample_program
     [sample_authority, sample_pool_info, new_round_info, system_info] 0 90 (replicate 32 7) 250
     sample_ledger = Ok L'"
    using sample_open_ok by (auto simp: is_ok_iff)
  moreover have "pool_at (borsh_runtime 20) sample_program sample_ledger (ai_key sample_pool_info)
      = Some sample_pool"
    using sample_hosts by (simp add: hosts_def)
  ultimately show ?thesis
    using open_round_sequential [OF borsh_runtime_ok _ sample_versions(1)] by blast
qed

end
