(* ===== verification/MP_Client_Chain.thy ===== *)
theory MP_Client_Chain
  imports MP_Client MP_Authority
begin

text \<open>
  The instructions the SDK builds, executed by the program. The locale \<open>sdk_matches\<close> holds
  what the SDK and the runtime have to agree on: the searched address is the one derived
  with the found bump, the program decodes what the SDK encoded, and both name the same
  System Program. It is interpreted on the executable codec and runtime.
\<close>

locale sdk_matches =
  fixes sdk :: sdk and rt :: runtime
  assumes find_derives: "sdk_find_program_address sdk seeds program_id = Some (key, bump) \<Longrightarrow>
      rt_create_program_address rt (seeds @ [[bump]]) program_id = Some key"
    and decodes: "sdk_instruction_to_vec sdk ins = Some bs \<Longrightarrow> rt_try_instruction rt bs = Some ins"
    and same_system: "sdk_system_program sdk = rt_system_program rt"
begin

lemma initialize_built:
  assumes "initialize_pool_instruction sdk program_id authority pool_id template mn mx mind maxd
      window backend = Ok (ins, pool)"
  obtains bump where
    "in_accounts ins = [meta authority True, meta pool False,
       meta_readonly (rt_system_program rt) False]"
    "rt_try_instruction rt (in_data ins)
       = Some (InitializePool pool_id template mn mx mind maxd window backend bump)"
    "rt_create_program_address rt [ascii ''pool'', pool_id, [bump]] program_id = Some pool"
  using assms that
  by (auto simp: initialize_pool_instruction_def find_program_address_def encode_def result_simps
      same_system decodes split: option.splits dest!: find_derives)

lemma open_built:
  assumes "open_round_instruction sdk program_id authority pool round_id deadline template
      = Ok (ins, round)"
  obtains bump where
    "in_accounts ins = [meta authority True, meta pool False, meta round False,
       meta_readonly (rt_system_program rt) False]"
    "rt_try_instruction rt (in_data ins) = Some (OpenRound round_id deadline template bump)"
    "rt_create_program_address rt (round_seeds pool round_id bump) program_id = Some round"
  using assms that
  by (auto simp: open_round_instruction_def find_program_address_def encode_def result_simps
      round_seeds_def same_system decodes split: option.splits dest!: find_derives)

lemma admin_built:
  assumes "admin_round_instruction sdk program_id authority pool round v = Ok ins"
  shows "in_accounts ins = [meta authority True, meta pool False, meta round False]"
    and "rt_try_instruction rt (in_data ins) = Some v"
  using assms by (auto simp: admin_round_instruction_def encode_def result_simps decodes)

lemma begin_built:
  assumes "begin_window_instruction sdk program_id round = Ok ins"
  shows "in_accounts ins = [meta round False]"
    and "rt_try_instruction rt (in_data ins) = Some BeginExecutionWindow"
  using assms by (auto simp: begin_window_instruction_def encode_def result_simps decodes)

end

lemma meta_simps [simp]:
  "ai_key (meta k b) = k" "ai_is_signer (meta k b) = b" "ai_is_writable (meta k b)"
  "ai_key (meta_readonly k b) = k" "ai_is_signer (meta_readonly k b) = b"
  by (simp_all add: meta_def meta_readonly_def)

definition borsh_sdk :: sdk where
  "borsh_sdk = \<lparr>
     sdk_find_program_address = (\<lambda>seeds program_id.
       map_option (\<lambda>key. (key, 255)) (sample_address (seeds @ [[255]]) program_id)),
     sdk_instruction_to_vec = borsh_instruction_to_vec,
     sdk_system_program = replicate 32 0\<rparr>"

interpretation borsh_sdk: sdk_matches borsh_sdk "borsh_runtime slot" for slot
  by unfold_locales (auto simp: borsh_sdk_def borsh_runtime_def borsh_instruction_roundtrip)

section \<open>Creating a pool and opening a round\<close>

definition policy_admissible :: "u32 \<Rightarrow> u32 \<Rightarrow> u64 \<Rightarrow> u64 \<Rightarrow> u64 \<Rightarrow> bool" where
  "policy_admissible mn mx mind maxd window \<longleftrightarrow>
     2 \<le> mn \<and> mn \<le> mx \<and> mx \<le> MAX_COHORT_SIZE \<and> window \<noteq> 0 \<and> mind \<le> maxd"

text \<open>
  The pool-creation instruction the SDK builds passes the program's signature, account
  and address checks: executing it is rejected as an invalid policy exactly when the
  requested bounds are, and is otherwise the creation of the account at the returned address
  followed by the write of the requested pool, with the signer as authority.
\<close>

theorem client_initialize_executes:
  assumes "sdk_matches sdk rt"
    and "initialize_pool_instruction sdk program_id authority pool_id template mn mx mind maxd
      window backend = Ok (ins, pool)"
  shows "\<exists>bump. process_instruction rt program_id (in_accounts ins) (in_data ins) L =
    (if \<not> policy_admissible mn mx mind maxd window then Err (into_program_error InvalidPolicy)
     else and_then (create_pda_account rt (meta authority True) (meta pool False)
              (meta_readonly (rt_system_program rt) False) program_id POOL_ACCOUNT_SIZE
              [ascii ''pool'', pool_id, [bump]] L)
            (write_account (rt_pool_to_vec rt) (meta pool False)
              (new_pool pool_id template mn mx mind maxd window backend bump authority)))"
proof -
  obtain bump where b:
    "in_accounts ins = [meta authority True, meta pool False,
       meta_readonly (rt_system_program rt) False]"
    "rt_try_instruction rt (in_data ins)
       = Some (InitializePool pool_id template mn mx mind maxd window backend bump)"
    "rt_create_program_address rt [ascii ''pool'', pool_id, [bump]] program_id = Some pool"
    using sdk_matches.initialize_built [OF assms] .
  have "(mn < 2 \<or> mn > mx \<or> mx > MAX_COHORT_SIZE \<or> window = 0 \<or> mind > maxd)
      \<longleftrightarrow> \<not> policy_admissible mn mx mind maxd window"
    by (auto simp: policy_admissible_def not_le)
  then show ?thesis
    unfolding process_instruction_def b
    by (intro exI [of _ bump])
      (simp add: initialize_def b(3) derive_pda_def require_signer_def new_pool_def)
qed

theorem client_initialize_executes_witness:
  "\<exists>ins pool bump. initialize_pool_instruction borsh_sdk sample_program (replicate 32 1)
       (replicate 32 11) (replicate 32 7) 2 5 10 20 30 Backend.MerkleCohort = Ok (ins, pool)
     \<and> process_instruction (borsh_runtime 20) sample_program (in_accounts ins) (in_data ins)
         sample_ledger =
       and_then (create_pda_account (borsh_runtime 20) (meta (replicate 32 1) True)
           (meta pool False) (meta_readonly (rt_system_program (borsh_runtime 20)) False)
           sample_program POOL_ACCOUNT_SIZE [ascii ''pool'', replicate 32 11, [bump]]
           sample_ledger)
         (write_account (rt_pool_to_vec (borsh_runtime 20)) (meta pool False)
           (new_pool (replicate 32 11) (replicate 32 7) 2 5 10 20 30 Backend.MerkleCohort bump
             (replicate 32 1)))"
proof -
  obtain ins pool where i: "initialize_pool_instruction borsh_sdk sample_program (replicate 32 1)
       (replicate 32 11) (replicate 32 7) 2 5 10 20 30 Backend.MerkleCohort = Ok (ins, pool)"
    by (auto simp: initialize_pool_instruction_def find_program_address_def borsh_sdk_def
        encode_def sample_address_def len32_def)
  have "policy_admissible 2 5 10 20 30" by (simp add: policy_admissible_def MAX_COHORT_SIZE_def)
  with client_initialize_executes [OF borsh_sdk.sdk_matches_axioms i, of 20 sample_ledger] i
  show ?thesis by auto
qed

text \<open>
  The round-opening instruction the SDK builds for a stored pool passes the program's
  signature, ownership and address checks: executing it reports a wrong authority, round
  number or template, or a deadline that has passed, and otherwise creates the account at the
  returned address, advances the pool's counter and writes the empty round.
\<close>

theorem client_open_executes:
  assumes "sdk_matches sdk rt" "pool_at rt program_id L pool = Some p" "rt_clock_slot rt = Ok slot"
    and "open_round_instruction sdk program_id authority pool round_id deadline template
      = Ok (ins, round)"
  shows "\<exists>bump. process_instruction rt program_id (in_accounts ins) (in_data ins) L =
    (if pa_authority p \<noteq> authority \<or> pa_paused p \<or> pa_next_round p \<noteq> round_id
        \<or> pa_template_hash p \<noteq> template
     then Err (into_program_error Unauthorized)
     else if deadline \<le> slot then Err (into_program_error InvalidTiming)
     else and_then (create_pda_account rt (meta authority True) (meta round False)
              (meta_readonly (rt_system_program rt) False) program_id ROUND_ACCOUNT_SIZE
              (round_seeds pool round_id bump) L) (\<lambda>L1.
          and_then (ok_or (checked_add round_id 1) (into_program_error Overflow)) (\<lambda>nr.
          and_then (write_account (rt_pool_to_vec rt) (meta pool False)
                      (p\<lparr>pa_next_round := nr\<rparr>) L1)
            (write_account (rt_round_to_vec rt) (meta round False)
              (fresh_round pool round_id deadline template bump)))))"
proof -
  obtain bump where b:
    "in_accounts ins = [meta authority True, meta pool False, meta round False,
       meta_readonly (rt_system_program rt) False]"
    "rt_try_instruction rt (in_data ins) = Some (OpenRound round_id deadline template bump)"
    "rt_create_program_address rt (round_seeds pool round_id bump) program_id = Some round"
    using sdk_matches.open_built [OF assms(1,4)] .
  have "ac_owner (L pool) = program_id" "rt_pool_deserialize rt (ac_data (L pool)) = Some p"
    using assms(2) by (simp_all add: at_owned_iff)
  then show ?thesis
    unfolding process_instruction_def b
    by (intro exI [of _ bump])
      (auto simp: open_round_def b(3) derive_pda_def require_signer_def require_owned_def
        read_account_def fresh_round_def assms(3))
qed

theorem client_open_executes_witness:
  "\<exists>ins round. open_round_instruction borsh_sdk sample_program (replicate 32 1)
       (ai_key sample_pool_info) 1 90 (replicate 32 7) = Ok (ins, round)
     \<and> process_instruction (borsh_runtime 20) sample_program (in_accounts ins) (in_data ins)
         sample_ledger = Err (into_program_error Unauthorized)"
proof -
  obtain ins round where i: "open_round_instruction borsh_sdk sample_program (replicate 32 1)
       (ai_key sample_pool_info) 1 90 (replicate 32 7) = Ok (ins, round)"
    by (auto simp: open_round_instruction_def find_program_address_def borsh_sdk_def
        encode_def sample_address_def len32_def)
  have pool: "pool_at (borsh_runtime 20) sample_program sample_ledger (ai_key sample_pool_info)
      = Some sample_pool"
    using sample_hosts by (simp add: hosts_def)
  have "pa_next_round sample_pool \<noteq> 1" by (simp add: sample_pool_def new_pool_def)
  with client_open_executes [OF borsh_sdk.sdk_matches_axioms pool borsh_clock i] i
  show ?thesis by auto
qed

section \<open>A round driven by the SDK\<close>

text \<open>
  The SDK can drive a Merkle round to its end: five instructions it builds (publish, seal,
  schedule, begin, finalize), executed at admissible slots, take a round in registration to
  completion with exactly the given root, cohort size, window and metrics hash.
\<close>

theorem client_drives_round:
  assumes "sdk_matches sdk rt" "runtime_ok rt"
    and "hosts rt program_id pool p round r L" "pa_authority p = authority"
    and "pa_backend p = Backend.MerkleCohort" "ra_pool r = pool"
    and "ra_state r = State.Registration" "ra_cohort_root r = zero32" "ra_release_slot r = 0"
    and "pa_min_participants p \<le> n" "n \<le> pa_max_participants p"
    and "root \<noteq> zero32" "length root = 32" "metrics \<noteq> zero32" "length metrics = 32"
    and "s3 \<le> release" "pa_min_release_delay p \<le> release - s3"
    and "release - s3 \<le> pa_max_release_delay p"
    and "unat release + unat (pa_execution_window p) < 2 ^ 64"
    and "release \<le> s4" "s4 \<le> release + pa_execution_window p"
    and "release + pa_execution_window p < s5"
    and "admin_round_instruction sdk program_id authority pool round (PublishCohortRoot root n)
      = Ok i1"
    and "admin_round_instruction sdk program_id authority pool round SealRound = Ok i2"
    and "admin_round_instruction sdk program_id authority pool round (ScheduleRelease release)
      = Ok i3"
    and "begin_window_instruction sdk program_id round = Ok i4"
    and "admin_round_instruction sdk program_id authority pool round (FinalizeRound metrics)
      = Ok i5"
  shows "round_at rt program_id
      (apply_txs rt program_id
        (map (\<lambda>(s, i). (s, in_accounts i, in_data i))
          [(s1, i1), (s2, i2), (s3, i3), (s4, i4), (s5, i5)]) L) round
    = Some (r\<lparr>ra_cohort_root := root, ra_accepted_count := n, ra_release_slot := release,
              ra_window_end_slot := release + pa_execution_window p,
              ra_metrics_hash := metrics, ra_state := State.Completed\<rparr>)"
proof -
  note admin = sdk_matches.admin_built [OF assms(1)] sdk_matches.begin_built [OF assms(1)]
  have list: "admin_list [meta authority True, meta pool False, meta round False] p
      (meta pool False) (meta round False)"
    using assms(4) by (simp add: admin_list_def)
  have "round_at rt program_id
      (apply_txs rt program_id
        [(s1, in_accounts i1, in_data i1), (s2, in_accounts i1, in_data i2),
         (s3, in_accounts i1, in_data i3), (s4, [meta round False], in_data i4),
         (s5, in_accounts i1, in_data i5)] L) (ai_key (meta round False))
    = Some (r\<lparr>ra_cohort_root := root, ra_accepted_count := n, ra_release_slot := release,
              ra_window_end_slot := release + pa_execution_window p,
              ra_metrics_hash := metrics, ra_state := State.Completed\<rparr>)"
    by (rule merkle_round_run [of rt program_id "meta pool False" p])
      (use assms list admin(1) [OF assms(23)] admin(2) [OF assms(23)] admin(2) [OF assms(24)]
        admin(2) [OF assms(25)] admin(4) [OF assms(26)] admin(2) [OF assms(27)] in simp_all)
  then show ?thesis
    using admin(1) [OF assms(23)] admin(1) [OF assms(24)] admin(1) [OF assms(25)]
      admin(3) [OF assms(26)] admin(1) [OF assms(27)]
    by (simp del: apply_txs.simps)
qed

theorem client_drives_round_witness:
  "\<exists>L. round_at (borsh_runtime 0) sample_program L (ai_key sample_round_info)
   = Some (sample_round_account\<lparr>ra_cohort_root := replicate 32 4, ra_accepted_count := 3,
             ra_release_slot := 40, ra_window_end_slot := 40 + pa_execution_window sample_pool,
             ra_metrics_hash := replicate 32 5, ra_state := State.Completed\<rparr>)"
proof -
  let ?a = "admin_round_instruction borsh_sdk sample_program (ai_key sample_authority)
    (ai_key sample_pool_info) (ai_key sample_round_info)"
  obtain i1 i2 i3 i4 i5 where built:
    "?a (PublishCohortRoot (replicate 32 4) 3) = Ok i1" "?a SealRound = Ok i2"
    "?a (ScheduleRelease 40) = Ok i3"
    "begin_window_instruction borsh_sdk sample_program (ai_key sample_round_info) = Ok i4"
    "?a (FinalizeRound (replicate 32 5)) = Ok i5"
    by (auto simp: admin_round_instruction_def begin_window_instruction_def encode_def
        borsh_sdk_def len32_def)
  have arrays: "replicate 32 (4 :: u8) \<noteq> zero32" "replicate 32 (5 :: u8) \<noteq> zero32"
    by code_simp+
  show ?thesis
    by (rule exI, rule client_drives_round [OF borsh_sdk.sdk_matches_axioms borsh_runtime_ok
        sample_hosts, where ?s3.0 = 22 and ?s4.0 = 45 and ?s5.0 = 51 and ?i1.0 = i1 and ?i2.0 = i2 and
        ?i3.0 = i3 and ?i4.0 = i4 and ?i5.0 = i5 and authority = "ai_key sample_authority"])
      (use built arrays in \<open>simp_all add: sample_pool_def new_pool_def sample_round_account_def
        fresh_round_def\<close>)
qed

end
