(* ===== verification/MP_Chain_Run.thy ===== *)
theory MP_Chain_Run
  imports MP_Client_Chain
begin

text \<open>
  A pool and its first round from nothing: the instructions the SDK
  (\<open>src/crates/mirror-pool-client/src/lib.rs\<close>) builds, executed by the program
  (\<open>src/programs/mirror-pool-program/src/lib.rs\<close>) on a ledger with room for the two accounts.
  \<open>creatable\<close> says that an account can be created at an address, \<open>accounts_fit\<close> that the encoded
  pools and rounds fit into the space the program reserves for them.
\<close>

section \<open>Creating on a ledger with room\<close>

definition creatable :: "runtime \<Rightarrow> pubkey \<Rightarrow> pubkey \<Rightarrow> pubkey \<Rightarrow> nat \<Rightarrow> ledger \<Rightarrow> bool" where
  "creatable rt program_id authority k space L \<longleftrightarrow>
     rt_system_program rt \<noteq> program_id \<and> ac_owner (L k) = rt_system_program rt \<and> ac_data (L k) = []
   \<and> (\<exists>lamports. rt_minimum_balance rt space = Ok lamports
        \<and> (\<forall>seeds. rt_create_program_address rt seeds program_id = Some k \<longrightarrow>
             (\<exists>L'. rt_create_account rt (meta authority True) (meta k False) lamports
                (of_nat space) program_id seeds L = Ok L')))"

definition pool_arrays32 :: "PoolAccount \<Rightarrow> bool" where
  "pool_arrays32 p \<longleftrightarrow> length (pa_authority p) = 32 \<and> length (pa_pool_id p) = 32
     \<and> length (pa_template_hash p) = 32"

definition accounts_fit :: "runtime \<Rightarrow> bool" where
  "accounts_fit rt \<longleftrightarrow>
     (\<forall>p. pool_arrays32 p \<longrightarrow> (\<exists>bs. rt_pool_to_vec rt p = Some bs \<and> length bs \<le> POOL_ACCOUNT_SIZE))
   \<and> (\<forall>r. arrays32 r \<longrightarrow> (\<exists>bs. rt_round_to_vec rt r = Some bs \<and> length bs \<le> ROUND_ACCOUNT_SIZE))"

lemma create_pda_works:
  assumes "runtime_ok rt" "creatable rt program_id authority k space L" "space < 2 ^ 64"
    and "rt_create_program_address rt seeds program_id = Some k"
    and "ai_key system = rt_system_program rt"
  obtains L' where "create_pda_account rt (meta authority True) (meta k False) system program_id space
      seeds L = Ok L'" "ac_data (L' k) = replicate space 0" "ac_owner (L' k) = program_id"
    "\<forall>q. q \<noteq> k \<longrightarrow> ac_data (L' q) = ac_data (L q) \<and> ac_owner (L' q) = ac_owner (L q)"
proof -
  obtain lamports L' where make: "rt_minimum_balance rt space = Ok lamports"
    "rt_create_account rt (meta authority True) (meta k False) lamports (of_nat space) program_id seeds L
       = Ok L'"
    using assms(2,4) unfolding creatable_def by blast
  note made = runtime_ok_create [OF assms(1) make(2)]
  have "unat (of_nat space :: u64) = space" using assms(3) by (simp add: unat_of_nat)
  with made(1,2) have "ac_data (L' k) = replicate space 0" "ac_owner (L' k) = program_id" by simp_all
  moreover have "create_pda_account rt (meta authority True) (meta k False) system program_id space
      seeds L = Ok L'"
    using make assms(2,5) by (auto simp: create_pda_account_Ok_iff creatable_def)
  ultimately show ?thesis using that made(3,4) by simp
qed

text \<open>A stored pool with the space of its account.\<close>

definition pool_stored :: "runtime \<Rightarrow> pubkey \<Rightarrow> pubkey \<Rightarrow> PoolAccount \<Rightarrow> ledger \<Rightarrow> bool" where
  "pool_stored rt program_id k p L \<longleftrightarrow> pool_at rt program_id L k = Some p \<and> pool_arrays32 p
     \<and> length (ac_data (L k)) = POOL_ACCOUNT_SIZE"

lemma write_pool_stored:
  assumes "runtime_ok rt" "accounts_fit rt" "pool_arrays32 p"
    and "ac_owner (L (ai_key info)) = program_id" "length (ac_data (L (ai_key info))) = POOL_ACCOUNT_SIZE"
  obtains L' where "write_account (rt_pool_to_vec rt) info p L = Ok L'"
    "pool_stored rt program_id (ai_key info) p L'"
proof -
  obtain L' where wp: "write_account (rt_pool_to_vec rt) info p L = Ok L'"
    using assms(2,3,5) by (auto simp: accounts_fit_def write_account_Ok_iff)
  then show ?thesis
    using that write_pool [OF assms(1) wp assms(4)] write_account_frame(4) [OF wp] assms(3,5)
    by (simp add: pool_stored_def)
qed

lemma initialize_tx:
  assumes "runtime_ok rt" "accounts_fit rt" "creatable rt program_id authority pool POOL_ACCOUNT_SIZE L"
    and "rt_try_instruction rt data
       = Some (InitializePool pool_id template mn mx mind maxd window backend bump)"
    and "rt_create_program_address rt [ascii ''pool'', pool_id, [bump]] program_id = Some pool"
    and "policy_admissible mn mx mind maxd window"
    and "length authority = 32" "length pool_id = 32" "length template = 32"
    and "ai_key system = rt_system_program rt"
  shows "pool_stored rt program_id pool
     (new_pool pool_id template mn mx mind maxd window backend bump authority)
     (apply_tx rt program_id (slot, [meta authority True, meta pool False, system], data) L)"
proof -
  let ?p = "new_pool pool_id template mn mx mind maxd window backend bump authority"
  let ?rt = "rt\<lparr>rt_clock_slot := Ok slot\<rparr>"
  have ok: "runtime_ok ?rt" "accounts_fit ?rt" "creatable ?rt program_id authority pool POOL_ACCOUNT_SIZE L"
    "rt_create_program_address ?rt [ascii ''pool'', pool_id, [bump]] program_id = Some pool"
    "ai_key system = rt_system_program ?rt"
    using assms(1-3,5,10) by (simp_all add: accounts_fit_def creatable_def)
  have small: "POOL_ACCOUNT_SIZE < 2 ^ 64" by (simp add: POOL_ACCOUNT_SIZE_def)
  obtain L1 where L1: "create_pda_account ?rt (meta authority True) (meta pool False) system program_id
      POOL_ACCOUNT_SIZE [ascii ''pool'', pool_id, [bump]] L = Ok L1"
    "ac_data (L1 pool) = replicate POOL_ACCOUNT_SIZE 0" "ac_owner (L1 pool) = program_id"
    by (rule create_pda_works [OF ok(1,3) small ok(4,5)])
  have "pool_arrays32 ?p" using assms(7-9) by (simp add: pool_arrays32_def new_pool_def)
  from write_pool_stored [OF ok(1,2) this, of L1 "meta pool False" program_id] L1
  obtain L2 where L2: "write_account (rt_pool_to_vec ?rt) (meta pool False) ?p L1 = Ok L2"
    "pool_stored ?rt program_id pool ?p L2" by auto
  have "dispatch ?rt program_id [meta authority True, meta pool False, system]
      (InitializePool pool_id template mn mx mind maxd window backend bump) L = Ok L2"
    using L1(1) L2(1) ok(4) assms(6)
    by (auto simp: initialize_Ok_iff policy_admissible_def simp del: runtime.update_convs)
  from apply_tx_Ok [OF assms(4) this] show ?thesis using L2(2) by (simp add: pool_stored_def)
qed

lemma open_tx:
  assumes "runtime_ok rt" "accounts_fit rt" "creatable rt program_id authority round ROUND_ACCOUNT_SIZE L"
    and "rt_try_instruction rt data = Some (OpenRound round_id deadline template bump)"
    and "rt_create_program_address rt (round_seeds pool round_id bump) program_id = Some round"
    and "pool_stored rt program_id pool p L" "pool \<noteq> round" "length pool = 32"
    and "pa_authority p = authority" "\<not> pa_paused p" "pa_next_round p = round_id"
    and "pa_template_hash p = template" "slot < deadline" "unat round_id + 1 < 2 ^ 64"
    and "ai_key system = rt_system_program rt"
  shows "hosts rt program_id pool (p\<lparr>pa_next_round := round_id + 1\<rparr>) round
     (fresh_round pool round_id deadline template bump)
     (apply_tx rt program_id (slot, [meta authority True, meta pool False, meta round False, system], data) L)"
proof -
  let ?p = "p\<lparr>pa_next_round := round_id + 1\<rparr>"
  let ?r = "fresh_round pool round_id deadline template bump"
  let ?rt = "rt\<lparr>rt_clock_slot := Ok slot\<rparr>"
  let ?seeds = "round_seeds pool round_id bump"
  have ok: "runtime_ok ?rt" "accounts_fit ?rt" "creatable ?rt program_id authority round ROUND_ACCOUNT_SIZE L"
    "rt_create_program_address ?rt ?seeds program_id = Some round"
    "ai_key system = rt_system_program ?rt"
    using assms(1-3,5,15) by (simp_all add: accounts_fit_def creatable_def)
  have small: "ROUND_ACCOUNT_SIZE < 2 ^ 64" by (simp add: ROUND_ACCOUNT_SIZE_def)
  obtain L1 where L1: "create_pda_account ?rt (meta authority True) (meta round False) system program_id
      ROUND_ACCOUNT_SIZE ?seeds L = Ok L1"
    "ac_data (L1 round) = replicate ROUND_ACCOUNT_SIZE 0" "ac_owner (L1 round) = program_id"
    and others: "\<forall>q. q \<noteq> round \<longrightarrow> ac_data (L1 q) = ac_data (L q) \<and> ac_owner (L1 q) = ac_owner (L q)"
    by (rule create_pda_works [OF ok(1,3) small ok(4,5)])
  have old: "ac_data (L1 pool) = ac_data (L pool)" "ac_owner (L1 pool) = ac_owner (L pool)"
    using others assms(7) by simp_all
  have "pool_arrays32 ?p" using assms(6) by (simp add: pool_stored_def pool_arrays32_def)
  from write_pool_stored [OF ok(1,2) this, of L1 "meta pool False" program_id] old assms(6)
  obtain L2 where L2: "write_account (rt_pool_to_vec ?rt) (meta pool False) ?p L1 = Ok L2"
    "pool_stored ?rt program_id pool ?p L2" by (auto simp: pool_stored_def at_owned_iff)
  have arrays: "arrays32 ?r" using assms(6,8,12)
    by (simp add: arrays32_def fresh_round_def pool_stored_def pool_arrays32_def zero32_def)
  have L2r: "L2 round = L1 round" using write_account_frame(1) [OF L2(1)] assms(7) by simp
  obtain L3 where L3: "write_account (rt_round_to_vec ?rt) (meta round False) ?r L2 = Ok L3"
    using ok(2) arrays L2r L1(2) by (auto simp: accounts_fit_def write_account_Ok_iff)
  note frame = write_account_frame [OF L3]
  have "round_at ?rt program_id L3 round = Some ?r"
    using write_round [OF ok(1) L3] L2r L1(3) by simp
  moreover have "L3 pool = L2 pool" using frame(1) assms(7) by simp
  moreover have "round_fits ?rt L3 round"
    using ok(2) frame(4) [of round] L2r L1(2) by (simp add: round_fits_def accounts_fit_def)
  ultimately have hosts: "hosts ?rt program_id pool ?p round ?r L3"
    using assms(7) L2(2) arrays by (simp add: hosts_def pool_stored_def at_owned_iff)
  have "administers ?rt program_id [meta authority True, meta pool False, meta round False, system]
      (meta pool False) (meta round False) p L"
    using assms(6,9) by (simp add: administers_def pool_stored_def)
  then have "dispatch ?rt program_id [meta authority True, meta pool False, meta round False, system]
      (OpenRound round_id deadline template bump) L = Ok L3"
    unfolding dispatch.simps open_round_Ok_iff
    by (intro exI [of _ "meta authority True"] exI [of _ "meta pool False"]
        exI [of _ "meta round False"] exI [of _ system] exI [of _ "[]"] exI [of _ p]
        exI [of _ slot] exI [of _ L1] exI [of _ L2])
      (use L1(1) L2(1) L3 ok(4) assms(10-14) in simp)
  from apply_tx_Ok [OF assms(4) this] show ?thesis using hosts by (simp add: hosts_def)
qed

section \<open>From nothing to a completed round\<close>

text \<open>
  C22. A pool and its first round, driven by the SDK alone: seven instructions it builds
  (initialize, open, publish, seal, schedule, begin, finalize), executed at admissible slots
  on a ledger on which the two derived addresses can be created, leave a completed round with
  exactly the given root, cohort size, window and metrics hash.
\<close>

theorem client_runs_pool:
  assumes "sdk_matches sdk rt" "runtime_ok rt" "accounts_fit rt"
    and "initialize_pool_instruction sdk program_id authority pool_id template mn mx mind maxd window
      Backend.MerkleCohort = Ok (i0, pool)"
    and "open_round_instruction sdk program_id authority pool 0 deadline template = Ok (i1, round)"
    and "admin_round_instruction sdk program_id authority pool round (PublishCohortRoot root n) = Ok i2"
    and "admin_round_instruction sdk program_id authority pool round SealRound = Ok i3"
    and "admin_round_instruction sdk program_id authority pool round (ScheduleRelease release) = Ok i4"
    and "begin_window_instruction sdk program_id round = Ok i5"
    and "admin_round_instruction sdk program_id authority pool round (FinalizeRound metrics) = Ok i6"
    and "creatable rt program_id authority pool POOL_ACCOUNT_SIZE L"
    and "creatable rt program_id authority round ROUND_ACCOUNT_SIZE
      (apply_tx rt program_id (s0, in_accounts i0, in_data i0) L)"
    and "pool \<noteq> round" "length pool = 32"
    and "length authority = 32" "length pool_id = 32" "length template = 32"
    and "policy_admissible mn mx mind maxd window" "s1 < deadline" "mn \<le> n" "n \<le> mx"
    and "root \<noteq> zero32" "length root = 32" "metrics \<noteq> zero32" "length metrics = 32"
    and "s4 \<le> release" "mind \<le> release - s4" "release - s4 \<le> maxd"
    and "unat release + unat window < 2 ^ 64"
    and "release \<le> s5" "s5 \<le> release + window" "release + window < s6"
  shows "\<exists>bump. round_at rt program_id
      (apply_txs rt program_id
        (map (\<lambda>(s, i). (s, in_accounts i, in_data i))
          [(s0, i0), (s1, i1), (s2, i2), (s3, i3), (s4, i4), (s5, i5), (s6, i6)]) L) round
    = Some ((fresh_round pool 0 deadline template bump)\<lparr>ra_cohort_root := root,
        ra_accepted_count := n, ra_release_slot := release, ra_window_end_slot := release + window,
        ra_metrics_hash := metrics, ra_state := State.Completed\<rparr>)"
proof -
  obtain bump0 where i0: "in_accounts i0 = [meta authority True, meta pool False,
       meta_readonly (rt_system_program rt) False]"
    "rt_try_instruction rt (in_data i0)
       = Some (InitializePool pool_id template mn mx mind maxd window Backend.MerkleCohort bump0)"
    "rt_create_program_address rt [ascii ''pool'', pool_id, [bump0]] program_id = Some pool"
    using sdk_matches.initialize_built [OF assms(1,4)] .
  obtain bump where i1: "in_accounts i1 = [meta authority True, meta pool False, meta round False,
       meta_readonly (rt_system_program rt) False]"
    "rt_try_instruction rt (in_data i1) = Some (OpenRound 0 deadline template bump)"
    "rt_create_program_address rt (round_seeds pool 0 bump) program_id = Some round"
    using sdk_matches.open_built [OF assms(1,5)] .
  let ?p = "new_pool pool_id template mn mx mind maxd window Backend.MerkleCohort bump0 authority"
  define L1 where "L1 = apply_tx rt program_id (s0, in_accounts i0, in_data i0) L"
  define L2 where "L2 = apply_tx rt program_id (s1, in_accounts i1, in_data i1) L1"
  have "pool_stored rt program_id pool ?p L1"
    unfolding L1_def i0(1)
    by (rule initialize_tx [OF assms(2,3,11) i0(2,3) assms(18,15-17)]) simp
  moreover have "creatable rt program_id authority round ROUND_ACCOUNT_SIZE L1"
    using assms(12) by (simp add: L1_def del: apply_tx.simps)
  ultimately have "hosts rt program_id pool (?p\<lparr>pa_next_round := 0 + 1\<rparr>) round
      (fresh_round pool 0 deadline template bump) L2"
    unfolding L2_def i1(1)
    by (intro open_tx [OF assms(2,3) _ i1(2,3) _ assms(13,14)])
      (use assms(19) in \<open>simp_all add: new_pool_def\<close>)
  from client_drives_round [OF assms(1,2) this, of authority n root metrics s4 release s5 s6 i2 i3 i4 i5 i6 s2 s3]
  have "round_at rt program_id
      (apply_txs rt program_id
        (map (\<lambda>(s, i). (s, in_accounts i, in_data i))
          [(s2, i2), (s3, i3), (s4, i4), (s5, i5), (s6, i6)]) L2) round
    = Some ((fresh_round pool 0 deadline template bump)\<lparr>ra_cohort_root := root,
        ra_accepted_count := n, ra_release_slot := release, ra_window_end_slot := release + window,
        ra_metrics_hash := metrics, ra_state := State.Completed\<rparr>)"
    using assms by (simp add: new_pool_def fresh_round_def del: apply_txs.simps)
  then show ?thesis by (auto simp: L1_def L2_def simp del: apply_tx.simps)
qed

section \<open>An instance\<close>

lemma borsh_accounts_fit: "accounts_fit (borsh_runtime slot)"
  by (simp add: accounts_fit_def pool_arrays32_def arrays32_def borsh_runtime_def borsh_pool_to_vec_def
      borsh_round_to_vec_def put_word_def put_tag_def POOL_ACCOUNT_SIZE_def ROUND_ACCOUNT_SIZE_def)

lemma borsh_creatable:
  assumes "ac_owner (L k) = replicate 32 0" "ac_data (L k) = []" "ac_lamports (L k) = 0"
    and "authority \<noteq> k" "of_nat (128 + space) * 6960 \<le> ac_lamports (L authority)"
    and "program_id \<noteq> replicate 32 0"
  shows "creatable (borsh_runtime slot) program_id authority k space L"
  using assms
  by (auto simp: creatable_def borsh_runtime_def system_create_account_def Let_def dest: leD)

definition sample_round_key :: pubkey where
  "sample_round_key = the (sample_address (round_seeds (ai_key new_pool_info) 0 255) sample_program)"

definition sample_after_initialize :: ledger where
  "sample_after_initialize = apply_tx (borsh_runtime 0) sample_program
     (5, [meta (replicate 32 1) True, meta (ai_key new_pool_info) False, meta_readonly (replicate 32 0) False],
      the (borsh_instruction_to_vec (InitializePool (replicate 32 11) (replicate 32 7) 2 5 10 20 30
        Backend.MerkleCohort 255))) sample_ledger"

lemma sample_room:
  "ac_owner (sample_ledger (ai_key new_pool_info)) = replicate 32 0"
  "ac_data (sample_ledger (ai_key new_pool_info)) = []"
  "ac_lamports (sample_ledger (ai_key new_pool_info)) = 0"
  "of_nat (128 + POOL_ACCOUNT_SIZE) * 6960 \<le> ac_lamports (sample_ledger (replicate 32 1))"
  "ac_owner (sample_after_initialize sample_round_key) = replicate 32 0"
  "ac_data (sample_after_initialize sample_round_key) = []"
  "ac_lamports (sample_after_initialize sample_round_key) = 0"
  "of_nat (128 + ROUND_ACCOUNT_SIZE) * 6960 \<le> ac_lamports (sample_after_initialize (replicate 32 1))"
  "sample_program \<noteq> replicate 32 0" "replicate 32 1 \<noteq> ai_key new_pool_info"
  "replicate 32 1 \<noteq> sample_round_key" "ai_key new_pool_info \<noteq> sample_round_key"
  "length (ai_key new_pool_info) = 32"
  by code_simp+

lemma sample_instructions:
  obtains i0 i1 where
    "initialize_pool_instruction borsh_sdk sample_program (replicate 32 1) (replicate 32 11)
       (replicate 32 7) 2 5 10 20 30 Backend.MerkleCohort = Ok (i0, ai_key new_pool_info)"
    "apply_tx (borsh_runtime 0) sample_program (5, in_accounts i0, in_data i0) sample_ledger
       = sample_after_initialize"
    "open_round_instruction borsh_sdk sample_program (replicate 32 1) (ai_key new_pool_info) 0 90
       (replicate 32 7) = Ok (i1, sample_round_key)"
  by (simp add: initialize_pool_instruction_def open_round_instruction_def find_program_address_def
      borsh_sdk_def encode_def sample_address_def len32_def new_pool_info_def sample_round_key_def
      sample_after_initialize_def round_seeds_def del: apply_tx.simps)

theorem client_runs_pool_witness:
  "\<exists>L bump. round_at (borsh_runtime 0) sample_program L sample_round_key
   = Some ((fresh_round (ai_key new_pool_info) 0 90 (replicate 32 7) bump)\<lparr>
       ra_cohort_root := replicate 32 4, ra_accepted_count := 3, ra_release_slot := 40,
       ra_window_end_slot := 40 + 30, ra_metrics_hash := replicate 32 5, ra_state := State.Completed\<rparr>)"
proof -
  let ?a = "admin_round_instruction borsh_sdk sample_program (replicate 32 1)
    (ai_key new_pool_info) sample_round_key"
  obtain i0 i1 where new: "initialize_pool_instruction borsh_sdk sample_program (replicate 32 1)
      (replicate 32 11) (replicate 32 7) 2 5 10 20 30 Backend.MerkleCohort = Ok (i0, ai_key new_pool_info)"
    "apply_tx (borsh_runtime 0) sample_program (5, in_accounts i0, in_data i0) sample_ledger
       = sample_after_initialize"
    "open_round_instruction borsh_sdk sample_program (replicate 32 1) (ai_key new_pool_info) 0 90
       (replicate 32 7) = Ok (i1, sample_round_key)"
    by (rule sample_instructions)
  obtain i2 i3 i4 i5 i6 where built:
    "?a (PublishCohortRoot (replicate 32 4) 3) = Ok i2" "?a SealRound = Ok i3"
    "?a (ScheduleRelease 40) = Ok i4"
    "begin_window_instruction borsh_sdk sample_program sample_round_key = Ok i5"
    "?a (FinalizeRound (replicate 32 5)) = Ok i6"
    by (auto simp: admin_round_instruction_def begin_window_instruction_def encode_def
        borsh_sdk_def len32_def)
  have arrays: "replicate 32 (4 :: u8) \<noteq> zero32" "replicate 32 (5 :: u8) \<noteq> zero32"
    by code_simp+
  have room: "creatable (borsh_runtime 0) sample_program (replicate 32 1) (ai_key new_pool_info)
      POOL_ACCOUNT_SIZE sample_ledger"
    "creatable (borsh_runtime 0) sample_program (replicate 32 1) sample_round_key ROUND_ACCOUNT_SIZE
      (apply_tx (borsh_runtime 0) sample_program (5, in_accounts i0, in_data i0) sample_ledger)"
    unfolding new(2) by (rule borsh_creatable; fact sample_room)+
  show ?thesis
    by (rule exI, rule client_runs_pool [OF borsh_sdk.sdk_matches_axioms borsh_runtime_ok
        borsh_accounts_fit new(1,3) built room sample_room(12,13), where ?s1.0 = 10 and ?s4.0 = 22
        and ?s5.0 = 45 and ?s6.0 = 80])
      (use arrays in \<open>simp_all add: policy_admissible_def MAX_COHORT_SIZE_def\<close>)
qed

end
