(* ===== verification/MP_Validator.thy ===== *)
theory MP_Validator
  imports MP_Localnet MP_Chain_Run
begin

text \<open>
  The demonstration on a validator that executes the program. The locale \<open>honest_validator\<close>
  holds what is assumed of a local validator on a machine with nothing else to do: a confirmed
  transaction has been executed by the program and queries answer with the ledger, which is
  the contract of the RPC interface; and slots move on at a bounded pace between calls and the
  memo transaction of a funded wallet simulates, has a fee and is confirmed, which no
  documentation promises. The locale describes one favourable run, which the witnesses need; no
  property of the service or the program rests on it. Inside it the run of
  \<open>run_demo_round\<close> is shown to reach its end; \<open>MP_Local_Run\<close> interprets it on a validator whose
  ledger is run by the model of the program.
\<close>

section \<open>The contract\<close>

fun arrays_ok :: "CoordinationInstruction \<Rightarrow> bool" where
  "arrays_ok (InitializePool pool_id template _ _ _ _ _ _ _) \<longleftrightarrow> length pool_id = 32 \<and> length template = 32"
| "arrays_ok (OpenRound _ _ template _) \<longleftrightarrow> length template = 32"
| "arrays_ok (RegisterTransparent key _) \<longleftrightarrow> length key = 32"
| "arrays_ok (PublishCohortRoot root _) \<longleftrightarrow> length root = 32"
| "arrays_ok (FinalizeRound bs) \<longleftrightarrow> length bs = 32"
| "arrays_ok _ \<longleftrightarrow> True"

definition at_slot :: "runtime \<Rightarrow> nat \<Rightarrow> runtime" where
  "at_slot rt t = rt\<lparr>rt_clock_slot := Ok (of_nat t)\<rparr>"

lemma changed_ok:
  assumes "apply_tx rt program_id (t, accounts, data) L \<noteq> L"
  shows "is_ok (process_instruction (rt\<lparr>rt_clock_slot := Ok t\<rparr>) program_id accounts data L)"
  using assms by (cases "process_instruction (rt\<lparr>rt_clock_slot := Ok t\<rparr>) program_id accounts data L") simp_all

lemma initialize_others:
  assumes "runtime_ok rt" "k \<noteq> ai_key pool_info"
    and "rt_try_instruction rt data
       = Some (InitializePool pool_id template mn mx mind maxd window backend bump)"
  shows "untouched L (apply_tx rt program_id (slot, authority # pool_info # rest, data) L) k"
proof (cases "initialize (rt\<lparr>rt_clock_slot := Ok slot\<rparr>) program_id (authority # pool_info # rest) pool_id
    template mn mx mind maxd window backend bump L")
  case (Ok L')
  then obtain system_info L1 where
    create: "create_pda_account (rt\<lparr>rt_clock_slot := Ok slot\<rparr>) authority pool_info system_info program_id
      POOL_ACCOUNT_SIZE [ascii ''pool'', pool_id, [bump]] L = Ok L1"
    and wp: "write_account (rt_pool_to_vec (rt\<lparr>rt_clock_slot := Ok slot\<rparr>)) pool_info
      (new_pool pool_id template mn mx mind maxd window backend bump (ai_key authority)) L1 = Ok L'"
    by (auto simp: initialize_Ok_iff)
  have "untouched L L' k"
    using create_pda_effect(2,3) [OF _ create assms(2)] assms(1,2) write_account_frame(1) [OF wp]
    by (simp add: untouched_def)
  then show ?thesis using Ok assms(3) by (simp add: process_instruction_def)
qed (use assms(3) in \<open>simp_all add: process_instruction_def untouched_def\<close>)

text \<open>A poll that first succeeds at the call number \<open>k\<close>.\<close>

lemma poll_succeeds:
  assumes "answer step s k = Ok True" "\<forall>j < k. answer step s j = Ok False" "k < n"
  shows "poll step msg n s = (Ok (), ((snd \<circ> step) ^^ Suc k) s)"
  using assms
proof (induction k arbitrary: s n)
  case 0
  then obtain m where "n = Suc m" by (cases n) auto
  then show ?case using 0 by (simp add: poll_step answer_simps del: poll.simps)
next
  case (Suc k)
  then obtain m where m: "n = Suc m" by (cases n) auto
  have first: "fst (step s) = Ok False" using Suc.prems(2) by (auto simp: answer_simps)
  have rest: "\<forall>j < k. answer step (snd (step s)) j = Ok False"
    using Suc.prems(2) by (auto simp: answer_simps dest: spec [of _ "Suc _"])
  have "answer step (snd (step s)) k = Ok True" "k < m" using Suc.prems m by (simp_all add: answer_simps)
  note Suc.IH [OF this(1) rest this(2)]
  then have "poll step msg (Suc m) s = (Ok (), ((snd \<circ> step) ^^ Suc k) (snd (step s)))"
    using first by (simp only: poll_step result.case if_False)
  moreover have "((snd \<circ> step) ^^ Suc k) (snd (step s)) = ((snd \<circ> step) ^^ Suc (Suc k)) s"
    by (simp add: funpow_swap1)
  ultimately show ?case using m by (simp only:)
qed

lemma of_nat_le_u64:
  assumes "a < 2 ^ 64" "b < 2 ^ 64"
  shows "(of_nat a :: u64) \<le> of_nat b \<longleftrightarrow> a \<le> b"
  using assms by (simp add: word_le_nat_alt unat_of_nat)

lemma of_nat_less_u64:
  assumes "a < 2 ^ 64" "b < 2 ^ 64"
  shows "(of_nat a :: u64) < of_nat b \<longleftrightarrow> a < b"
  using assms by (simp add: word_less_nat_alt unat_of_nat)

lemma saturating_of_nat:
  assumes "a + b < 2 ^ 64" "b < 2 ^ 64"
  shows "saturating_add (of_nat a :: u64) (of_nat b) = of_nat (a + b)"
  using assms by (simp add: saturating_add_def unat_of_nat)

lemma initialize_buildable:
  assumes "sdk_find_program_address sdk [ascii ''pool'', pool_id] program_id \<noteq> None"
    and "\<And>bump. sdk_instruction_to_vec sdk
      (InitializePool pool_id template mn mx mind maxd window backend bump) \<noteq> None"
  obtains ins pool where "initialize_pool_instruction sdk program_id authority pool_id template mn mx mind
      maxd window backend = Ok (ins, pool)" "in_program_id ins = program_id"
proof -
  obtain pool bump where "sdk_find_program_address sdk [ascii ''pool'', pool_id] program_id = Some (pool, bump)"
    using assms(1) by auto
  moreover obtain bs where "sdk_instruction_to_vec sdk
      (InitializePool pool_id template mn mx mind maxd window backend bump) = Some bs"
    using assms(2) by blast
  ultimately show ?thesis using that
    by (simp add: initialize_pool_instruction_def find_program_address_def encode_def)
qed

lemma open_buildable:
  assumes "sdk_find_program_address sdk [ascii ''round'', pool, le_bytes 8 (unat round_id)] program_id \<noteq> None"
    and "\<And>bump. sdk_instruction_to_vec sdk (OpenRound round_id deadline template bump) \<noteq> None"
  obtains ins round where "open_round_instruction sdk program_id authority pool round_id deadline template
      = Ok (ins, round)" "in_program_id ins = program_id"
proof -
  obtain round bump where "sdk_find_program_address sdk [ascii ''round'', pool, le_bytes 8 (unat round_id)]
      program_id = Some (round, bump)"
    using assms(1) by auto
  moreover obtain bs where "sdk_instruction_to_vec sdk (OpenRound round_id deadline template bump) = Some bs"
    using assms(2) by blast
  ultimately show ?thesis using that
    by (simp add: open_round_instruction_def find_program_address_def encode_def)
qed

text \<open>No account lies yet at an address the program can create a round or a pool at.\<close>

definition fresh_rounds :: "runtime \<Rightarrow> pubkey \<Rightarrow> ledger \<Rightarrow> bool" where
  "fresh_rounds rt program_id L \<longleftrightarrow> (\<forall>q i bump k. rt_create_program_address rt (round_seeds q i bump) program_id = Some k
     \<longrightarrow> ac_owner (L k) = rt_system_program rt \<and> ac_data (L k) = [])"

definition fresh_pools :: "runtime \<Rightarrow> pubkey \<Rightarrow> ledger \<Rightarrow> bool" where
  "fresh_pools rt program_id L \<longleftrightarrow> (\<forall>i bump k. rt_create_program_address rt [ascii ''pool'', i, [bump]] program_id = Some k
     \<longrightarrow> ac_owner (L k) = rt_system_program rt \<and> ac_data (L k) = [])"

locale honest_validator = sdk_matches "pk_sdk pk" rt
  for pk :: packages and rt :: runtime +
  fixes ln :: "('kp, 'tx, 'n) localnet" and running :: "'n \<Rightarrow> bool" and chain :: "'n \<Rightarrow> ledger"
    and clock :: "'n \<Rightarrow> nat" and authority :: 'kp and program_id :: pubkey
  assumes runtime: "runtime_ok rt" and fit: "accounts_fit rt"
    and decoder: "pk_round_deserialize pk = rt_round_deserialize rt"
    and finds: "sdk_find_program_address (pk_sdk pk) seeds program_id \<noteq> None"
    and encodes: "arrays_ok v \<Longrightarrow> sdk_instruction_to_vec (pk_sdk pk) v \<noteq> None"
    and slot: "running s \<Longrightarrow> ep_get_slot (ln_endpoint ln s) = Some (of_nat (clock s))"
    and keeps_running: "running s \<Longrightarrow> running (ln_after ln calls s)"
    and pace: "running s \<Longrightarrow> length calls \<le> 6 \<Longrightarrow>
      clock s \<le> clock (ln_after ln calls s) \<and> clock (ln_after ln calls s) \<le> clock s + 3"
    and poll_pace: "running s \<Longrightarrow> clock (ln_after ln [GetSlot] s) \<le> clock s + 1"
    and progress: "running s \<Longrightarrow> clock s + 1000 < 2 ^ 64 \<Longrightarrow>
      clock s + 20 \<le> clock ((ln_after ln [GetSlot] ^^ 199) s)"
    and quiet: "running s \<Longrightarrow> \<forall>tx. Send tx \<notin> set calls \<Longrightarrow> untouched (chain s) (chain (ln_after ln calls s)) k"
    and account: "running s \<Longrightarrow> \<exists>data s'. ln_get_account ln k s = (data, s') \<and> running s'
      \<and> clock s \<le> clock s' \<and> clock s' \<le> clock s + 3 \<and> (\<forall>q. untouched (chain s) (chain s') q)
      \<and> (ac_data (chain s k) \<noteq> [] \<longrightarrow> data = Some (ac_data (chain s k)))"
    and instruction: "running s \<Longrightarrow> in_program_id ins = program_id \<Longrightarrow>
      \<forall>a \<in> set (in_accounts ins). ai_is_signer a \<longrightarrow> ai_key a = ln_pubkey ln authority \<Longrightarrow>
      \<forall>t. clock s \<le> t \<and> t \<le> clock s + 3 \<longrightarrow>
        is_ok (process_instruction (at_slot rt t) program_id (in_accounts ins) (in_data ins) (chain s)) \<Longrightarrow>
      \<exists>bh tx sig t. ep_get_latest_blockhash (ln_endpoint ln s) = Some bh
        \<and> tx = ep_new_signed_with_payer (ln_endpoint ln s) [ins] authority bh
        \<and> ep_simulate_transaction (ln_endpoint ln s) tx = Some True
        \<and> ep_send_and_confirm (ln_endpoint ln s) tx = Some sig
        \<and> clock s \<le> t \<and> t \<le> clock s + 3
        \<and> (\<forall>k. untouched (apply_tx rt program_id (of_nat t, in_accounts ins, in_data ins) (chain s))
             (chain (ln_after ln [GetLatestBlockhash, Simulate tx, Send tx] s)) k)"
    and memo: "running s \<Longrightarrow> pk_memo_program pk = Some program \<Longrightarrow> within_default_limits action \<Longrightarrow> ac_program_ids action = [program] \<Longrightarrow>
      \<exists>bh tx fee sig. ep_get_latest_blockhash (ln_endpoint ln s) = Some bh
        \<and> tx = memo_transaction (ln_endpoint ln s) program action kp bh
        \<and> ep_simulate_transaction (ln_endpoint ln s) tx = Some True
        \<and> ep_get_fee_for_message (ln_endpoint ln s) tx = Some fee \<and> fee \<le> 20000
        \<and> ep_send_and_confirm (ln_endpoint ln s) tx = Some sig
        \<and> (\<forall>k. untouched (chain s) (chain (ln_after ln
             [GetSlot, ReadKeypair, GetLatestBlockhash, Simulate tx, GetFee tx, Send tx] s)) k)"
    and room: "running s \<Longrightarrow> rt_create_program_address rt seeds program_id = Some k \<Longrightarrow>
      ac_owner (chain s k) = rt_system_program rt \<Longrightarrow> ac_data (chain s k) = [] \<Longrightarrow> space < 1000 \<Longrightarrow>
      creatable rt program_id (ln_pubkey ln authority) k space (chain s)"
    and address_length: "rt_create_program_address rt seeds program_id = Some k \<Longrightarrow> length k = 32"
    and addresses_apart: "rt_create_program_address rt [ascii ''pool'', x, [b]] program_id = Some k \<Longrightarrow>
      rt_create_program_address rt [ascii ''round'', y, z, [c]] program_id \<noteq> Some k"
    and key_length: "length (ln_pubkey ln authority) = 32"
begin

lemma untouched_trans: "\<forall>k. untouched L L1 k \<Longrightarrow> \<forall>k. untouched L1 L2 k \<Longrightarrow> \<forall>k. untouched L L2 k"
  by (simp add: untouched_def)

lemma hosts_untouched:
  "hosts rt p q pl k r L \<Longrightarrow> \<forall>k. untouched L L' k \<Longrightarrow> hosts rt p q pl k r L'"
  using at_cong [of L' _ L] by (simp add: hosts_def untouched_def round_fits_def)

lemma pool_stored_untouched:
  "pool_stored rt p k pl L \<Longrightarrow> \<forall>k. untouched L L' k \<Longrightarrow> pool_stored rt p k pl L'"
  using at_cong [of L' _ L] by (simp add: pool_stored_def untouched_def)

text \<open>An instruction that changes the ledger at every slot of the next ones is carried out.\<close>

lemma submit_works:
  assumes "running s" "in_program_id ins = program_id"
    and "\<forall>a \<in> set (in_accounts ins). ai_is_signer a \<longrightarrow> ai_key a = ln_pubkey ln authority"
    and "\<forall>t. clock s \<le> t \<and> t \<le> clock s + 3 \<longrightarrow>
      apply_tx rt program_id (of_nat t, in_accounts ins, in_data ins) (chain s) \<noteq> chain s"
  obtains sig s' t where "submit ln authority ins s = (Ok sig, s')" "running s'"
    "clock s \<le> clock s'" "clock s' \<le> clock s + 3" "clock s \<le> t" "t \<le> clock s + 3"
    "\<forall>k. untouched (apply_tx rt program_id (of_nat t, in_accounts ins, in_data ins) (chain s)) (chain s') k"
proof -
  have "is_ok (process_instruction (at_slot rt t) program_id (in_accounts ins) (in_data ins) (chain s))"
    if "clock s \<le> t \<and> t \<le> clock s + 3" for t
    using assms(4) that changed_ok unfolding at_slot_def by blast
  then obtain bh tx sig t where tx: "ep_get_latest_blockhash (ln_endpoint ln s) = Some bh"
    "tx = ep_new_signed_with_payer (ln_endpoint ln s) [ins] authority bh"
    "ep_simulate_transaction (ln_endpoint ln s) tx = Some True"
    "ep_send_and_confirm (ln_endpoint ln s) tx = Some sig" "clock s \<le> t" "t \<le> clock s + 3"
    "\<forall>k. untouched (apply_tx rt program_id (of_nat t, in_accounts ins, in_data ins) (chain s))
       (chain (ln_after ln [GetLatestBlockhash, Simulate tx, Send tx] s)) k"
    using instruction [OF assms(1-3)] by blast
  let ?s' = "ln_after ln [GetLatestBlockhash, Simulate tx, Send tx] s"
  have "submit ln authority ins s = (Ok sig, ?s')"
    using tx(1-4) by (simp add: submit_def send_instruction_def Let_def)
  moreover have "clock s \<le> clock ?s'" "clock ?s' \<le> clock s + 3"
    using pace [OF assms(1), of "[GetLatestBlockhash, Simulate tx, Send tx]"] by simp_all
  ultimately show ?thesis using that keeps_running [OF assms(1)] tx(5-7) by blast
qed

lemma round_changes:
  assumes "hosts rt p q pl k r L" "hosts rt p q' pl' k r' L'" "r \<noteq> r'"
  shows "L' \<noteq> L"
  using assms by (auto simp: hosts_def)

lemma admin_works:
  assumes "running s" "hosts rt program_id pool p round r (chain s)" "arrays_ok v" "r' \<noteq> r"
    and "\<And>data t. rt_try_instruction rt data = Some v \<Longrightarrow> clock s \<le> t \<Longrightarrow> t \<le> clock s + 3 \<Longrightarrow>
      hosts rt program_id pool p round r' (apply_tx rt program_id (of_nat t,
        [meta (ln_pubkey ln authority) True, meta pool False, meta round False], data) (chain s))"
  obtains s' where "submit_admin ln pk authority program_id pool round v s = (Ok (), s')" "running s'"
    "clock s \<le> clock s'" "clock s' \<le> clock s + 3" "hosts rt program_id pool p round r' (chain s')"
proof -
  obtain ins where ins: "admin_round_instruction (pk_sdk pk) program_id (ln_pubkey ln authority) pool round v
      = Ok ins" "in_program_id ins = program_id"
    using encodes [OF assms(3)] by (auto simp: admin_round_instruction_def encode_def)
  note built = admin_built [OF ins(1)]
  have run: "hosts rt program_id pool p round r'
      (apply_tx rt program_id (of_nat t, in_accounts ins, in_data ins) (chain s))"
    if "clock s \<le> t" "t \<le> clock s + 3" for t
    using assms(5) [OF built(2) that] built(1) by (simp del: apply_tx.simps)
  obtain sig s' t where s': "submit ln authority ins s = (Ok sig, s')" "running s'"
    "clock s \<le> clock s'" "clock s' \<le> clock s + 3" "clock s \<le> t" "t \<le> clock s + 3"
    "\<forall>k. untouched (apply_tx rt program_id (of_nat t, in_accounts ins, in_data ins) (chain s)) (chain s') k"
  proof (rule submit_works [OF assms(1) ins(2)])
    show "\<forall>a \<in> set (in_accounts ins). ai_is_signer a \<longrightarrow> ai_key a = ln_pubkey ln authority"
      using built(1) by simp
    show "\<forall>t. clock s \<le> t \<and> t \<le> clock s + 3 \<longrightarrow>
      apply_tx rt program_id (of_nat t, in_accounts ins, in_data ins) (chain s) \<noteq> chain s"
      using round_changes [OF assms(2) run] assms(4) by blast
  qed
  show ?thesis
  proof (rule that)
    show "submit_admin ln pk authority program_id pool round v s = (Ok (), s')"
      using ins(1) s'(1) by (simp add: submit_admin_def bind_cmd_def lift_def)
    show "hosts rt program_id pool p round r' (chain s')"
      using hosts_untouched [OF run [OF s'(5,6)] s'(7)] .
  qed (use s' in simp_all)
qed

lemma show_exists_works:
  assumes "running s"
  obtains b s' where "show_exists ln k s = (Ok b, s')" "running s'" "clock s \<le> clock s'"
    "clock s' \<le> clock s + 3" "\<forall>q. untouched (chain s) (chain s') q"
  using account [OF assms, of k] that by (force simp: show_exists_def)

lemma fresh_untouched:
  "fresh_rounds rt program_id L \<Longrightarrow> \<forall>k. untouched L L' k \<Longrightarrow> fresh_rounds rt program_id L'"
  "fresh_pools rt program_id L \<Longrightarrow> \<forall>k. untouched L L' k \<Longrightarrow> fresh_pools rt program_id L'"
  by (auto simp: fresh_rounds_def fresh_pools_def untouched_def)

lemma create_works:
  assumes "running s" "fresh_pools rt program_id (chain s)" "fresh_rounds rt program_id (chain s)" "\<forall>bs. length (pk_blake3 pk bs) = 32"
  obtains pool bump s' where "create_demo_pool ln pk authority program_id s = (Ok pool, s')"
    "running s'" "clock s \<le> clock s'" "clock s' \<le> clock s + 15" "fresh_rounds rt program_id (chain s')"
    "rt_create_program_address rt [ascii ''pool'', digest_bytes (Digest32_hash (pk_blake3 pk)
       (ascii ''full-demo-onchain'') (ascii ''pool'')), [bump]] program_id = Some pool"
    "pool_stored rt program_id pool (new_pool (digest_bytes (Digest32_hash (pk_blake3 pk)
       (ascii ''full-demo-onchain'') (ascii ''pool''))) (demo_template pk) 10 50 2 50 30
       Backend.MerkleCohort bump (ln_pubkey ln authority)) (chain s')"
proof -
  let ?id = "digest_bytes (Digest32_hash (pk_blake3 pk) (ascii ''full-demo-onchain'') (ascii ''pool''))"
  let ?key = "ln_pubkey ln authority"
  have len: "length ?id = 32" "length (demo_template pk) = 32"
    using assms(4) by (simp_all add: demo_template_def Digest32_hash_def)
  have enc: "sdk_instruction_to_vec (pk_sdk pk) (InitializePool ?id (demo_template pk) 10 50 2 50 30
      Backend.MerkleCohort bump) \<noteq> None" for bump
    by (rule encodes) (simp add: len)
  obtain ins pool where ins: "initialize_pool_instruction (pk_sdk pk) program_id ?key ?id (demo_template pk)
      10 50 2 50 30 Backend.MerkleCohort = Ok (ins, pool)" "in_program_id ins = program_id"
    by (rule initialize_buildable [OF finds enc])
  obtain bump where b: "in_accounts ins = [meta ?key True, meta pool False,
       meta_readonly (rt_system_program rt) False]"
    "rt_try_instruction rt (in_data ins)
       = Some (InitializePool ?id (demo_template pk) 10 50 2 50 30 Backend.MerkleCohort bump)"
    "rt_create_program_address rt [ascii ''pool'', ?id, [bump]] program_id = Some pool"
    using initialize_built [OF ins(1)] .
  let ?p = "new_pool ?id (demo_template pk) 10 50 2 50 30 Backend.MerkleCohort bump ?key"
  obtain b1 s1 where s1: "show_exists ln ?key s = (Ok b1, s1)" "running s1" "clock s \<le> clock s1"
    "clock s1 \<le> clock s + 3" "\<forall>q. untouched (chain s) (chain s1) q"
    by (rule show_exists_works [OF assms(1)])
  obtain b2 s2 where s2: "show_exists ln program_id s1 = (Ok b2, s2)" "running s2" "clock s1 \<le> clock s2"
    "clock s2 \<le> clock s1 + 3" "\<forall>q. untouched (chain s1) (chain s2) q"
    by (rule show_exists_works [OF s1(2)])
  obtain b3 s3 where s3: "show_exists ln (sdk_system_program (pk_sdk pk)) s2 = (Ok b3, s3)" "running s3"
    "clock s2 \<le> clock s3" "clock s3 \<le> clock s2 + 3" "\<forall>q. untouched (chain s2) (chain s3) q"
    by (rule show_exists_works [OF s2(2)])
  obtain b4 s4 where s4: "show_exists ln pool s3 = (Ok b4, s4)" "running s4" "clock s3 \<le> clock s4"
    "clock s4 \<le> clock s3 + 3" "\<forall>q. untouched (chain s3) (chain s4) q"
    by (rule show_exists_works [OF s3(2)])
  have same: "\<forall>q. untouched (chain s) (chain s4) q"
    using s1(5) s2(5) s3(5) s4(5) untouched_trans by blast
  have empty: "ac_owner (chain s4 pool) = rt_system_program rt" "ac_data (chain s4 pool) = []"
    using fresh_untouched(2) [OF assms(2) same] b(3) by (auto simp: fresh_pools_def)
  have made: "pool_stored rt program_id pool ?p
      (apply_tx rt program_id (of_nat t, in_accounts ins, in_data ins) (chain s4))" for t
    unfolding b(1)
    by (rule initialize_tx [OF runtime fit room [OF s4(2) b(3) empty] b(2,3)])
      (simp_all add: len key_length policy_admissible_def MAX_COHORT_SIZE_def POOL_ACCOUNT_SIZE_def)
  obtain sig s' t where s': "submit ln authority ins s4 = (Ok sig, s')" "running s'"
    "clock s4 \<le> clock s'" "clock s' \<le> clock s4 + 3" "clock s4 \<le> t" "t \<le> clock s4 + 3"
    "\<forall>k. untouched (apply_tx rt program_id (of_nat t, in_accounts ins, in_data ins) (chain s4)) (chain s') k"
  proof (rule submit_works [OF s4(2) ins(2)])
    show "\<forall>a \<in> set (in_accounts ins). ai_is_signer a \<longrightarrow> ai_key a = ?key" using b(1) by simp
    show "\<forall>t. clock s4 \<le> t \<and> t \<le> clock s4 + 3 \<longrightarrow>
      apply_tx rt program_id (of_nat t, in_accounts ins, in_data ins) (chain s4) \<noteq> chain s4"
    proof (intro allI impI notI)
      fix t assume "apply_tx rt program_id (of_nat t, in_accounts ins, in_data ins) (chain s4) = chain s4"
      with made [of t] empty(2) show False
        by (simp add: pool_stored_def POOL_ACCOUNT_SIZE_def del: apply_tx.simps)
    qed
  qed
  have "untouched (chain s4) (apply_tx rt program_id (of_nat t, in_accounts ins, in_data ins) (chain s4)) k"
    if "k \<noteq> pool" for k
    unfolding b(1) using initialize_others [OF runtime _ b(2)] that by simp
  then have rest: "untouched (chain s4) (chain s') k" if "k \<noteq> pool" for k
    using s'(7) that by (simp add: untouched_def)
  have "fresh_rounds rt program_id (chain s')"
    using fresh_untouched(1) [OF assms(3) same] rest addresses_apart [OF b(3)]
    unfolding fresh_rounds_def round_seeds_def untouched_def by metis
  moreover have "create_demo_pool ln pk authority program_id s = (Ok pool, s')"
    using ins(1) s1(1) s2(1) s3(1) s4(1) s'(1)
    by (simp add: create_demo_pool_def bind_cmd_Ok lift_def)
  ultimately show ?thesis
    using s1(2-4) s2(2-4) s3(2-4) s4(2-4) s'(2-4) b(3)
      pool_stored_untouched [OF made s'(7)]
    by (intro that) simp_all
qed

lemma open_works:
  assumes "running s" "clock s + 2000 < 2 ^ 64" "pool_stored rt program_id pool p (chain s)"
    and "fresh_rounds rt program_id (chain s)" "\<forall>bs. length (pk_blake3 pk bs) = 32"
    and "rt_create_program_address rt [ascii ''pool'', x, [b0]] program_id = Some pool"
    and "pa_authority p = ln_pubkey ln authority" "\<not> pa_paused p" "pa_next_round p = 0"
    and "pa_template_hash p = demo_template pk"
  obtains round deadline bump s' where "open_demo_round ln pk authority program_id pool s = (Ok round, s')"
    "running s'" "clock s \<le> clock s'" "clock s' \<le> clock s + 6"
    "hosts rt program_id pool (p\<lparr>pa_next_round := 0 + 1\<rparr>) round
      (fresh_round pool 0 deadline (demo_template pk) bump) (chain s')"
proof -
  let ?key = "ln_pubkey ln authority"
  let ?deadline = "saturating_add (of_nat (clock s)) 1000 :: u64"
  have tmpl: "length (demo_template pk) = 32"
    using assms(5) by (simp add: demo_template_def Digest32_hash_def)
  have "sdk_instruction_to_vec (pk_sdk pk) (OpenRound 0 ?deadline (demo_template pk) bump) \<noteq> None" for bump
    by (rule encodes) (simp add: tmpl)
  then obtain ins round where ins: "open_round_instruction (pk_sdk pk) program_id ?key pool 0 ?deadline
      (demo_template pk) = Ok (ins, round)" "in_program_id ins = program_id"
    by (rule open_buildable [OF finds])
  obtain bump where b: "in_accounts ins = [meta ?key True, meta pool False, meta round False,
       meta_readonly (rt_system_program rt) False]"
    "rt_try_instruction rt (in_data ins) = Some (OpenRound 0 ?deadline (demo_template pk) bump)"
    "rt_create_program_address rt (round_seeds pool 0 bump) program_id = Some round"
    using open_built [OF ins(1)] .
  let ?s1 = "ln_after ln [GetSlot] s"
  have s1: "running ?s1" "clock s \<le> clock ?s1" "clock ?s1 \<le> clock s + 3"
    using keeps_running [OF assms(1)] pace [OF assms(1), of "[GetSlot]"] by simp_all
  have same: "\<forall>k. untouched (chain s) (chain ?s1) k" using quiet [OF assms(1)] by simp
  note stored = pool_stored_untouched [OF assms(3) same]
  have empty: "ac_owner (chain ?s1 round) = rt_system_program rt" "ac_data (chain ?s1 round) = []"
    using fresh_untouched(1) [OF assms(4) same] b(3) by (auto simp: fresh_rounds_def)
  have differ: "pool \<noteq> round" using addresses_apart [OF assms(6)] b(3) by (auto simp: round_seeds_def)
  have deadline: "?deadline = of_nat (clock s + 1000)"
    using saturating_of_nat [of "clock s" 1000] assms(2) by simp
  have opened: "hosts rt program_id pool (p\<lparr>pa_next_round := 0 + 1\<rparr>) round
      (fresh_round pool 0 ?deadline (demo_template pk) bump)
      (apply_tx rt program_id (of_nat t, in_accounts ins, in_data ins) (chain ?s1))"
    if "t \<le> clock ?s1 + 3" for t
  proof -
    have "(of_nat t :: u64) < ?deadline"
      unfolding deadline using that s1(3) assms(2) by (subst of_nat_less_u64) simp_all
    then show ?thesis unfolding b(1)
      by (intro open_tx [OF runtime fit room [OF s1(1) b(3) empty] b(2,3) stored differ
            address_length [OF assms(6)] assms(7-10)])
        (simp_all add: ROUND_ACCOUNT_SIZE_def)
  qed
  obtain sig s' t where s': "submit ln authority ins ?s1 = (Ok sig, s')" "running s'"
    "clock ?s1 \<le> clock s'" "clock s' \<le> clock ?s1 + 3" "clock ?s1 \<le> t" "t \<le> clock ?s1 + 3"
    "\<forall>k. untouched (apply_tx rt program_id (of_nat t, in_accounts ins, in_data ins) (chain ?s1)) (chain s') k"
  proof (rule submit_works [OF s1(1) ins(2)])
    show "\<forall>a \<in> set (in_accounts ins). ai_is_signer a \<longrightarrow> ai_key a = ?key" using b(1) by simp
    show "\<forall>t. clock ?s1 \<le> t \<and> t \<le> clock ?s1 + 3 \<longrightarrow>
      apply_tx rt program_id (of_nat t, in_accounts ins, in_data ins) (chain ?s1) \<noteq> chain ?s1"
    proof (intro allI impI notI)
      fix t assume t: "clock ?s1 \<le> t \<and> t \<le> clock ?s1 + 3"
        and "apply_tx rt program_id (of_nat t, in_accounts ins, in_data ins) (chain ?s1) = chain ?s1"
      then have "round_at rt program_id (chain ?s1) round \<noteq> None"
        using opened [of t] by (simp add: hosts_def del: apply_tx.simps)
      then show False using empty(2) runtime_okD(4) [OF runtime, of "ac_data (chain ?s1 round)"]
        by (auto simp: round_at_def split: if_splits)
    qed
  qed
  show ?thesis
  proof (rule that)
    show "open_demo_round ln pk authority program_id pool s = (Ok round, s')"
      using ins(1) s'(1) slot [OF assms(1)]
      by (simp add: open_demo_round_def request_def get_slot_def bind_cmd_def lift_def)
    show "hosts rt program_id pool (p\<lparr>pa_next_round := 0 + 1\<rparr>) round
        (fresh_round pool 0 ?deadline (demo_template pk) bump) (chain s')"
      by (rule hosts_untouched [OF opened [OF s'(6)] s'(7)])
  qed (use s' s1 in simp_all)
qed

lemma wait_works:
  assumes "running s" "clock s \<le> target" "target \<le> clock s + 20" "clock s + 2000 < 2 ^ 64"
  obtains s' where "wait_for_slot (get_slot ln) (of_nat target) s = (Ok (), s')" "running s'"
    "target \<le> clock s'" "clock s' \<le> target + 1" "\<forall>k. untouched (chain s) (chain s') k"
proof -
  define at where "at k = (ln_after ln [GetSlot] ^^ k) s" for k
  have at: "at 0 = s" "at (Suc k) = ln_after ln [GetSlot] (at k)" for k by (simp_all add: at_def)
  have run: "running (at k)" for k by (induction k) (simp_all add: at assms(1) keeps_running)
  have mono: "clock (at k) \<le> clock (at (Suc k))" "clock (at (Suc k)) \<le> clock (at k) + 1" for k
    using pace [OF run, of "[GetSlot]"] poll_pace [OF run] by (simp_all add: at(2))
  have below: "clock (at k) \<le> clock s + k" for k
    by (induction k) (use mono(2) at(1) in \<open>auto intro: order_trans\<close>)
  have same: "\<forall>q. untouched (chain s) (chain (at k)) q" for k
  proof (induction k)
    case (Suc k)
    have "\<forall>q. untouched (chain (at k)) (chain (at (Suc k))) q" using quiet [OF run] by (simp add: at(2))
    with Suc.IH show ?case by (rule untouched_trans)
  qed (simp add: at(1) untouched_def)
  have reach: "target \<le> clock (at 199)"
    using progress [OF assms(1)] assms(3,4) by (simp add: at_def)
  then obtain k where k: "target \<le> clock (at k)" "\<forall>j < k. \<not> target \<le> clock (at j)" "k \<le> 199"
    using exists_least_iff [of "\<lambda>k. target \<le> clock (at k)"] not_less by metis
  have hit: "clock (at k) \<le> target"
  proof (cases k)
    case (Suc j)
    then show ?thesis using k(2) mono(2) [of j] by fastforce
  qed (simp add: at(1) assms(2))
  have step: "snd \<circ> slot_reached (get_slot ln) (of_nat target) = ln_after ln [GetSlot]"
    unfolding slot_step(2) by (simp add: fun_eq_iff get_slot_def)
  have ans: "answer (slot_reached (get_slot ln) (of_nat target)) s j = Ok (target \<le> clock (at j))"
    if "j \<le> k" for j
  proof -
    have "clock (at j) < 2 ^ 64" "target < 2 ^ 64" using below [of j] that k(3) assms(3,4) by simp_all
    then have "((of_nat target :: u64) \<le> of_nat (clock (at j))) = (target \<le> clock (at j))"
      using of_nat_le_u64 by blast
    then show ?thesis using slot [OF run]
      unfolding answer_def step at_def [symmetric] slot_step(1) by (simp add: get_slot_def)
  qed
  have "wait_for_slot (get_slot ln) (of_nat target) s = (Ok (), at (Suc k))"
    unfolding wait_for_slot_def
    by (subst poll_succeeds [where k = k]) (use ans k in \<open>simp_all add: step at_def\<close>)
  then show ?thesis using that run same mono [of k] k(1) hit by (metis le_trans add_le_mono1)
qed

lemma begin_works:
  assumes "running s" "hosts rt program_id pool p round r (chain s)" "ra_state r = State.ReleaseScheduled"
    and "\<forall>t. clock s \<le> t \<and> t \<le> clock s + 3 \<longrightarrow>
      ra_release_slot r \<le> of_nat t \<and> of_nat t \<le> ra_window_end_slot r"
  obtains ins sig s' where "begin_window_instruction (pk_sdk pk) program_id round = Ok ins"
    "submit ln authority ins s = (Ok sig, s')" "running s'" "clock s \<le> clock s'" "clock s' \<le> clock s + 3"
    "hosts rt program_id pool p round (r\<lparr>ra_state := State.ExecutionWindow\<rparr>) (chain s')"
proof -
  obtain ins where ins: "begin_window_instruction (pk_sdk pk) program_id round = Ok ins"
    "in_program_id ins = program_id"
    using encodes [of BeginExecutionWindow] by (auto simp: begin_window_instruction_def encode_def)
  note built = begin_built [OF ins(1)]
  have run: "hosts rt program_id pool p round (r\<lparr>ra_state := State.ExecutionWindow\<rparr>)
      (apply_tx rt program_id (of_nat t, in_accounts ins, in_data ins) (chain s))"
    if "clock s \<le> t" "t \<le> clock s + 3" for t
    unfolding built(1)
    using begin_tx [OF runtime built(2), of program_id pool p "meta round False" r "chain s" "of_nat t" "[]"]
      assms(2-4) that by simp
  have differ: "r \<noteq> r\<lparr>ra_state := State.ExecutionWindow\<rparr>"
  proof
    assume "r = r\<lparr>ra_state := State.ExecutionWindow\<rparr>"
    from arg_cong [OF this, of ra_state] show False using assms(3) by simp
  qed
  obtain sig s' t where s': "submit ln authority ins s = (Ok sig, s')" "running s'"
    "clock s \<le> clock s'" "clock s' \<le> clock s + 3" "clock s \<le> t" "t \<le> clock s + 3"
    "\<forall>k. untouched (apply_tx rt program_id (of_nat t, in_accounts ins, in_data ins) (chain s)) (chain s') k"
  proof (rule submit_works [OF assms(1) ins(2)])
    show "\<forall>a \<in> set (in_accounts ins). ai_is_signer a \<longrightarrow> ai_key a = ln_pubkey ln authority"
      using built(1) by simp
    show "\<forall>t. clock s \<le> t \<and> t \<le> clock s + 3 \<longrightarrow>
      apply_tx rt program_id (of_nat t, in_accounts ins, in_data ins) (chain s) \<noteq> chain s"
      using round_changes [OF assms(2) run differ] by blast
  qed
  show ?thesis by (rule that [OF ins(1) s'(1-4) hosts_untouched [OF run [OF s'(5,6)] s'(7)]])
qed

lemma drive_works:
  assumes "running s" "clock s + 3000 < 2 ^ 64"
    and "hosts rt program_id pool p round (fresh_round pool 0 deadline template bump) (chain s)"
    and "pa_authority p = ln_pubkey ln authority" "pa_backend p = Backend.MerkleCohort"
    and "pa_min_participants p = 10" "pa_max_participants p = 50" "pa_min_release_delay p = 2"
    and "pa_max_release_delay p = 50" "pa_execution_window p = 30"
    and "length (digest_bytes root) = 32" "digest_bytes root \<noteq> zero32" "10 \<le> included" "included \<le> 50"
  obtains release r s' where
    "drive_demo_round ln pk authority program_id pool round root included s = (Ok (of_nat release), s')"
    "running s'" "release \<le> clock s'" "clock s' \<le> release + 4" "release \<le> clock s + 20"
    "round_at rt program_id (chain s') round = Some r" "ra_cohort_root r = digest_bytes root"
    "ra_accepted_count r = included" "ra_state r = State.ExecutionWindow"
proof -
  let ?r0 = "fresh_round pool 0 deadline template bump"
  let ?r1 = "?r0\<lparr>ra_cohort_root := digest_bytes root, ra_accepted_count := included,
    ra_state := State.ThresholdReached\<rparr>"
  let ?r2 = "?r1\<lparr>ra_state := State.Sealed\<rparr>"
  let ?list = "[meta (ln_pubkey ln authority) True, meta pool False, meta round False]"
  have list: "admin_list ?list p (meta pool False) (meta round False)"
    using assms(4) by (simp add: admin_list_def)
  have key: "ai_key (meta pool False) = pool" "ai_key (meta round False) = round" by simp_all
  have publish: "hosts rt program_id pool p round ?r1
      (apply_tx rt program_id (of_nat t, ?list, data) (chain s))"
    if data: "rt_try_instruction rt data = Some (PublishCohortRoot (digest_bytes root) included)"
      and t: "clock s \<le> t" "t \<le> clock s + 3" for data t
    using publish_tx [OF runtime data, of program_id "meta pool False" p "meta round False" ?r0 "chain s" ?list]
      assms list by (simp add: fresh_round_def del: apply_tx.simps)
  obtain s1 where s1: "submit_admin ln pk authority program_id pool round
      (PublishCohortRoot (digest_bytes root) included) s = (Ok (), s1)" "running s1"
    "clock s \<le> clock s1" "clock s1 \<le> clock s + 3" "hosts rt program_id pool p round ?r1 (chain s1)"
    by (rule admin_works [OF assms(1,3) _ _ publish]) (simp_all add: assms(11) fresh_round_def)
  have sealing: "hosts rt program_id pool p round ?r2
      (apply_tx rt program_id (of_nat t, ?list, data) (chain s1))"
    if data: "rt_try_instruction rt data = Some SealRound"
      and t: "clock s1 \<le> t" "t \<le> clock s1 + 3" for data t
    using seal_tx [OF runtime data, of program_id "meta pool False" p "meta round False" ?r1 "chain s1" ?list]
      s1(5) assms list by (simp add: fresh_round_def del: apply_tx.simps)
  obtain s2 where s2: "submit_admin ln pk authority program_id pool round SealRound s1 = (Ok (), s2)"
    "running s2" "clock s1 \<le> clock s2" "clock s2 \<le> clock s1 + 3"
    "hosts rt program_id pool p round ?r2 (chain s2)"
    by (rule admin_works [OF s1(2,5) _ _ sealing]) (simp_all add: fresh_round_def)
  let ?s3 = "ln_after ln [GetSlot] s2"
  define release where "release = clock s2 + 10"
  have s3: "running ?s3" "clock s2 \<le> clock ?s3" "clock ?s3 \<le> clock s2 + 1"
    using keeps_running [OF s2(2)] pace [OF s2(2), of "[GetSlot]"] poll_pace [OF s2(2)] by simp_all
  have h3: "hosts rt program_id pool p round ?r2 (chain ?s3)"
    using hosts_untouched [OF s2(5)] quiet [OF s2(2), of "[GetSlot]"] by simp
  have small: "release + 100 < 2 ^ 64" using assms(2) s1(4) s2(4) by (simp add: release_def)
  have slot3: "saturating_add (of_nat (clock s2)) 10 = (of_nat release :: u64)"
    using saturating_of_nat [of "clock s2" 10] small by (simp add: release_def)
  let ?r4 = "?r2\<lparr>ra_release_slot := of_nat release, ra_window_end_slot := of_nat release + 30,
    ra_state := State.ReleaseScheduled\<rparr>"
  have scheduling: "hosts rt program_id pool p round ?r4
      (apply_tx rt program_id (of_nat t, ?list, data) (chain ?s3))"
    if data: "rt_try_instruction rt data = Some (ScheduleRelease (of_nat release))"
      and t: "clock ?s3 \<le> t" "t \<le> clock ?s3 + 3" for data t
  proof -
    have tt: "t \<le> release" "release - t \<le> 10" "2 \<le> release - t"
      using t s3 by (simp_all add: release_def)
    then have le: "(of_nat t :: u64) \<le> of_nat release"
      using small by (subst of_nat_le_u64) simp_all
    have diff: "(of_nat release :: u64) - of_nat t = of_nat (release - t)" using tt(1) by (simp add: of_nat_diff)
    have "(of_nat 2 :: u64) \<le> of_nat (release - t)" "(of_nat (release - t) :: u64) \<le> of_nat 50"
      using tt by (subst of_nat_le_u64; simp)+
    moreover have "unat (of_nat release :: u64) + unat (30 :: u64) < 2 ^ 64"
      using small by (simp add: unat_of_nat)
    ultimately show ?thesis
      using schedule_tx [OF runtime data, of program_id "meta pool False" p "meta round False" ?r2
          "chain ?s3" ?list "of_nat t"] h3 assms list le diff
      by (simp add: fresh_round_def del: apply_tx.simps)
  qed
  obtain s4 where s4: "submit_admin ln pk authority program_id pool round (ScheduleRelease (of_nat release)) ?s3
      = (Ok (), s4)" "running s4" "clock ?s3 \<le> clock s4" "clock s4 \<le> clock ?s3 + 3"
    "hosts rt program_id pool p round ?r4 (chain s4)"
    by (rule admin_works [OF s3(1) h3 _ _ scheduling]) (simp_all add: fresh_round_def)
  obtain s5 where s5: "wait_for_slot (get_slot ln) (of_nat release) s4 = (Ok (), s5)" "running s5"
    "release \<le> clock s5" "clock s5 \<le> release + 1" "\<forall>k. untouched (chain s4) (chain s5) k"
    by (rule wait_works [OF s4(2), of release])
      (use s1 s2 s3 s4 assms(2) in \<open>simp_all add: release_def\<close>)
  note h5 = hosts_untouched [OF s4(5) s5(5)]
  have window: "ra_release_slot ?r4 \<le> of_nat t \<and> of_nat t \<le> ra_window_end_slot ?r4"
    if "clock s5 \<le> t" "t \<le> clock s5 + 3" for t
  proof -
    have "(of_nat release :: u64) \<le> of_nat t" "(of_nat t :: u64) \<le> of_nat (release + 30)"
      using that s5(3,4) small by (subst of_nat_le_u64; simp)+
    then show ?thesis by simp
  qed
  obtain ins sig s6 where s6: "begin_window_instruction (pk_sdk pk) program_id round = Ok ins"
    "submit ln authority ins s5 = (Ok sig, s6)" "running s6" "clock s5 \<le> clock s6" "clock s6 \<le> clock s5 + 3"
    "hosts rt program_id pool p round (?r4\<lparr>ra_state := State.ExecutionWindow\<rparr>) (chain s6)"
    by (rule begin_works [OF s5(2) h5]) (use window in simp_all)
  have run: "drive_demo_round ln pk authority program_id pool round root included s = (Ok (of_nat release), s6)"
    unfolding drive_demo_round_def Let_def
    using s1(1) s2(1) slot [OF s2(2)] slot3 s4(1) s5(1) s6(1,2)
    by (simp add: bind_cmd_Ok request_def get_slot_def [of ln s2] lift_def)
  have "release \<le> clock s6" "clock s6 \<le> release + 4" "release \<le> clock s + 20"
    using s1(4) s2(4) s5(3,4) s6(4,5) by (simp_all add: release_def)
  moreover have "round_at rt program_id (chain s6) round = Some (?r4\<lparr>ra_state := State.ExecutionWindow\<rparr>)"
    using s6(6) by (simp add: hosts_def)
  ultimately show ?thesis by (rule that [OF run s6(3)]) simp_all
qed

lemma wallet_works:
  assumes "running s" "ln_read_keypair_file ln path s = Some kp" "pk_memo_program pk = Some program"
    and "ac_template_id action = ''memo-v1''" "ac_program_ids action = [program]"
    and "within_default_limits action" "is_loopback url"
    and "ws \<le> clock s" "clock s \<le> we" "we < 2 ^ 64"
  obtains receipt s' where "execute_wallet ln pc (pk_memo_program pk) action url (of_nat ws) (of_nat we) path s
      = (Ok receipt, s')" "running s'" "clock s \<le> clock s'" "clock s' \<le> clock s + 3"
    "\<forall>k. untouched (chain s) (chain s') k"
proof -
  let ?ep = "(ln_endpoint ln s)\<lparr>ep_read_keypair_file := ln_read_keypair_file ln path s\<rparr>"
  obtain bh tx fee sig where tx: "ep_get_latest_blockhash (ln_endpoint ln s) = Some bh"
    "tx = memo_transaction (ln_endpoint ln s) program action kp bh"
    "ep_simulate_transaction (ln_endpoint ln s) tx = Some True"
    "ep_get_fee_for_message (ln_endpoint ln s) tx = Some fee" "fee \<le> 20000"
    "ep_send_and_confirm (ln_endpoint ln s) tx = Some sig"
    "\<forall>k. untouched (chain s) (chain (ln_after ln
       [GetSlot, ReadKeypair, GetLatestBlockhash, Simulate tx, GetFee tx, Send tx] s)) k"
    using memo [OF assms(1,3,6,5)] by blast
  let ?calls = "[GetSlot, ReadKeypair, GetLatestBlockhash, Simulate tx, GetFee tx, Send tx]"
  have slots: "(of_nat ws :: u64) \<le> of_nat (clock s)" "(of_nat (clock s) :: u64) \<le> of_nat we"
    using assms(8-10) by (subst of_nat_le_u64; simp)+
  have "send_justified (pk_memo_program pk) ?ep action url (of_nat ws) (of_nat we) (of_nat (clock s)) fee tx"
    using assms(2-7) tx(1-5) slot [OF assms(1)] slots
    by (simp add: send_justified_def memo_transaction_def)
  note execute_justified [OF TrueI TrueI this, of pc]
  then have "execute_wallet ln pc (pk_memo_program pk) action url (of_nat ws) (of_nat we) path s
      = (Ok \<lparr>lr_signature = sig, lr_observed_slot = of_nat (clock s), lr_estimated_fee_lamports = fee\<rparr>,
         ln_after ln ?calls s)"
    using tx(6) by (simp add: execute_wallet_def)
  then show ?thesis
    using that keeps_running [OF assms(1)] pace [OF assms(1), of ?calls] tx(7) by simp
qed

lemma wallets_work:
  assumes "running s" "\<forall>path \<in> set paths. \<forall>s. running s \<longrightarrow> ln_read_keypair_file ln path s \<noteq> None"
    and "pk_memo_program pk = Some program"
    and "ac_template_id action = ''memo-v1''" "ac_program_ids action = [program]"
    and "within_default_limits action" "is_loopback url"
    and "ws \<le> clock s" "clock s + 3 * length paths \<le> we" "we < 2 ^ 64"
  shows "\<exists>receipts s'. execute_wallets ln pc (pk_memo_program pk) action url (of_nat ws) (of_nat we) paths s
      = (Ok receipts, s') \<and> running s' \<and> (\<forall>k. untouched (chain s) (chain s') k)"
  using assms(1,2,8,9)
proof (induction paths arbitrary: s)
  case Nil
  then show ?case by (simp add: lift_def untouched_def)
next
  case (Cons path paths)
  obtain kp where kp: "ln_read_keypair_file ln path s = Some kp" using Cons.prems(1,2) by fastforce
  have "clock s \<le> we" using Cons.prems(4) by simp
  then obtain receipt s1 where s1: "execute_wallet ln pc (pk_memo_program pk) action url (of_nat ws) (of_nat we)
      path s = (Ok receipt, s1)" "running s1" "clock s \<le> clock s1" "clock s1 \<le> clock s + 3"
    "\<forall>k. untouched (chain s) (chain s1) k"
    by (rule wallet_works [OF Cons.prems(1) kp assms(3-7) Cons.prems(3) _ assms(10)])
  have "\<exists>receipts s'. execute_wallets ln pc (pk_memo_program pk) action url (of_nat ws) (of_nat we) paths s1
      = (Ok receipts, s') \<and> running s' \<and> (\<forall>k. untouched (chain s1) (chain s') k)"
    by (rule Cons.IH [OF s1(2)]) (use Cons.prems s1 in simp_all)
  then obtain receipts s' where rest: "execute_wallets ln pc (pk_memo_program pk) action url (of_nat ws)
      (of_nat we) paths s1 = (Ok receipts, s')" "running s'" "\<forall>k. untouched (chain s1) (chain s') k"
    by blast
  have "execute_wallets ln pc (pk_memo_program pk) action url (of_nat ws) (of_nat we) (path # paths) s
      = (Ok (receipt # receipts), s')"
    using s1(1) rest(1) by (simp add: bind_cmd_Ok lift_def)
  then show ?case using rest(2) untouched_trans [OF s1(5) rest(3)] by blast
qed

lemma check_works:
  assumes "running s" "round_at rt program_id (chain s) round = Some r"
    and "ra_cohort_root r = digest_bytes root" "ra_accepted_count r = included"
    and "ra_state r = State.ExecutionWindow"
  obtains s' where "check_round ln pk round root included s = (Ok (), s')" "running s'"
proof -
  have dec: "rt_round_deserialize rt (ac_data (chain s round)) = Some r"
    using assms(2) by (simp add: at_owned_iff)
  obtain data s' where acc: "ln_get_account ln round s = (data, s')" "running s'"
    "ac_data (chain s round) \<noteq> [] \<longrightarrow> data = Some (ac_data (chain s round))"
    using account [OF assms(1)] by blast
  have "data = Some (ac_data (chain s round))" using acc(3) runtime_okD(4) [OF runtime dec] by simp
  then have "check_round ln pk round root included s = (Ok (), s')"
    using acc(1) dec assms(3-5)
    by (simp add: check_round_def request_def bind_cmd_def lift_def decoder ensure_def)
  then show ?thesis using that acc(2) by blast
qed

lemma demo_round_runs:
  assumes "running s" "clock s + 4000 < 2 ^ 64" "fresh_pools rt program_id (chain s)" "fresh_rounds rt program_id (chain s)"
    and "\<forall>bs. length (pk_blake3 pk bs) = 32"
    and "length (digest_bytes root) = 32" "digest_bytes root \<noteq> zero32" "10 \<le> included" "included \<le> 50"
    and "pk_memo_program pk = Some program" "ac_template_id action = ''memo-v1''"
    and "ac_program_ids action = [program]" "within_default_limits action"
    and "ln_parse_url ln rpc_address = Some url" "is_loopback url"
    and "\<forall>path \<in> set paths. \<forall>s. running s \<longrightarrow> ln_read_keypair_file ln path s \<noteq> None"
  shows "\<exists>receipts s'. run_demo_round ln pk rpc_address authority program_id paths root included action s
    = (Ok receipts, s') \<and> length receipts = min 5 (length paths)"
proof -
  obtain pool bump s1 where s1: "create_demo_pool ln pk authority program_id s = (Ok pool, s1)"
    "running s1" "clock s \<le> clock s1" "clock s1 \<le> clock s + 15" "fresh_rounds rt program_id (chain s1)"
    "rt_create_program_address rt [ascii ''pool'', digest_bytes (Digest32_hash (pk_blake3 pk)
       (ascii ''full-demo-onchain'') (ascii ''pool'')), [bump]] program_id = Some pool"
    "pool_stored rt program_id pool (new_pool (digest_bytes (Digest32_hash (pk_blake3 pk)
       (ascii ''full-demo-onchain'') (ascii ''pool''))) (demo_template pk) 10 50 2 50 30
       Backend.MerkleCohort bump (ln_pubkey ln authority)) (chain s1)"
    by (rule create_works [OF assms(1,3-5)])
  have c1: "clock s1 + 2000 < 2 ^ 64" using s1(4) assms(2) by simp
  obtain round deadline b2 s2 where s2: "open_demo_round ln pk authority program_id pool s1 = (Ok round, s2)"
    "running s2" "clock s1 \<le> clock s2" "clock s2 \<le> clock s1 + 6"
    "hosts rt program_id pool ((new_pool (digest_bytes (Digest32_hash (pk_blake3 pk)
       (ascii ''full-demo-onchain'') (ascii ''pool''))) (demo_template pk) 10 50 2 50 30
       Backend.MerkleCohort bump (ln_pubkey ln authority))\<lparr>pa_next_round := 0 + 1\<rparr>) round
       (fresh_round pool 0 deadline (demo_template pk) b2) (chain s2)"
    by (rule open_works [OF s1(2) c1 s1(7,5) assms(5) s1(6)]) (simp_all add: new_pool_def)
  have c2: "clock s2 + 3000 < 2 ^ 64" using s2(4) s1(4) assms(2) by simp
  obtain release r s3 where s3: "drive_demo_round ln pk authority program_id pool round root included s2
      = (Ok (of_nat release), s3)" "running s3" "release \<le> clock s3" "clock s3 \<le> release + 4"
    "release \<le> clock s2 + 20" "round_at rt program_id (chain s3) round = Some r"
    "ra_cohort_root r = digest_bytes root" "ra_accepted_count r = included" "ra_state r = State.ExecutionWindow"
    by (rule drive_works [OF s2(2) c2 s2(5)])
      (use assms(6-9) in \<open>simp_all add: new_pool_def\<close>)
  have we: "saturating_add (of_nat release) 30 = (of_nat (release + 30) :: u64)" "release + 30 < 2 ^ 64"
    using saturating_of_nat [of release 30] s3(5) c2 by simp_all
  have "clock s3 + 3 * length (take 5 paths) \<le> release + 30" using s3(4) by simp
  moreover have "\<forall>path \<in> set (take 5 paths). \<forall>s. running s \<longrightarrow> ln_read_keypair_file ln path s \<noteq> None"
    using assms(16) by (meson in_set_takeD)
  ultimately obtain receipts s4 where s4: "execute_wallets ln (pk_public_cluster pk) (pk_memo_program pk)
      action url (of_nat release) (of_nat (release + 30)) (take 5 paths) s3 = (Ok receipts, s4)"
    "running s4" "\<forall>k. untouched (chain s3) (chain s4) k"
    using wallets_work [OF s3(2) _ assms(10-13,15) s3(3) _ we(2)] by blast
  have "round_at rt program_id (chain s4) round = Some r"
    using s3(6) at_cong(2) [of "chain s4" round "chain s3"] s4(3) by (simp add: untouched_def)
  then obtain s5 where s5: "check_round ln pk round root included s4 = (Ok (), s5)"
    by (rule check_works [OF s4(2) _ s3(7-9)])
  have "length receipts = min 5 (length paths)"
    using executed_receipts(1) [OF execute_wallets_Ok [OF s4(1)]] by (simp add: min.commute)
  moreover have "run_demo_round ln pk rpc_address authority program_id paths root included action s
      = (Ok receipts, s5)"
    unfolding run_demo_round_def
    using s1(1) s2(1) s3(1) assms(14) we(1) s4(1) s5 by (simp add: bind_cmd_Ok lift_def)
  ultimately show ?thesis by blast
qed

end

section \<open>The demonstration succeeds\<close>

text \<open>
  On a validator that executes the program, the demonstration's round succeeds: with a nonzero
  32-byte root, a cohort of 10 to 50 tickets, a prepared memo action, a loopback address and
  readable wallets, the pool is created, its round opened, published, sealed, scheduled and
  begun in time, up to five participants execute inside the window, and the round account
  holds the cohort and the state \<open>ExecutionWindow\<close> at the end.
\<close>

theorem demo_round_succeeds:
  assumes "honest_validator pk rt ln running chain clock authority program_id"
    and "running s" "clock s + 4000 < 2 ^ 64"
    and "fresh_pools rt program_id (chain s)" "fresh_rounds rt program_id (chain s)"
    and "\<forall>bs. length (pk_blake3 pk bs) = 32"
    and "length (digest_bytes root) = 32" "digest_bytes root \<noteq> zero32" "10 \<le> included" "included \<le> 50"
    and "pk_memo_program pk = Some program" "ac_template_id action = ''memo-v1''"
    and "ac_program_ids action = [program]" "within_default_limits action"
    and "ln_parse_url ln rpc_address = Some url" "is_loopback url"
    and "\<forall>path \<in> set paths. \<forall>s. running s \<longrightarrow> ln_read_keypair_file ln path s \<noteq> None"
  shows "\<exists>receipts s'. run_demo_round ln pk rpc_address authority program_id paths root included action s
    = (Ok receipts, s') \<and> length receipts = min 5 (length paths)"
  by (rule honest_validator.demo_round_runs [OF assms])

end
