(* ===== verification/MP_Local_Run.thy ===== *)
theory MP_Local_Run
  imports MP_Validator
begin

text \<open>
  A local validator whose ledger is run by the model of the on-chain program, an interpretation
  of \<open>honest_validator\<close>, and the demonstration of \<open>xtask\<close> carried out on it: the local part and
  the whole of \<open>full_demo\<close>.
\<close>

section \<open>A validator run by the program\<close>

record world =
  wo_ledger :: ledger
  wo_clock :: nat
  wo_keys :: nat

text \<open>Addresses of pools and of rounds differ in their first byte; creating an account is free.\<close>

definition free_address :: "bytes list \<Rightarrow> pubkey \<Rightarrow> pubkey option" where
  "free_address seeds program_id =
     Some ((if hd seeds = ascii ''pool'' then 1 else 2) # take 31 (rev (concat seeds) @ replicate 31 0))"

definition free_create_account ::
  "AccountInfo \<Rightarrow> AccountInfo \<Rightarrow> u64 \<Rightarrow> u64 \<Rightarrow> pubkey \<Rightarrow> bytes list \<Rightarrow> ledger
     \<Rightarrow> (ledger, ProgramError) result" where
  "free_create_account payer account lamports space owner seeds L =
    (if \<not> ai_is_signer payer \<or> ac_data (L (ai_key account)) \<noteq> [] then Err (Custom 0)
     else Ok (L(ai_key account := \<lparr>ac_lamports = lamports, ac_data = replicate (unat space) 0,
                                  ac_owner = owner\<rparr>)))"

definition free_runtime :: runtime where
  "free_runtime = (borsh_runtime 0)\<lparr>rt_create_program_address := free_address,
     rt_create_account := free_create_account\<rparr>"

definition free_packages :: "(bytes \<Rightarrow> bytes) \<Rightarrow> packages" where
  "free_packages blake3 = \<lparr>
     pk_sdk = \<lparr>sdk_find_program_address = (\<lambda>seeds program_id.
         map_option (\<lambda>key. (key, 255)) (free_address (seeds @ [[255]]) program_id)),
       sdk_instruction_to_vec = borsh_instruction_to_vec, sdk_system_program = replicate 32 0\<rparr>,
     pk_round_deserialize = borsh_round_deserialize, pk_memo_program = Some (replicate 32 4),
     pk_blake3 = blake3, pk_public_cluster = False\<rparr>"

text \<open>A transaction is the list of its instructions; those of the program are executed in order.\<close>

fun execute_tx :: "nat \<Rightarrow> Instruction list \<Rightarrow> ledger \<Rightarrow> ledger" where
  "execute_tx t [] L = L"
| "execute_tx t (i # is) L = execute_tx t is
     (if in_program_id i = sample_program
      then apply_tx free_runtime sample_program (of_nat t, in_accounts i, in_data i) L else L)"

fun deliver :: "nat \<Rightarrow> Instruction list call list \<Rightarrow> ledger \<Rightarrow> ledger" where
  "deliver t [] L = L"
| "deliver t (Send tx # cs) L = deliver t cs (execute_tx t tx L)"
| "deliver t (c # cs) L = deliver t cs L"

definition accepted :: "world \<Rightarrow> Instruction list \<Rightarrow> bool" where
  "accepted w tx \<longleftrightarrow> list_all (\<lambda>i. in_program_id i = sample_program \<longrightarrow>
     is_ok (process_instruction (at_slot free_runtime (wo_clock w)) sample_program (in_accounts i)
       (in_data i) (wo_ledger w))) tx"

definition wallet_key :: pubkey where
  "wallet_key = replicate 32 7"

definition program_validator :: "(pubkey, Instruction list, world) localnet" where
  "program_validator = \<lparr>
     ln_endpoint = (\<lambda>w. \<lparr>ep_get_slot = Some (of_nat (wo_clock w)), ep_read_keypair_file = None,
       ep_get_latest_blockhash = Some [2], ep_new_signed_with_payer = (\<lambda>is kp bh. is),
       ep_simulate_transaction = (\<lambda>tx. Some (accepted w tx)),
       ep_get_fee_for_message = (\<lambda>_. Some 5000), ep_send_and_confirm = (\<lambda>_. Some ''sig'')\<rparr>),
     ln_after = (\<lambda>calls w. w\<lparr>wo_ledger := deliver (wo_clock w) calls (wo_ledger w),
       wo_clock := Suc (wo_clock w)\<rparr>),
     ln_get_account = (\<lambda>k w. (Some (ac_data (wo_ledger w k)), w)),
     ln_read_keypair_file = (\<lambda>_ _. Some wallet_key), ln_write_keypair_file = (\<lambda>_ _ w. (True, w)),
     ln_keypair_new = (\<lambda>w. (if wo_keys w = 1 then sample_program else wallet_key, w\<lparr>wo_keys := Suc (wo_keys w)\<rparr>)),
     ln_pubkey = id, ln_show_pubkey = (\<lambda>_. ''key''),
     ln_output = (\<lambda>_ w. (Some (True, ascii ''Signature: s''), w)), ln_spawn = (\<lambda>_ w. (True, w)),
     ln_kill = id, ln_tempdir = (\<lambda>w. (Some ''tmp'', w)), ln_remove_dir = (\<lambda>_. id),
     ln_can_bind = (\<lambda>_ _. True), ln_is_file = (\<lambda>_ _. True), ln_workspace = Some ''repo'',
     ln_from_utf8 = (\<lambda>_. Some ''Signature: s''), ln_parse_url = (\<lambda>_. Some (Some ''127.0.0.1'')),
     ln_unwinds = True\<rparr>"

lemma free_runtime_ok: "runtime_ok free_runtime"
  using borsh_runtime_ok [of 0]
  by (auto simp: runtime_ok_def free_runtime_def free_create_account_def split: if_splits)

lemma free_accounts_fit: "accounts_fit free_runtime"
  using borsh_accounts_fit [of 0] by (simp add: accounts_fit_def free_runtime_def)

lemma borsh_instruction_total: "arrays_ok v \<Longrightarrow> borsh_instruction_to_vec v \<noteq> None"
  by (cases v) (auto simp: len32_def)

lemma after_simps:
  "wo_clock (ln_after program_validator calls w) = Suc (wo_clock w)"
  "wo_ledger (ln_after program_validator calls w) = deliver (wo_clock w) calls (wo_ledger w)"
  by (simp_all add: program_validator_def)

lemma deliver_quiet: "\<forall>tx. Send tx \<notin> set calls \<Longrightarrow> deliver t calls L = L"
proof (induction calls)
  case (Cons c cs)
  then show ?case by (cases c) auto
qed simp

lemma clock_iterate: "wo_clock ((ln_after program_validator calls ^^ k) w) = wo_clock w + k"
  by (induction k) (simp_all add: after_simps)

lemma free_creatable:
  assumes "ac_owner (L k) = replicate 32 0" "ac_data (L k) = []"
  shows "creatable free_runtime sample_program key k space L"
  using assms sample_room(9)
  by (auto simp: creatable_def free_runtime_def borsh_runtime_def free_create_account_def)

lemma untouched_refl: "untouched L L k"
  by (simp add: untouched_def)

lemma program_accepts:
  fixes w :: world
  assumes "in_program_id ins = sample_program"
    and "\<forall>t. wo_clock w \<le> t \<and> t \<le> wo_clock w + 3 \<longrightarrow>
      is_ok (process_instruction (at_slot free_runtime t) sample_program (in_accounts ins) (in_data ins)
        (wo_ledger w))"
  shows "\<exists>bh tx sig t. ep_get_latest_blockhash (ln_endpoint program_validator w) = Some bh
    \<and> tx = ep_new_signed_with_payer (ln_endpoint program_validator w) [ins] wallet_key bh
    \<and> ep_simulate_transaction (ln_endpoint program_validator w) tx = Some True
    \<and> ep_send_and_confirm (ln_endpoint program_validator w) tx = Some sig
    \<and> wo_clock w \<le> t \<and> t \<le> wo_clock w + 3
    \<and> (\<forall>k. untouched (apply_tx free_runtime sample_program (of_nat t, in_accounts ins, in_data ins)
         (wo_ledger w)) (wo_ledger (ln_after program_validator
         [GetLatestBlockhash, Simulate tx, Send tx] w)) k)"
proof -
  have "accepted w [ins]" using assms(2) by (simp add: accepted_def)
  then show ?thesis using assms(1)
    by (intro exI [of _ "[2]"] exI [of _ "[ins]"] exI [of _ "''sig''"] exI [of _ "wo_clock w"])
      (simp add: after_simps untouched_refl del: apply_tx.simps, simp add: program_validator_def)
qed

lemma memo_accepted:
  fixes w :: world
  assumes "program \<noteq> sample_program"
  shows "\<exists>bh tx fee sig. ep_get_latest_blockhash (ln_endpoint program_validator w) = Some bh
    \<and> tx = memo_transaction (ln_endpoint program_validator w) program action kp bh
    \<and> ep_simulate_transaction (ln_endpoint program_validator w) tx = Some True
    \<and> ep_get_fee_for_message (ln_endpoint program_validator w) tx = Some fee \<and> fee \<le> 20000
    \<and> ep_send_and_confirm (ln_endpoint program_validator w) tx = Some sig
    \<and> (\<forall>k. untouched (wo_ledger w) (wo_ledger (ln_after program_validator
         [GetSlot, ReadKeypair, GetLatestBlockhash, Simulate tx, GetFee tx, Send tx] w)) k)"
proof -
  let ?tx = "[\<lparr>in_program_id = program, in_accounts = [], in_data = ac_payload action\<rparr>]"
  have "accepted w ?tx" using assms by (simp add: accepted_def)
  then show ?thesis using assms
    by (intro exI [of _ "[2]"] exI [of _ ?tx] exI [of _ 5000] exI [of _ "''sig''"])
      (simp add: after_simps untouched_refl, simp add: program_validator_def memo_transaction_def)
qed

lemma free_decodes: "borsh_instruction_to_vec ins = Some bs \<Longrightarrow> rt_try_instruction free_runtime bs = Some ins"
  using borsh_sdk.decodes [of ins bs 0] by (simp add: borsh_sdk_def free_runtime_def)

interpretation program_validator: honest_validator "free_packages blake3" free_runtime
  program_validator "\<lambda>_. True" wo_ledger wo_clock wallet_key sample_program for blake3
proof (unfold_locales, goal_cases)
  case (1 seeds program_id key bump)
  then show ?case by (auto simp: free_packages_def free_runtime_def)
next
  case (2 ins bs)
  then show ?case by (intro free_decodes) (simp add: free_packages_def)
next
  case 3
  show ?case by (simp add: free_packages_def free_runtime_def borsh_runtime_def)
next
  case 4
  show ?case by (rule free_runtime_ok)
next
  case 5
  show ?case by (rule free_accounts_fit)
next
  case 6
  show ?case by (simp add: free_packages_def free_runtime_def borsh_runtime_def)
next
  case (7 seeds)
  show ?case by (simp add: free_packages_def free_address_def)
next
  case (8 v)
  then show ?case using borsh_instruction_total by (simp add: free_packages_def)
next
  case (9 s)
  show ?case by (simp add: program_validator_def)
next
  case (13 s)
  show ?case by (simp add: clock_iterate)
next
  case (14 s calls k)
  then show ?case by (simp add: after_simps deliver_quiet untouched_refl)
next
  case (15 s k)
  show ?case by (auto simp: program_validator_def intro: untouched_refl)
next
  case (16 s ins)
  then show ?case by (intro program_accepts)
next
  case (17 s program action kp)
  moreover have "replicate 32 4 \<noteq> sample_program" by code_simp
  ultimately show ?case by (intro memo_accepted) (auto simp: free_packages_def)
next
  case (18 s seeds k space)
  then show ?case by (intro free_creatable) (simp_all add: free_runtime_def borsh_runtime_def)
next
  case (19 seeds k)
  then show ?case by (auto simp: free_runtime_def free_address_def)
next
  case (20 x b k y z c)
  have "ascii ''round'' \<noteq> ascii ''pool''" by code_simp
  with 20 show ?case by (auto simp: free_runtime_def free_address_def)
next
  case 21
  show ?case by (simp add: program_validator_def wallet_key_def)
qed (simp_all add: after_simps)

definition empty_world :: world where
  "empty_world = \<lparr>wo_ledger = (\<lambda>_. \<lparr>ac_lamports = 0, ac_data = [], ac_owner = replicate 32 0\<rparr>),
     wo_clock = 100, wo_keys = 0\<rparr>"

lemma empty_fresh:
  "fresh_pools free_runtime sample_program (wo_ledger empty_world)"
  "fresh_rounds free_runtime sample_program (wo_ledger empty_world)"
  by (simp_all add: fresh_pools_def fresh_rounds_def empty_world_def free_runtime_def borsh_runtime_def)

lemma demo_memo_fields:
  "ac_template_id (demo_memo program) = ''memo-v1''" "ac_program_ids (demo_memo program) = [program]"
  "within_default_limits (demo_memo program)"
proof -
  have "dr_prepare (MemoTemplate_driver id \<lparr>mt_memo_program_id = program\<rparr>)
      (Memo (map of_char ''mirror-pool-demo'')) = Ok (demo_memo program)"
    using demo_memo_prepared by (simp add: MemoTemplate_driver_def)
  from memo.identity [OF this] memo.limits [OF this]
  show "ac_template_id (demo_memo program) = ''memo-v1''" "ac_program_ids (demo_memo program) = [program]"
    "within_default_limits (demo_memo program)"
    by (simp_all add: MemoTemplate_driver_def)
qed

lemma program_validator_facts:
  "pk_memo_program (free_packages blake3) = Some (replicate 32 4)" "pk_blake3 (free_packages blake3) = blake3"
  "ln_parse_url program_validator url = Some (Some ''127.0.0.1'')" "is_loopback (Some ''127.0.0.1'')"
  "ln_read_keypair_file program_validator path w \<noteq> None"
  by (simp_all add: free_packages_def program_validator_def is_loopback_def)

lemma empty_world_runs:
  assumes "\<forall>bs. length (blake3 bs) = 32" "length (digest_bytes root) = 32" "digest_bytes root \<noteq> zero32"
    and "wo_ledger w = wo_ledger empty_world" "wo_clock w = 100"
  shows "\<exists>receipts w'. run_demo_round program_validator (free_packages blake3) rpc wallet_key sample_program
      paths root 25 (demo_memo (replicate 32 4)) w = (Ok receipts, w') \<and> length receipts = min 5 (length paths)"
  using assms empty_fresh demo_memo_fields program_validator_facts
  by (intro program_validator.demo_round_runs [where program = "replicate 32 4" and url = "Some ''127.0.0.1''"])
    simp_all

theorem demo_round_succeeds_witness:
  "\<exists>receipts w. run_demo_round program_validator (free_packages (\<lambda>_. replicate 32 5)) ''http'' wallet_key
     sample_program [''a'', ''b'', ''c''] (Digest32 (replicate 32 4)) 25 (demo_memo (replicate 32 4)) empty_world
   = (Ok receipts, w) \<and> length receipts = min 5 (length [''a'', ''b'', ''c''])"
proof (rule demo_round_succeeds [OF program_validator.honest_validator_axioms TrueI _ empty_fresh _ _ _ _ _
      program_validator_facts(1) demo_memo_fields program_validator_facts(3,4)])
  show "digest_bytes (Digest32 (replicate 32 4)) \<noteq> zero32" by code_simp
  show "wo_clock empty_world + 4000 < 2 ^ 64" by (simp add: empty_world_def)
  show "\<forall>path \<in> set [''a'', ''b'', ''c'']. \<forall>s. True \<longrightarrow> ln_read_keypair_file program_validator path s \<noteq> None"
    using program_validator_facts(5) by blast
qed (simp_all add: program_validator_facts(2))

section \<open>The whole run\<close>

lemma tools_work:
  "setup_checks program_validator w = (Ok (), w)"
  "\<exists>artifact. build_program program_validator w = (Ok (''repo'', artifact), w)"
  "must_run program_validator args msg w = (Ok (ascii ''Signature: s''), w)"
  "new_keypair program_validator w
     = (Ok (if wo_keys w = 1 then sample_program else wallet_key), w\<lparr>wo_keys := Suc (wo_keys w)\<rparr>)"
  "store_keypair program_validator kp path w = (Ok (), w)"
  "spawn_validator program_validator args w = (Ok (), w)"
  by (simp_all add: setup_checks_def build_program_def must_run_def bind_cmd_def request_def lift_def
      ensure_def new_keypair_def store_keypair_def spawn_validator_def program_validator_def Let_def)

lemma validator_up: "wait_for_validator (probe_validator program_validator rpc) w = (Ok (), w)"
proof -
  let ?step = "request (\<lambda>s. case probe_validator program_validator rpc s of (b, s') \<Rightarrow> (Some b, s')) IoError"
  have "?step w = (Ok True, w)" by (simp add: request_def probe_validator_def program_validator_def)
  then show ?thesis unfolding wait_for_validator_def
    using poll_succeeds [of ?step w 0 200 "''local validator startup timed out''"] by (simp add: answer_simps)
qed

lemma deployed: "deploy_program program_validator rpc authority apath ppath artifact w = (Ok ''s'', w)"
proof -
  have "lines_of ''Signature: s'' = [''Signature: s'']" by (subst lines_of.simps) simp
  then have "find_map (strip_prefix ''Signature: '') (lines_of ''Signature: s'') = Some ''s''"
    by (simp add: strip_prefix_def)
  moreover have "ln_from_utf8 program_validator bs = Some ''Signature: s''" for bs
    by (simp add: program_validator_def)
  ultimately show ?thesis by (simp add: deploy_program_def bind_cmd_def tools_work lift_def)
qed

lemma participants_funded:
  "\<exists>paths n. fund_participants program_validator rpc directory is w = (Ok paths, w\<lparr>wo_keys := n\<rparr>)"
proof (induction "is" arbitrary: w)
  case Nil
  show ?case by (intro exI [of _ "[]"] exI [of _ "wo_keys w"]) (simp add: lift_def)
next
  case (Cons i "is")
  obtain paths n where "fund_participants program_validator rpc directory is (w\<lparr>wo_keys := Suc (wo_keys w)\<rparr>)
      = (Ok paths, w\<lparr>wo_keys := n\<rparr>)"
    using Cons.IH [of "w\<lparr>wo_keys := Suc (wo_keys w)\<rparr>"] by auto
  moreover have "\<exists>m. w\<lparr>wo_keys := n\<rparr> = w\<lparr>wo_keys := m\<rparr>" by blast
  ultimately show ?case by (simp add: bind_cmd_def tools_work lift_def Let_def)
qed

lemma localnet_runs:
  assumes "\<forall>bs. length (blake3 bs) = 32" "length (digest_bytes root) = 32" "digest_bytes root \<noteq> zero32"
  shows "\<exists>d w. run_localnet_demo program_validator (free_packages blake3) root 25
      (demo_memo (replicate 32 4)) empty_world = (Ok d, w)"
proof -
  let ?w = "empty_world\<lparr>wo_keys := 2\<rparr>"
  obtain artifact where artifact: "build_program program_validator empty_world = (Ok (''repo'', artifact), empty_world)"
    using tools_work(2) by blast
  obtain ports where ports: "available_ports (\<lambda>_. True) = Ok ports"
    using waiting_and_ports_bounded_witness by (auto simp: is_ok_iff)
  let ?rpc = "''http://127.0.0.1:'' @ show_port (fst ports)"
  obtain paths n where paths: "fund_participants program_validator ?rpc ''tmp'' [0..<6] ?w
      = (Ok paths, ?w\<lparr>wo_keys := n\<rparr>)"
    using participants_funded by blast
  have len: "length paths = 6" using fund_participants_length [OF paths] by simp
  obtain receipts w' where run: "run_demo_round program_validator (free_packages blake3) ?rpc wallet_key
      sample_program paths root 25 (demo_memo (replicate 32 4)) (?w\<lparr>wo_keys := n\<rparr>) = (Ok receipts, w')"
    "length receipts = 5"
    using empty_world_runs [OF assms, of "?w\<lparr>wo_keys := n\<rparr>" ?rpc paths] len by (auto simp: empty_world_def)
  have "\<exists>d. with_validator program_validator (free_packages blake3) artifact ''tmp'' ?rpc wallet_key
      (path_join ''tmp'' ''authority.json'') (path_join ''tmp'' ''program.json'') sample_program root 25
      (demo_memo (replicate 32 4)) ?w = (Ok d, w')"
    unfolding with_validator_def
    using validator_up deployed paths run by (simp add: bind_cmd_Ok lift_def try_u32_def Let_def del: upt_rec_numeral)
  then obtain d where d: "with_validator program_validator (free_packages blake3) artifact ''tmp'' ?rpc wallet_key
      (path_join ''tmp'' ''authority.json'') (path_join ''tmp'' ''program.json'') sample_program root 25
      (demo_memo (replicate 32 4)) ?w = (Ok d, w')" by blast
  have world: "ln_tempdir program_validator w = (Some ''tmp'', w)" "ln_can_bind program_validator w = (\<lambda>_. True)"
    "ln_remove_dir program_validator dir = id" "ln_kill program_validator = id"
    "ln_pubkey program_validator = id" for w dir
    by (simp_all add: program_validator_def)
  have keys: "wo_keys empty_world = 0" "empty_world\<lparr>wo_keys := Suc (wo_keys (empty_world\<lparr>wo_keys := Suc 0\<rparr>))\<rparr> = ?w"
    by (simp_all add: empty_world_def)
  show ?thesis
    unfolding run_localnet_demo_def
    using tools_work(1) artifact world ports d keys
    by (simp add: bind_cmd_def request_def scoped_def tools_work(4-6) Let_def numeral_2_eq_2)
qed


text \<open>A codec for the manifests of the demonstration: the three numbers of the local run.\<close>

definition local_manifest :: "u64 \<Rightarrow> u64 \<Rightarrow> u64 \<Rightarrow> Manifest" where
  "local_manifest a b c = demo_manifest\<lparr>mf_local_submitted_transactions := Some a,
     mf_local_confirmed_transactions := Some b, mf_local_execution_spread_slots := Some c\<rparr>"

definition local_manifest_from :: "bytes \<Rightarrow> Manifest option" where
  "local_manifest_from bs = Some (local_manifest (of_nat (le_value (take 8 bs)))
     (of_nat (le_value (take 8 (drop 8 bs)))) (of_nat (le_value (drop 16 bs))))"

definition local_manifest_json :: "Manifest \<Rightarrow> bytes option" where
  "local_manifest_json m =
    (let num = (\<lambda>x. le_bytes 8 (unat (unwrap_or x (0 :: u64))));
         bs = num (mf_local_submitted_transactions m) @ num (mf_local_confirmed_transactions m)
           @ num (mf_local_execution_spread_slots m) in
     if local_manifest_from bs = Some m then Some bs else None)"

lemma le_value_u64: "of_nat (le_value (le_bytes 8 (unat (a :: u64)))) = a"
proof -
  have "unat a < 256 ^ 8" using unsigned_less [of a] by simp
  then show ?thesis by (simp add: le_value_le_bytes)
qed

lemma local_manifest_total: "local_manifest_json (local_manifest a b c) \<noteq> None"
  by (simp add: local_manifest_json_def local_manifest_def unwrap_or_def local_manifest_from_def
      le_value_u64 Let_def)

lemma local_manifest_generated:
  "generated_manifest (\<lambda>_. ''00'') 127 (Some d) json csv md
     = local_manifest (ucast (ld_submitted d)) (ucast (ld_confirmed d)) (ld_spread d)"
  by (simp add: generated_manifest_def local_manifest_def demo_manifest_def)

theorem full_demo_reports_witness:
  "(\<exists>summary. fst (full_demo sample_crypto sample_env id demo_lab (\<lambda>_. ''00'') demo_evidence
        local_manifest_json local_manifest_from good_disk (free_packages (cr_blake3 sample_crypto))
        program_validator ((Map.empty, {}), empty_world)) = Ok summary
      \<and> ds_included summary = 25 \<and> ds_second_included summary = 10
      \<and> unat (ds_simulated summary) + unat (ds_dropped summary) = 25
      \<and> ld_submitted (ds_local summary) = 5 \<and> ld_confirmed (ds_local summary) = 5
      \<and> ld_spread (ds_local summary) \<le> 30)
    \<or> (\<exists>p \<in> set sensitive_patterns. fst (full_demo sample_crypto sample_env id demo_lab (\<lambda>_. ''00'')
        demo_evidence local_manifest_json local_manifest_from good_disk
        (free_packages (cr_blake3 sample_crypto)) program_validator ((Map.empty, {}), empty_world))
        = Err (Bail (''sensitive pattern: '' @ p)))"
proof (rule full_demo_reports [OF demo_sample_env demo_sample_cohort demo_sample_cohort _ demo_lab_ok _ _
      good_disk_works, where program = "replicate 32 4" and directory = "''tmp''" and ?s1.0 = empty_world])
  show "distinct (map (\<lambda>i. saturating_add i 2) (map of_nat [0..<25] :: u8 list))"
    "distinct (map (\<lambda>i. saturating_add i 70) (map of_nat [0..<10] :: u8 list))"
    using saturating_distinct [of 25 2] saturating_distinct [of 10 70] by simp_all
  show "\<forall>i < 25. \<forall>j < 10. ticket_digest (saturating_add (of_nat i) 2)
      \<noteq> ticket_digest (saturating_add (of_nat j) 70)"
    using demo_sample_disjoint by (simp add: ticket_digest_inj)
  show "f_le (lb_f64 demo_lab) (f_decimal (lb_f64 demo_lab) 0 0) (f_decimal (lb_f64 demo_lab) 8 2)"
    "f_less (lb_f64 demo_lab) (f_decimal (lb_f64 demo_lab) 8 2) (f_decimal (lb_f64 demo_lab) 1 0)"
    by (simp_all add: demo_lab_def hundredths_def)
  show "\<forall>rs. ev_reports_json demo_evidence rs \<noteq> None" by (simp add: demo_evidence_def)
  have "ev_hash_hex demo_evidence = (\<lambda>_. ''00'')" by (simp add: demo_evidence_def)
  then show "\<forall>d json csv md. local_manifest_json
      (generated_manifest (ev_hash_hex demo_evidence) 127 (Some d) json csv md) \<noteq> None"
    using local_manifest_total by (simp only: local_manifest_generated) blast
  show "\<forall>m bs. local_manifest_json m = Some bs \<longrightarrow> local_manifest_from bs = Some m"
    by (auto simp: local_manifest_json_def Let_def split: if_splits)
  show "pk_memo_program (free_packages (cr_blake3 sample_crypto)) = Some (replicate 32 4)"
    by (simp add: free_packages_def)
  show "ln_tempdir program_validator empty_world = (Some ''tmp'', empty_world)"
    by (simp add: program_validator_def)
  show "\<forall>q \<in> set (ancestors (path_join ''tmp'' ''evidence'')). fst (Map.empty, {}) q = None" by simp
  have "length (cr_blake3 sample_crypto bs) = 32" for bs using sample_blake3_length by blast
  moreover have "digest_bytes (parent (cr_blake3 sample_crypto) l r) \<noteq> zero32" for l r
  proof -
    have "hd (digest_bytes (parent (cr_blake3 sample_crypto) l r)) = 109" "hd zero32 = 0"
      by (simp_all add: parent_def Digest32_hash_def hash_input_def sample_crypto_def ascii_def zero32_def)
    then show ?thesis by auto
  qed
  ultimately show "\<forall>l r. \<exists>d s2. run_localnet_demo program_validator (free_packages (cr_blake3 sample_crypto))
      (parent (cr_blake3 sample_crypto) l r) 25 (demo_memo (replicate 32 4)) empty_world = (Ok d, s2)"
    by (intro allI localnet_runs) (simp_all add: parent_def Digest32_hash_def)
qed

end
