(* ===== verification/MP_Tasks.thy ===== *)
theory MP_Tasks
  imports MP_Localnet
begin

text \<open>
  The tasks of \<open>xtask\<close> as a whole (\<open>main\<close> in \<open>src/xtask/src/main.rs\<close>): the dispatch, and what
  holds of every task: no validator is left running unless the process is aborted, and the tasks that
  only check change nothing.
\<close>

section \<open>The dispatch\<close>

datatype Task =
    Setup
  | Demo
  | FullDemo
  | Evaluate string
  | VerifyEvidence string
  | CleanDemo

text \<open>The directory \<open>evaluate\<close> writes to and \<open>verify-evidence\<close> reads unless told otherwise.\<close>

definition default_evidence :: string where
  "default_evidence = ''evidence/generated''"

text \<open>The result leaves out what is printed.\<close>

fun xtask_main ::
  "('sk, 'vk) crypto \<Rightarrow> env \<Rightarrow> (bytes \<Rightarrow> bytes) \<Rightarrow> ('g, 'f) lab \<Rightarrow> (bytes \<Rightarrow> string) \<Rightarrow> 'f evidence_env
     \<Rightarrow> (Manifest \<Rightarrow> bytes option) \<Rightarrow> (bytes \<Rightarrow> Manifest option) \<Rightarrow> disk \<Rightarrow> packages
     \<Rightarrow> ('kp, 'tx, 'n) localnet \<Rightarrow> Task \<Rightarrow> tree \<times> 'n \<Rightarrow> (unit, CliError) result \<times> tree \<times> 'n" where
  "xtask_main cr env draw lb hex ev manifest_json manifest_from dk pk ln Setup =
     on_world (setup_checks ln)"
| "xtask_main cr env draw lb hex ev manifest_json manifest_from dk pk ln Demo =
     bind_cmd (lift (demo lb 25)) (\<lambda>_. lift (Ok ()))"
| "xtask_main cr env draw lb hex ev manifest_json manifest_from dk pk ln FullDemo =
     bind_cmd (full_demo cr env draw lb hex ev manifest_json manifest_from dk pk ln) (\<lambda>_.
     bind_cmd (lift (map_err ProofError (merkle_benchmark (pk_blake3 pk) 1000))) (\<lambda>_.
     lift (Ok ())))"
| "xtask_main cr env draw lb hex ev manifest_json manifest_from dk pk ln (Evaluate directory) =
     bind_cmd (on_tree (generate lb hex ev manifest_json dk directory None)) (\<lambda>_. lift (Ok ()))"
| "xtask_main cr env draw lb hex ev manifest_json manifest_from dk pk ln (VerifyEvidence directory) =
     on_tree (on_files (verify ev manifest_from dk directory))"
| "xtask_main cr env draw lb hex ev manifest_json manifest_from dk pk ln CleanDemo = lift (Ok ())"

section \<open>What every task leaves behind\<close>

lemma idle_on_world: "maintains idle m \<Longrightarrow> maintains (\<lambda>p. idle (snd p)) (on_world m)"
  by (simp add: maintains_def on_world_def case_prod_beta)

lemma idle_on_tree: "maintains (\<lambda>p. idle (snd p)) (on_tree m)"
  by (simp add: maintains_def on_tree_def case_prod_beta)

lemma cleans_on_world: "cleans u idle m \<Longrightarrow> cleans u (\<lambda>p. idle (snd p)) (on_world m)"
  by (simp add: cleans_def on_world_def case_prod_beta)

lemma idle_full_demo:
  assumes "idle_world ln idle"
  shows "cleans (ln_unwinds ln) (\<lambda>p. idle (snd p))
    (full_demo cr env draw lb hex ev manifest_json manifest_from dk pk ln)"
  unfolding full_demo_def Let_def split_beta
  by (intro cleans_bind cleans_scoped cleans_on_world idle_localnet_demo [OF assms] maintains_cleans
      maintains_lift idle_on_world idle_on_tree maintains_request)
    (use assms in \<open>auto simp: idle_world_def\<close>)

lemma verify_reads_only: "snd (verify ev manifest_from dk path fs) = fs"
proof -
  have "maintains (\<lambda>fs'. fs' = fs) (verify ev manifest_from dk path)"
    unfolding verify_def
    by (intro maintains_bind maintains_lift) (simp_all add: maintains_def read_file_def)
  then show ?thesis by (simp add: maintains_def)
qed

text \<open>
  C25. No validator is left running: whatever property of the world only starting a validator can
  end, and killing it restores, holds after a task if it held before, also when the task fails
  anywhere, and also in the middle of the full demonstration. A task that panics keeps this in a
  build that unwinds, as \<open>cargo xtask\<close> makes; a build with the release profile aborts without
  the clean-up. The tasks that check the tools, run the small demonstration, verify
  evidence or clean up change no file at all.
\<close>

theorem tasks_clean_up:
  assumes "idle_world ln idle" "idle s"
  shows "(ln_unwinds ln
        \<or> fst (xtask_main cr env draw lb hex ev manifest_json manifest_from dk pk ln task (files, s)) \<noteq> Panic
      \<longrightarrow> idle (snd (snd (xtask_main cr env draw lb hex ev manifest_json manifest_from dk pk ln task (files, s)))))
    \<and> (task \<in> {Setup, Demo, CleanDemo} \<or> (\<exists>directory. task = VerifyEvidence directory) \<longrightarrow>
        fst (snd (xtask_main cr env draw lb hex ev manifest_json manifest_from dk pk ln task (files, s))) = files)"
proof -
  have checks: "maintains idle (setup_checks ln)"
    unfolding setup_checks_def
    by (intro maintains_bind maintains_lift idle_check_versions idle_must_run assms(1))
  have "cleans (ln_unwinds ln) (\<lambda>p. idle (snd p))
      (xtask_main cr env draw lb hex ev manifest_json manifest_from dk pk ln task)"
    by (cases task)
      (auto intro!: cleans_bind idle_full_demo [OF assms(1)]
        maintains_cleans [OF maintains_lift] maintains_cleans [OF idle_on_world [OF checks]]
        maintains_cleans [OF idle_on_tree])
  from this [unfolded cleans_def, rule_format, of "(files, s)"] assms(2)
  have "ln_unwinds ln
        \<or> fst (xtask_main cr env draw lb hex ev manifest_json manifest_from dk pk ln task (files, s)) \<noteq> Panic
      \<Longrightarrow> idle (snd (snd (xtask_main cr env draw lb hex ev manifest_json manifest_from dk pk ln task (files, s))))"
    by simp
  moreover have "fst (snd (on_world m p)) = fst p" for m :: "(unit, 'k) task" and p :: "tree \<times> 'k"
    by (simp add: on_world_def case_prod_beta)
  ultimately show ?thesis
    by (auto simp: bind_cmd_alt lift_def on_tree_def on_files_def on_world_def case_prod_beta verify_reads_only
        split: result.splits)
qed

text \<open>A machine whose only state is whether a validator runs; everything it is asked succeeds.\<close>

definition switch_world :: "(unit, unit, bool) localnet" where
  "switch_world = \<lparr>
     ln_endpoint = (\<lambda>_. \<lparr>ep_get_slot = None, ep_read_keypair_file = None,
       ep_get_latest_blockhash = None, ep_new_signed_with_payer = (\<lambda>_ _ _. ()),
       ep_simulate_transaction = (\<lambda>_. None), ep_get_fee_for_message = (\<lambda>_. None),
       ep_send_and_confirm = (\<lambda>_. None)\<rparr>),
     ln_after = (\<lambda>_ s. s), ln_get_account = (\<lambda>_ s. (None, s)),
     ln_read_keypair_file = (\<lambda>_ _. Some ()), ln_write_keypair_file = (\<lambda>_ _ s. (True, s)),
     ln_keypair_new = (\<lambda>s. ((), s)), ln_pubkey = (\<lambda>_. []), ln_show_pubkey = (\<lambda>_. []),
     ln_output = (\<lambda>_ s. (Some (True, []), s)), ln_spawn = (\<lambda>_ _. (True, True)),
     ln_kill = (\<lambda>_. False), ln_tempdir = (\<lambda>s. (Some ''tmp'', s)), ln_remove_dir = (\<lambda>_ s. s),
     ln_can_bind = (\<lambda>_ _. True), ln_is_file = (\<lambda>_ _. True), ln_workspace = Some ''repo'',
     ln_from_utf8 = (\<lambda>_. None), ln_parse_url = (\<lambda>_. None), ln_unwinds = True\<rparr>"

theorem tasks_clean_up_witness:
  "\<forall>cr env draw lb hex ev manifest_json manifest_from dk pk files.
     \<not> snd (snd (xtask_main cr env draw lb hex ev manifest_json manifest_from dk pk switch_world FullDemo
        (files, False)))"
proof -
  have "idle_world switch_world Not" "ln_unwinds switch_world"
    by (simp_all add: idle_world_def switch_world_def)
  with tasks_clean_up [OF this(1), of False] show ?thesis by blast
qed

end
