(* ===== verification/MP_Router.thy ===== *)
theory MP_Router
  imports MP_Service
begin

text \<open>
  The HTTP service around the coordinator (\<open>router\<close> and \<open>serve\<close> in
  \<open>src/crates/mirror-pool-coordinator/src/lib.rs\<close>): the route table, the body limit, the
  timeout of ten seconds, and requests that are handled concurrently.

  A handler runs without interruption from one \<open>await\<close> to the next; at an \<open>await\<close> other
  requests run, and the timeout may end it. Its state between two such sections is a
  \<open>stage\<close>. How axum finds the route of a request and decodes a body within the limit, with
  the status it answers otherwise, are arguments.
\<close>

section \<open>Routes and stages\<close>

datatype http_method = GET | POST | OtherMethod string

datatype handler = HandleHealth | HandleSubmit | HandleSeal | HandleProof

record http_request =
  rq_method :: http_method
  rq_path :: string
  rq_body :: bytes

record Router =
  ro_routes :: "(string \<times> http_method \<times> handler) list"
  ro_max_body :: nat
  ro_timeout_seconds :: nat

definition router :: "CoordinatorConfig \<Rightarrow> Router" where
  "router config =
    \<lparr>ro_routes =
       [(''/health'', GET, HandleHealth), (''/v1/tickets'', POST, HandleSubmit),
        (''/v1/cohort/seal'', POST, HandleSeal), (''/v1/proofs/{commitment}'', GET, HandleProof)],
     ro_max_body = cc_max_body_bytes config, ro_timeout_seconds = 10\<rparr>"

datatype content =
    HealthStatus
  | TicketAccepted Digest32
  | Sealed "(string \<times> string) list"
  | ProofJson CohortProof
  | ErrorText CoordinatorError
  | Rejection

text \<open>\<open>Aborted\<close>: the handler panicked and the connection is dropped.\<close>

datatype stage =
    Submitting JoinTicket
  | Limiting JoinTicket u64
  | Admitting JoinTicket u64
  | Sealing
  | Proving string
  | Answered nat content
  | Aborted

text \<open>
  The parameters: \<open>we_dispatch\<close> chooses a handler, with the text of the path parameter,
  \<open>we_json\<close> decodes a body of at most the given size; both may answer a status instead.
\<close>

record ('sk, 'vk) web =
  we_crypto :: "('sk, 'vk) crypto"
  we_dispatch :: "(string \<times> http_method \<times> handler) list \<Rightarrow> http_request \<Rightarrow> (handler \<times> string, nat) result"
  we_json :: "nat \<Rightarrow> bytes \<Rightarrow> (JoinTicket, nat) result"
  we_show_u32 :: "u32 \<Rightarrow> string"
  we_hex_decode :: "string \<Rightarrow> bytes option"

definition accept_request :: "('sk, 'vk) web \<Rightarrow> Router \<Rightarrow> http_request \<Rightarrow> stage" where
  "accept_request w r rq =
    (case we_dispatch w (ro_routes r) rq of
       Err status \<Rightarrow> Answered status Rejection
     | Panic \<Rightarrow> Aborted
     | Ok (h, segment) \<Rightarrow>
         (case h of
            HandleHealth \<Rightarrow> Answered 200 HealthStatus
          | HandleSubmit \<Rightarrow>
              (case we_json w (ro_max_body r) (rq_body rq) of
                 Err status \<Rightarrow> Answered status Rejection
               | Panic \<Rightarrow> Aborted
               | Ok ticket \<Rightarrow> Submitting ticket)
          | HandleSeal \<Rightarrow> Sealing
          | HandleProof \<Rightarrow> Proving segment))"

text \<open>What the clock, the slot source and the database do at the moment of a section.\<close>

record moment =
  mo_slot :: "u64 coordinator_result"
  mo_now :: nat
  mo_restart :: nat
  mo_env :: env

definition respond :: "('a \<Rightarrow> content) \<Rightarrow> 'a coordinator_result \<Rightarrow> stage" where
  "respond f r =
    (case r of
       Ok a \<Rightarrow> Answered 200 (f a)
     | Err e \<Rightarrow> Answered (status_code e) (ErrorText e)
     | Panic \<Rightarrow> Aborted)"

definition proceed :: "('a \<Rightarrow> stage) \<Rightarrow> 'a coordinator_result \<Rightarrow> stage" where
  "proceed next_stage r =
    (case r of
       Ok a \<Rightarrow> next_stage a
     | Err e \<Rightarrow> Answered (status_code e) (ErrorText e)
     | Panic \<Rightarrow> Aborted)"

text \<open>
  One section of a handler: reading the slot; the rate counter and the verification; the
  count and the insertion; sealing; reading a proof.
\<close>

fun advance :: "('sk, 'vk) web \<Rightarrow> moment \<Rightarrow> stage \<Rightarrow> Coordinator \<Rightarrow> stage \<times> Coordinator" where
  "advance w mo (Submitting ticket) co = (proceed (Limiting ticket) (mo_slot mo), co)"
| "advance w mo (Limiting ticket slot) co =
     (case check_rate (co_config co) (mo_now mo) (mo_restart mo) (co_rate co) of
        (m, rate) \<Rightarrow>
          (proceed (\<lambda>_. Admitting ticket slot)
             (and_then m (\<lambda>_. map_err (\<lambda>_. CoordinatorError.InvalidTicket)
                (JoinTicket_verify (we_crypto w) ticket slot (cc_binding (co_config co))))),
           co\<lparr>co_rate := rate\<rparr>))"
| "advance w mo (Admitting ticket slot) co =
     (case admit (we_crypto w) (co_config co) (mo_env mo) ticket (co_store co) of
        (m, store) \<Rightarrow> (respond TicketAccepted m, co\<lparr>co_store := store\<rparr>))"
| "advance w mo Sealing co =
     (case http_seal (we_crypto w) (we_show_u32 w) (mo_env mo) co of
        (m, co) \<Rightarrow> (respond Sealed m, co))"
| "advance w mo (Proving segment) co =
     (respond ProofJson (http_proof (we_hex_decode w) (mo_env mo) segment co), co)"
| "advance w mo (Answered status body) co = (Answered status body, co)"
| "advance w mo Aborted co = (Aborted, co)"

fun ended :: "stage \<Rightarrow> bool" where
  "ended (Answered _ _) = True"
| "ended Aborted = True"
| "ended _ = False"

section \<open>Concurrent requests\<close>

record service =
  sv_coordinator :: Coordinator
  sv_requests :: "nat \<rightharpoonup> http_request \<times> stage"

text \<open>
  A request arrives; an unfinished one runs its next section, or is cut off by the timeout
  while it waits. Requests and moments are arbitrary.
\<close>

inductive service_step :: "('sk, 'vk) web \<Rightarrow> json \<Rightarrow> service \<Rightarrow> service \<Rightarrow> bool"
  for w js where
  Arrive: "sv_requests s i = None \<Longrightarrow>
    service_step w js s (s\<lparr>sv_requests := (sv_requests s)(i \<mapsto>
      (rq, accept_request w (router (co_config (sv_coordinator s))) rq))\<rparr>)"
| Advance: "sv_requests s i = Some (rq, st) \<Longrightarrow> se_json (mo_env mo) = js \<Longrightarrow>
    advance w mo st (sv_coordinator s) = (st', co') \<Longrightarrow>
    service_step w js s \<lparr>sv_coordinator = co', sv_requests = (sv_requests s)(i \<mapsto> (rq, st'))\<rparr>"
| TimeOut: "sv_requests s i = Some (rq, st) \<Longrightarrow> \<not> ended st \<Longrightarrow>
    service_step w js s (s\<lparr>sv_requests := (sv_requests s)(i \<mapsto> (rq, Answered 408 Rejection))\<rparr>)"

definition start_service :: "Coordinator \<Rightarrow> service" where
  "start_service co = \<lparr>sv_coordinator = co, sv_requests = Map.empty\<rparr>"

section \<open>Every section is a sequence of atomic steps\<close>

lemma advance_steps:
  assumes "advance w mo st co = (st', co')"
    and "\<And>ticket slot. st = Admitting ticket slot \<Longrightarrow>
      JoinTicket_verify (we_crypto w) ticket slot (cc_binding (co_config co)) = Ok ()"
  shows "co' = co \<or> co' = run_step (we_crypto w) (RateStep (mo_now mo) (mo_restart mo)) co
    \<or> co' = run_step (we_crypto w) (SealStep (mo_env mo)) co
    \<or> (\<exists>ticket slot. co' = run_step (we_crypto w) (AdmitStep (mo_env mo) ticket slot) co)"
proof (cases st)
  case (Admitting ticket slot)
  then have "co' = run_step (we_crypto w) (AdmitStep (mo_env mo) ticket slot) co"
    using assms by (auto split: prod.splits)
  then show ?thesis by blast
qed (use assms(1) in \<open>auto simp: http_seal_def split: prod.splits\<close>)

lemma advance_inv:
  assumes "coord_inv (we_crypto w) js config co" "se_json (mo_env mo) = js"
    and "advance w mo st co = (st', co')"
    and "\<And>ticket slot. st = Admitting ticket slot \<Longrightarrow>
      JoinTicket_verify (we_crypto w) ticket slot (cc_binding config) = Ok ()"
  shows "coord_inv (we_crypto w) js config co'" "extends (co_store co) (co_store co')"
proof -
  have "co_config co = config" using assms(1) by (simp add: coord_inv_def)
  then consider "co' = co"
    | step where "co' = run_step (we_crypto w) step co" "step_json js step"
    using advance_steps [OF assms(3)] assms(2,4) by fastforce
  then have "coord_inv (we_crypto w) js config co' \<and> extends (co_store co) (co_store co')"
  proof cases
    case 1
    then show ?thesis using assms(1) by simp
  next
    case 2
    then show ?thesis using run_step_inv [OF assms(1)] run_step_extends [OF assms(1)] by blast
  qed
  then show "coord_inv (we_crypto w) js config co'" "extends (co_store co) (co_store co')" by auto
qed

section \<open>Answers are true\<close>

text \<open>What an answer says of the database.\<close>

definition round_root :: "CoordinatorConfig \<Rightarrow> Db \<Rightarrow> RootRow \<Rightarrow> bool" where
  "round_root config db row \<longleftrightarrow> row \<in> set (db_cohort_roots db)
     \<and> root_key (digest_bytes (tb_pool_id (cc_binding config))) (uint (tb_round_id (cc_binding config))) row"

fun content_true :: "('sk, 'vk) web \<Rightarrow> CoordinatorConfig \<Rightarrow> Db \<Rightarrow> content \<Rightarrow> bool" where
  "content_true w config db (TicketAccepted c) \<longleftrightarrow>
     (\<exists>row \<in> set (db_join_tickets db). tr_commitment row = digest_bytes c
        \<and> ticket_of (digest_bytes (tb_pool_id (cc_binding config)))
            (uint (tb_round_id (cc_binding config))) row)"
| "content_true w config db (Sealed shown) \<longleftrightarrow>
     (\<exists>row n. round_root config db row \<and> ro_cohort_size row = uint n
        \<and> shown = [(''count'', we_show_u32 w n), (''root'', cr_hex_encode (we_crypto w) (ro_root row))])"
| "content_true w config db (ProofJson p) \<longleftrightarrow>
     (\<exists>row. round_root config db row
        \<and> CohortProof_verify (cr_blake3 (we_crypto w)) p (Digest32 (ro_root row))
            (tb_round_id (cc_binding config)) = Ok ())"
| "content_true w config db _ \<longleftrightarrow> True"

lemma content_true_extends:
  "content_true w config db body \<Longrightarrow> extends db db' \<Longrightarrow> content_true w config db' body"
  by (cases body) (fastforce simp: extends_def round_root_def)+

lemma sealed_root_row:
  assumes "store_inv blake3 (se_json env) db"
    and "seal_cohort blake3 env pool round_id minimum db = (Ok (root, n), db')"
  obtains row where "row \<in> set (db_cohort_roots db')"
    "root_key (digest_bytes pool) (uint round_id) row" "ro_root row = digest_bytes root"
    "ro_cohort_size row = uint n"
proof (cases "fetch_root env pool round_id db")
  case (Ok found)
  show ?thesis
  proof (cases found)
    case None
    have "unique_rows same_proof_key (db_cohort_proofs db)" using assms(1) by (simp add: store_inv_def)
    with assms(2) Ok None show ?thesis
      by (auto elim!: seal_writes intro!: that simp: root_key_def)
  next
    case (Some rn)
    then have db': "db' = db" "rn = (root, n)"
      using assms(2) Ok by (simp_all add: seal_cohort_eq)
    then obtain row where "query_row (root_key (digest_bytes pool) (uint round_id)) (db_cohort_roots db)
        = Some row" "ro_root row = digest_bytes root" "ro_cohort_size row = uint n"
      using Ok Some by (auto simp: fetch_root_def result_simps digest_Ok_iff unsigned_of_int take_bit_int_eq_self
          split: option.splits if_splits)
    then show ?thesis using that db'(1) by (auto dest: query_row_SomeD)
  qed
qed (use assms(2) in \<open>auto simp: seal_cohort_eq\<close>)

lemma respond_Answered:
  assumes "respond f r = Answered status body"
  shows "(\<exists>a. r = Ok a \<and> status = 200 \<and> body = f a) \<or> (\<exists>e. r = Err e \<and> body = ErrorText e)"
  using assms by (cases r) (auto simp: respond_def)

lemma submitted_answer_true:
  assumes "admit cr config env ticket db = (Ok c, db')"
    and "JoinTicket_verify cr ticket slot (cc_binding config) = Ok ()"
  shows "\<exists>row \<in> set (db_join_tickets db'). tr_commitment row = digest_bytes c
    \<and> ticket_of (digest_bytes (tb_pool_id (cc_binding config)))
        (uint (tb_round_id (cc_binding config))) row"
  using assms(1)
proof (cases rule: admit_cases)
  case 2
  then have "accept_ticket cr env ticket db = (Ok c, db')"
    by (cases "accept_ticket cr env ticket db") (auto simp: map_err_Ok_iff eq_commute [of "Ok c"])
  then show ?thesis
    by (rule accept_ticket_writes)
      (use assms(2) in \<open>auto simp: verify_ticket_Ok_iff ticket_of_def\<close>)
qed simp

lemma proof_answer_true:
  assumes "store_inv blake3 js db" "json_ok js" "se_json env = js"
    and "fetch_proof env pool round_id c db = Ok (Some p)"
  shows "\<exists>row \<in> set (db_cohort_roots db). root_key (digest_bytes pool) (uint round_id) row
    \<and> CohortProof_verify blake3 p (Digest32 (ro_root row)) round_id = Ok ()"
proof -
  from assms(4) obtain row where row: "row \<in> set (db_cohort_proofs db)"
    "proof_key (digest_bytes pool) (uint round_id) (digest_bytes c) row"
    "js_proof_from_str js (pf_proof_json row) = Some p"
    using assms(3) fetch_proof_SomeD by blast
  from row(1,2) assms(1) obtain r where r: "r \<in> set (db_cohort_roots db)"
    "root_key (digest_bytes pool) (uint round_id) r"
    by (auto simp: store_inv_def proof_key_def)
  from assms(1) r(1) obtain root n where root: "ro_root r = digest_bytes root"
    "sealed_cohort blake3 js db (ro_pool_id r) (ro_round_id r) root n"
    by (rule store_inv_root)
  have "sealed_cohort blake3 js db (digest_bytes pool) (uint round_id) root n"
    using root(2) r(2) by (simp add: root_key_def)
  from this row(1,2) assms(2) have "CohortProof_verify blake3 p root round_id = Ok ()"
    by (rule sealed_proof_row) (use row(3) in simp)
  then show ?thesis using r root(1) by (intro bexI [of _ r]) simp_all
qed

lemma advance_answer_true:
  assumes "coord_inv (we_crypto w) (se_json (mo_env mo)) config co" "json_ok (se_json (mo_env mo))"
    and "advance w mo st co = (Answered status body, co')" "\<not> ended st"
    and "\<And>ticket slot. st = Admitting ticket slot \<Longrightarrow>
      JoinTicket_verify (we_crypto w) ticket slot (cc_binding config) = Ok ()"
  shows "content_true w config (co_store co') body"
proof -
  have config: "co_config co = config" using assms(1) by (simp add: coord_inv_def)
  have inv: "store_inv (cr_blake3 (we_crypto w)) (se_json (mo_env mo)) (co_store co)"
    using assms(1) reachable_inv by (auto simp: coord_inv_def)
  show ?thesis
  proof (cases st)
    case (Admitting ticket slot)
    obtain m store where ad: "admit (we_crypto w) config (mo_env mo) ticket (co_store co) = (m, store)"
      by (cases "admit (we_crypto w) config (mo_env mo) ticket (co_store co)")
    then have "respond TicketAccepted m = Answered status body" "co_store co' = store"
      using assms(3) Admitting config by auto
    then show ?thesis
      using respond_Answered submitted_answer_true [OF _ assms(5) [OF Admitting]] ad by fastforce
  next
    case Sealing
    obtain m store where seal: "seal_cohort (cr_blake3 (we_crypto w)) (mo_env mo)
        (tb_pool_id (cc_binding config)) (tb_round_id (cc_binding config))
        (cc_minimum_participants config) (co_store co) = (m, store)"
      by (cases "seal_cohort (cr_blake3 (we_crypto w)) (mo_env mo)
        (tb_pool_id (cc_binding config)) (tb_round_id (cc_binding config))
        (cc_minimum_participants config) (co_store co)")
    let ?shown = "and_then (map_err Store m) (\<lambda>(root, n).
      Ok [(''count'', we_show_u32 w n), (''root'', to_hex (cr_hex_encode (we_crypto w)) root)])"
    have "respond Sealed ?shown = Answered status body" "co_store co' = store"
      using assms(3) Sealing seal config by (auto simp: http_seal_def seal_round_def)
    then consider root n where "m = Ok (root, n)" "body = Sealed
        [(''count'', we_show_u32 w n), (''root'', to_hex (cr_hex_encode (we_crypto w)) root)]"
      | e where "body = ErrorText e"
      using respond_Answered [of Sealed ?shown] by (fastforce simp: result_simps map_err_Ok_iff)
    then show ?thesis
    proof cases
      case 1
      from sealed_root_row [OF inv seal [unfolded 1(1)]] obtain row where
        "row \<in> set (db_cohort_roots store)"
        "root_key (digest_bytes (tb_pool_id (cc_binding config)))
          (uint (tb_round_id (cc_binding config))) row"
        "ro_root row = digest_bytes root" "ro_cohort_size row = uint n" .
      then show ?thesis unfolding 1(2) \<open>co_store co' = store\<close> content_true.simps
        by (intro exI [of _ row] exI [of _ n]) (simp add: round_root_def to_hex_def)
    qed simp
  next
    case (Proving segment)
    let ?found = "http_proof (we_hex_decode w) (mo_env mo) segment co"
    have r: "respond ProofJson ?found = Answered status body" "co' = co"
      using assms(3) Proving by auto
    from respond_Answered [OF r(1)] show ?thesis
    proof
      assume "\<exists>p. ?found = Ok p \<and> status = 200 \<and> body = ProofJson p"
      then obtain p c where p: "body = ProofJson p"
        "fetch_proof (mo_env mo) (tb_pool_id (cc_binding config)) (tb_round_id (cc_binding config)) c
          (co_store co) = Ok (Some p)"
        using config by (auto simp: http_proof_def proof_of_def result_simps map_err_Ok_iff)
      then show ?thesis
        using proof_answer_true [OF inv assms(2) refl p(2)] by (auto simp: p(1) r(2) round_root_def)
    qed auto
  qed (use assms(3,4) in \<open>auto simp: proceed_def split: prod.splits result.splits\<close>)
qed

section \<open>The invariant of the service\<close>

definition web_ok :: "('sk, 'vk) web \<Rightarrow> bool" where
  "web_ok w \<longleftrightarrow>
     (\<forall>routes rq h segment. we_dispatch w routes rq = Ok (h, segment) \<longrightarrow>
        (\<exists>path. (path, rq_method rq, h) \<in> set routes))
   \<and> (\<forall>limit body ticket. we_json w limit body = Ok ticket \<longrightarrow> length body \<le> limit)"

text \<open>Where the stages of a request come from, and what they say.\<close>

fun stage_true :: "('sk, 'vk) web \<Rightarrow> CoordinatorConfig \<Rightarrow> Db \<Rightarrow> stage \<Rightarrow> bool" where
  "stage_true w config db (Admitting ticket slot) \<longleftrightarrow>
     JoinTicket_verify (we_crypto w) ticket slot (cc_binding config) = Ok ()"
| "stage_true w config db (Answered status body) \<longleftrightarrow> content_true w config db body"
| "stage_true w config db _ \<longleftrightarrow> True"

fun content_route :: "content \<Rightarrow> handler option" where
  "content_route (TicketAccepted _) = Some HandleSubmit"
| "content_route (Sealed _) = Some HandleSeal"
| "content_route (ProofJson _) = Some HandleProof"
| "content_route _ = None"

fun stage_route :: "stage \<Rightarrow> handler option" where
  "stage_route (Submitting _) = Some HandleSubmit"
| "stage_route (Limiting _ _) = Some HandleSubmit"
| "stage_route (Admitting _ _) = Some HandleSubmit"
| "stage_route Sealing = Some HandleSeal"
| "stage_route (Proving _) = Some HandleProof"
| "stage_route (Answered _ body) = content_route body"
| "stage_route Aborted = None"

definition routed :: "CoordinatorConfig \<Rightarrow> http_request \<Rightarrow> handler option \<Rightarrow> bool" where
  "routed config rq h \<longleftrightarrow>
     (h = Some HandleSubmit \<longrightarrow> rq_method rq = POST \<and> length (rq_body rq) \<le> cc_max_body_bytes config)
   \<and> (h = Some HandleSeal \<longrightarrow> rq_method rq = POST)
   \<and> (h = Some HandleProof \<longrightarrow> rq_method rq = GET)"

lemma routed_None [simp]: "routed config rq None"
  by (simp add: routed_def)

lemma accepted_routed:
  assumes "web_ok w"
  shows "routed config rq (stage_route (accept_request w (router config) rq))"
proof -
  have "rq_method rq = POST" if "we_dispatch w (ro_routes (router config)) rq = Ok (h, segment)"
    "h \<in> {HandleSubmit, HandleSeal}" for h segment
    using assms that unfolding web_ok_def by (fastforce simp: router_def)
  moreover have "rq_method rq = GET" if "we_dispatch w (ro_routes (router config)) rq = Ok (HandleProof, segment)"
    for segment
    using assms that unfolding web_ok_def by (fastforce simp: router_def)
  moreover have "length (rq_body rq) \<le> cc_max_body_bytes config"
    if "we_json w (ro_max_body (router config)) (rq_body rq) = Ok ticket" for ticket
    using assms that unfolding web_ok_def by (fastforce simp: router_def)
  ultimately show ?thesis
    by (auto simp: accept_request_def routed_def split: result.splits handler.splits)
qed

lemma accepted_true: "stage_true w config db (accept_request w r rq)"
  by (auto simp: accept_request_def split: result.splits handler.splits)

lemma advance_route:
  assumes "advance w mo st co = (st', co')"
  shows "stage_route st' = stage_route st \<or> stage_route st' = None"
  using assms
  by (cases st) (auto simp: proceed_def respond_def split: prod.splits result.splits)

lemma advance_admitting:
  assumes "advance w mo st co = (Admitting ticket slot, co')"
  shows "JoinTicket_verify (we_crypto w) ticket slot (cc_binding (co_config co)) = Ok ()"
  using assms
  by (cases st)
    (auto simp: proceed_def respond_def and_then_Ok_iff map_err_Ok_iff split: prod.splits result.splits)

definition service_inv :: "('sk, 'vk) web \<Rightarrow> json \<Rightarrow> CoordinatorConfig \<Rightarrow> service \<Rightarrow> bool" where
  "service_inv w js config s \<longleftrightarrow> coord_inv (we_crypto w) js config (sv_coordinator s)
     \<and> (\<forall>i rq st. sv_requests s i = Some (rq, st) \<longrightarrow>
          stage_true w config (co_store (sv_coordinator s)) st \<and> routed config rq (stage_route st))"

lemma stage_true_extends:
  "stage_true w config db st \<Longrightarrow> extends db db' \<Longrightarrow> stage_true w config db' st"
  by (cases st) (auto intro: content_true_extends)

lemma advance_true:
  assumes "coord_inv (we_crypto w) js config co" "json_ok js" "se_json (mo_env mo) = js"
    and "advance w mo st co = (st', co')" "stage_true w config (co_store co) st"
  shows "stage_true w config (co_store co') st'"
proof (cases "ended st")
  case True
  then show ?thesis using assms(4,5) by (cases st) auto
next
  case False
  have admitting: "JoinTicket_verify (we_crypto w) ticket slot (cc_binding config) = Ok ()"
    if "st = Admitting ticket slot" for ticket slot
    using assms(5) that by simp
  have "co_config co = config" using assms(1) by (simp add: coord_inv_def)
  then show ?thesis
    using advance_answer_true [of w mo config co st] advance_admitting [of w mo st co] admitting
      assms(1-4) False
    by (cases st') auto
qed

lemma service_step_inv:
  assumes "service_step w js s s'" "service_inv w js config s" "json_ok js" "web_ok w"
  shows "service_inv w js config s'"
  using assms(1,2)
proof (induction rule: service_step.induct)
  case (Arrive s i rq)
  then have "co_config (sv_coordinator s) = config"
    by (simp add: service_inv_def coord_inv_def)
  then show ?case using Arrive accepted_true accepted_routed [OF assms(4)]
    by (auto simp: service_inv_def)
next
  case (Advance s i rq st mo st' co')
  let ?co = "sv_coordinator s"
  have inv: "coord_inv (we_crypto w) js config ?co" "stage_true w config (co_store ?co) st"
    "routed config rq (stage_route st)"
    using Advance(1,4) by (simp_all add: service_inv_def)
  have adm: "JoinTicket_verify (we_crypto w) ticket slot (cc_binding config) = Ok ()"
    if "st = Admitting ticket slot" for ticket slot
    using inv(2) that by simp
  have "coord_inv (we_crypto w) js config co'"
    by (rule advance_inv(1) [OF inv(1) Advance(2,3)]) (rule adm)
  moreover have "extends (co_store ?co) (co_store co')"
    by (rule advance_inv(2) [OF inv(1) Advance(2,3)]) (rule adm)
  moreover have "stage_true w config (co_store co') st'"
    using inv(1) assms(3) Advance(2,3) inv(2) by (rule advance_true)
  moreover have "routed config rq (stage_route st')"
    using advance_route [OF Advance(3)] inv(3) by auto
  ultimately show ?case using Advance(4) stage_true_extends
    by (fastforce simp: service_inv_def)
next
  case (TimeOut s i rq st)
  then show ?case by (auto simp: service_inv_def)
qed

lemma service_history_inv:
  assumes "(service_step w js)\<^sup>*\<^sup>* s s'" "service_inv w js config s" "json_ok js" "web_ok w"
  shows "service_inv w js config s'"
  using assms(1,2)
  by (induction rule: rtranclp_induct) (auto intro: service_step_inv [OF _ _ assms(3,4)])

lemma start_service_inv:
  assumes "memory_store env0 = (Ok (), db0)"
  shows "service_inv w js config (start_service (Coordinator_new config db0 now))"
  using coordinator_new_inv [OF assms] by (simp add: service_inv_def start_service_def)

text \<open>
  C30. Every answer of the service is true, in any interleaving of concurrent requests, whatever
  they contain, however long they wait, whether they time out, and wherever SQLite and the
  slot source fail. The cohort never exceeds the configured maximum; an accepted ticket is
  stored and came with a \<open>POST\<close> whose body respects the size limit; a reported root and
  count are those stored for the round; a served proof verifies against this root.
\<close>

theorem service_answers_true:
  assumes "memory_store env0 = (Ok (), db0)" "json_ok js" "web_ok w"
    and "(service_step w js)\<^sup>*\<^sup>* (start_service (Coordinator_new config db0 now)) s"
    and "db = co_store (sv_coordinator s)"
  shows "cohort_entries config db \<le> unat (cc_maximum_participants config)
   \<and> (\<forall>i rq status c. sv_requests s i = Some (rq, Answered status (TicketAccepted c)) \<longrightarrow>
        rq_method rq = POST \<and> length (rq_body rq) \<le> cc_max_body_bytes config
        \<and> (\<exists>row \<in> set (db_join_tickets db). tr_commitment row = digest_bytes c
             \<and> admitted (we_crypto w) config row))
   \<and> (\<forall>i rq status shown. sv_requests s i = Some (rq, Answered status (Sealed shown)) \<longrightarrow>
        rq_method rq = POST
        \<and> (\<exists>row n. round_root config db row \<and> ro_cohort_size row = uint n
             \<and> shown = [(''count'', we_show_u32 w n), (''root'', cr_hex_encode (we_crypto w) (ro_root row))]))
   \<and> (\<forall>i rq status p. sv_requests s i = Some (rq, Answered status (ProofJson p)) \<longrightarrow>
        rq_method rq = GET
        \<and> (\<exists>row. round_root config db row
             \<and> CohortProof_verify (cr_blake3 (we_crypto w)) p (Digest32 (ro_root row))
                 (tb_round_id (cc_binding config)) = Ok ()))"
proof -
  have inv: "service_inv w js config s"
    using assms(4) start_service_inv [OF assms(1)] assms(2,3) by (rule service_history_inv)
  then have rows: "\<forall>row \<in> set (db_join_tickets db). admitted (we_crypto w) config row"
    and size: "cohort_entries config db \<le> unat (cc_maximum_participants config)"
    by (simp_all add: service_inv_def coord_inv_def assms(5))
  have each: "content_true w config db body \<and> routed config rq (content_route body)"
    if "sv_requests s i = Some (rq, Answered status body)" for i rq status body
    using inv that unfolding service_inv_def assms(5) by fastforce
  show ?thesis using size rows each by (fastforce simp: routed_def)
qed

section \<open>A request on its own\<close>

text \<open>
  Without other requests in between, the three sections of a submission are the handler
  \<open>submit\<close> as a whole.
\<close>

lemma step_request:
  assumes "advance w mo st co = (st', co')" "se_json (mo_env mo) = js"
  shows "service_step w js \<lparr>sv_coordinator = co, sv_requests = rs(i \<mapsto> (rq, st))\<rparr>
    \<lparr>sv_coordinator = co', sv_requests = rs(i \<mapsto> (rq, st'))\<rparr>"
  using service_step.Advance [of "\<lparr>sv_coordinator = co, sv_requests = rs(i \<mapsto> (rq, st))\<rparr>" i rq st mo js w st' co']
    assms by simp

lemma submit_sections:
  fixes mo :: moment
  assumes "se_json (mo_env mo) = js"
    and "http_submit (we_crypto w) (mo_env mo) (mo_slot mo) (mo_now mo) (mo_restart mo) ticket co = (m, co')"
  shows "(service_step w js)\<^sup>*\<^sup>* \<lparr>sv_coordinator = co, sv_requests = rs(i \<mapsto> (rq, Submitting ticket))\<rparr>
    \<lparr>sv_coordinator = co', sv_requests = rs(i \<mapsto> (rq, respond TicketAccepted m))\<rparr>"
proof -
  note step = step_request [of w mo _ _ _ _ js rs i rq, OF _ assms(1)]
  show ?thesis
  proof (cases "mo_slot mo")
    case (Ok slot)
    let ?limited = "check_rate (co_config co) (mo_now mo) (mo_restart mo) (co_rate co)"
    let ?co1 = "co\<lparr>co_rate := snd ?limited\<rparr>"
    let ?checked = "and_then (fst ?limited) (\<lambda>_. map_err (\<lambda>_. CoordinatorError.InvalidTicket)
      (JoinTicket_verify (we_crypto w) ticket slot (cc_binding (co_config co))))"
    have first: "service_step w js \<lparr>sv_coordinator = co, sv_requests = rs(i \<mapsto> (rq, Submitting ticket))\<rparr>
        \<lparr>sv_coordinator = co, sv_requests = rs(i \<mapsto> (rq, Limiting ticket slot))\<rparr>"
      by (rule step) (simp add: Ok proceed_def)
    have second: "service_step w js \<lparr>sv_coordinator = co, sv_requests = rs(i \<mapsto> (rq, Limiting ticket slot))\<rparr>
        \<lparr>sv_coordinator = ?co1,
         sv_requests = rs(i \<mapsto> (rq, proceed (\<lambda>_. Admitting ticket slot) ?checked))\<rparr>"
      by (rule step) (simp add: case_prod_beta)
    show ?thesis
    proof (cases ?checked)
      case checked: (Ok u)
      let ?ad = "admit (we_crypto w) (co_config co) (mo_env mo) ticket (co_store co)"
      have third: "service_step w js
          \<lparr>sv_coordinator = ?co1, sv_requests = rs(i \<mapsto> (rq, Admitting ticket slot))\<rparr>
          \<lparr>sv_coordinator = ?co1\<lparr>co_store := snd ?ad\<rparr>,
           sv_requests = rs(i \<mapsto> (rq, respond TicketAccepted (fst ?ad)))\<rparr>"
        by (rule step) (simp add: case_prod_beta)
      have "m = fst ?ad" "co' = ?co1\<lparr>co_store := snd ?ad\<rparr>"
        using assms(2) Ok checked by (auto simp: http_submit_def submit_ticket_def Let_def case_prod_beta)
      then show ?thesis using first second third checked by (auto simp: proceed_def)
    qed (use assms(2) Ok first second in
        \<open>auto simp: http_submit_def submit_ticket_def Let_def case_prod_beta proceed_def respond_def\<close>)
  next
    case (Err e)
    then show ?thesis using step [of "Submitting ticket" co] assms(2)
      by (auto simp: http_submit_def proceed_def respond_def)
  next
    case Panic
    then show ?thesis using step [of "Submitting ticket" co] assms(2)
      by (auto simp: http_submit_def proceed_def respond_def)
  qed
qed

section \<open>A concrete service\<close>

lemma sample_admit:
  assumes "length (db_join_tickets db) < 3"
    and "\<forall>r \<in> set (db_join_tickets db). tr_commitment r \<noteq> digest_bytes (ticket_digest k)
      \<and> tr_coordination_key r \<noteq> replicate 32 k"
  shows "admit sample_crypto sample_service sample_env (sample_ticket k) db =
    (Ok (ticket_digest k), db\<lparr>db_join_tickets := db_join_tickets db @ [sample_row k],
       db_immutable_events := db_immutable_events db @ [sample_event k]\<rparr>)"
proof -
  let ?f = "filter (ticket_of (digest_bytes (tb_pool_id sample_binding)) 7) (db_join_tickets db)"
  have len: "length ?f < 3" using assms(1) length_filter_le le_less_trans by blast
  then have "ticket_count sample_env (tb_pool_id sample_binding) 7 db = Ok (of_nat (length ?f))"
    by (simp add: ticket_count_def as_i64_def healthy_simps [OF sample_env_healthy] Let_def)
  moreover have "(of_nat (length ?f) :: u32) < 3"
    unfolding word_less_nat_alt using len by (simp add: unsigned_of_nat take_bit_nat_eq_self)
  moreover have "cc_binding sample_service = sample_binding" "tb_round_id sample_binding = 7"
    "cc_maximum_participants sample_service = 3"
    by (simp_all add: sample_service_def sample_binding_def)
  ultimately show ?thesis
    by (simp add: admit_def sample_accept [OF assms(2)] leD)
qed

text \<open>Routes by equality, and one ticket that every body of at most the limit stands for.\<close>

definition sample_web :: "('a, 'b) crypto \<Rightarrow> ('a, 'b) web" where
  "sample_web cr = \<lparr>we_crypto = cr,
     we_dispatch = (\<lambda>routes rq. case find (\<lambda>(path, m, _). path = rq_path rq \<and> m = rq_method rq) routes of
        None \<Rightarrow> Err 404 | Some (_, _, h) \<Rightarrow> Ok (h, [])),
     we_json = (\<lambda>limit body. if length body \<le> limit then Ok (sample_ticket 9) else Err 413),
     we_show_u32 = (\<lambda>_. []), we_hex_decode = (\<lambda>_. None)\<rparr>"

lemma sample_web_ok: "web_ok (sample_web cr)"
  by (auto simp: web_ok_def sample_web_def find_Some_iff split: option.splits if_splits)
    (metis fst_conv nth_mem snd_conv)

definition sample_post :: http_request where
  "sample_post = \<lparr>rq_method = POST, rq_path = ''/v1/tickets'', rq_body = [1, 2, 3]\<rparr>"

lemma sample_submission_served:
  "\<exists>co. (service_step (sample_web sample_crypto) sample_json)\<^sup>*\<^sup>*
     (start_service (Coordinator_new sample_service (snd (memory_store sample_env)) 0))
     \<lparr>sv_coordinator = co, sv_requests = [0 \<mapsto> (sample_post, Answered 200 (TicketAccepted (ticket_digest 9)))]\<rparr>"
proof -
  let ?w = "sample_web sample_crypto"
  let ?co = "Coordinator_new sample_service (snd (memory_store sample_env)) 0"
  let ?mo = "\<lparr>mo_slot = Ok 99, mo_now = 1, mo_restart = 1, mo_env = sample_env\<rparr>"
  have tables: "co_config ?co = sample_service" "co_store ?co = snd (memory_store sample_env)"
    "co_rate ?co = \<lparr>rs_window_started = 0, rs_accepted = 0\<rparr>"
    by (simp_all add: Coordinator_new_def)
  have "accept_request ?w (router sample_service) sample_post = Submitting (sample_ticket 9)"
    by (simp add: accept_request_def sample_web_def router_def sample_post_def sample_service_def)
  from service_step.Arrive [of "start_service ?co" 0 ?w sample_json sample_post] this
  have first: "service_step ?w sample_json (start_service ?co)
      \<lparr>sv_coordinator = ?co, sv_requests = [0 \<mapsto> (sample_post, Submitting (sample_ticket 9))]\<rparr>"
    by (simp add: start_service_def tables)
  have "check_rate sample_service 1 1 \<lparr>rs_window_started = 0, rs_accepted = 0\<rparr>
      = (Ok (), \<lparr>rs_window_started = 0, rs_accepted = saturating_add 0 1\<rparr>)"
    by (simp add: check_rate_def sample_service_def WINDOW_def)
  moreover have "cc_binding sample_service = sample_binding" by (simp add: sample_service_def)
  ultimately obtain co where sub:
    "http_submit sample_crypto sample_env (Ok 99) 1 1 (sample_ticket 9) ?co = (Ok (ticket_digest 9), co)"
    by (simp add: http_submit_def submit_ticket_def tables sample_ticket_accepted
        sample_admit [of "snd (memory_store sample_env)"] sample_open_tickets)
  have "we_crypto ?w = sample_crypto" by (simp add: sample_web_def)
  with sub first submit_sections [of ?mo sample_json ?w "sample_ticket 9" ?co "Ok (ticket_digest 9)" co
      Map.empty 0 sample_post]
  show ?thesis by (auto simp: sample_env_json respond_def intro: converse_rtranclp_into_rtranclp)
qed

theorem service_answers_true_witness:
  "\<exists>s rq. (service_step (sample_web sample_crypto) sample_json)\<^sup>*\<^sup>*
       (start_service (Coordinator_new sample_service (snd (memory_store sample_env)) 0)) s
     \<and> sv_requests s 0 = Some (rq, Answered 200 (TicketAccepted (ticket_digest 9)))
     \<and> (\<exists>row \<in> set (db_join_tickets (co_store (sv_coordinator s))).
          tr_commitment row = digest_bytes (ticket_digest 9) \<and> admitted sample_crypto sample_service row)"
proof -
  obtain co where run: "(service_step (sample_web sample_crypto) sample_json)\<^sup>*\<^sup>*
     (start_service (Coordinator_new sample_service (snd (memory_store sample_env)) 0))
     \<lparr>sv_coordinator = co, sv_requests = [0 \<mapsto> (sample_post, Answered 200 (TicketAccepted (ticket_digest 9)))]\<rparr>"
    using sample_submission_served by blast
  have w: "we_crypto (sample_web sample_crypto) = sample_crypto" by (simp add: sample_web_def)
  let ?s = "\<lparr>sv_coordinator = co,
    sv_requests = [0 \<mapsto> (sample_post, Answered 200 (TicketAccepted (ticket_digest 9)))]\<rparr>"
  have answered: "sv_requests ?s 0 = Some (sample_post, Answered 200 (TicketAccepted (ticket_digest 9)))"
    by simp
  from service_answers_true [OF sample_open sample_json_ok sample_web_ok run refl, unfolded w] answered
  have "\<exists>row \<in> set (db_join_tickets (co_store (sv_coordinator ?s))).
      tr_commitment row = digest_bytes (ticket_digest 9) \<and> admitted sample_crypto sample_service row"
    by blast
  with run answered show ?thesis by blast
qed

end
