(* ===== verification/MP_Commands.thy ===== *)
theory MP_Commands
  imports MP_Localnet MP_Router
begin

text \<open>
  The command lines as a whole: the subcommands of \<open>mirror-pool\<close> with their defaults and
  \<open>main\<close> (\<open>src/crates/mirror-pool-cli/src/main.rs\<close>), and the tasks of \<open>xtask\<close> with theirs
  (\<open>src/xtask/src/main.rs\<close>). Parsing is done by \<open>clap\<close>; a command arrives as a value.

  What a command finds on the machine (disk, clock, random bytes, other programs, endpoints,
  serialisers) is the record \<open>machine\<close>; what it changes is the record \<open>shell\<close>: the file tree, the
  databases, the calls made to an endpoint and the tickets posted.
\<close>

section \<open>Subcommands\<close>

text \<open>Addresses of endpoints have the type \<open>'u\<close>, floating-point numbers \<open>'f\<close>.\<close>

datatype PoolCommand =
    Create string string u32 u32 BackendArg u64 u64
  | Inspect string

datatype 'u RoundCommand =
    Open string string u64 "u64 option" 'u
  | Inspect string

datatype 'u TicketCommand =
    Create string string
  | Submit string 'u

datatype ProofCommand = Verify string string u64

datatype 'u ActionCommand =
    Prepare string string
  | Simulate string
  | Execute string bool bool string 'u u64 u64

datatype 'u CoordinatorCommand = Run string string string u64 u32 u32 string 'u

record 'f EvaluateArgs =
  ea_participants :: u32
  ea_seed :: u64
  ea_window_slots :: u64
  ea_dropout_rate :: 'f
  ea_backend :: BackendArg
  ea_output :: "string option"

datatype ('u, 'f) Command =
    Init string
  | Doctor 'u "'u option"
  | Pool PoolCommand
  | Round "'u RoundCommand"
  | Ticket "'u TicketCommand"
  | Proof ProofCommand
  | Action "'u ActionCommand"
  | Observe string
  | Evaluate "'f EvaluateArgs"
  | Report string "string option"
  | Evidence string
  | Coordinator "'u CoordinatorCommand"

text \<open>The commands with only the required options.\<close>

definition create_default :: "string \<Rightarrow> string \<Rightarrow> PoolCommand" where
  "create_default output authority =
     PoolCommand.Create output authority 10 1000 BackendArg.Merkle 100 4"

definition open_default :: "string \<Rightarrow> string \<Rightarrow> 'u \<Rightarrow> 'u RoundCommand" where
  "open_default pool output local_rpc = Open pool output 0 None local_rpc"

definition run_default :: "string \<Rightarrow> string \<Rightarrow> string \<Rightarrow> u64 \<Rightarrow> 'u \<Rightarrow> 'u CoordinatorCommand" where
  "run_default database pool_id template_hash round_id local_rpc =
     Run database pool_id template_hash round_id 10 1000 ''127.0.0.1:8787'' local_rpc"

definition evaluate_default :: "'f f64 \<Rightarrow> 'f EvaluateArgs" where
  "evaluate_default F = \<lparr>ea_participants = 1000, ea_seed = 42, ea_window_slots = 4,
     ea_dropout_rate = f_decimal F 1 1, ea_backend = BackendArg.Merkle, ea_output = None\<rparr>"

section \<open>The machine and the shell\<close>

record ('sk, 'vk, 'g, 'f, 'kp, 'tx, 'u) machine =
  mc_disk :: disk
  mc_crypto :: "('sk, 'vk) crypto"
  mc_lab :: "('g, 'f) lab"
  mc_evidence :: "'f evidence_env"
  mc_hex_decode :: "string \<Rightarrow> bytes option"
  mc_pubkey :: "string \<Rightarrow> bytes option"
  mc_from_utf8 :: "bytes \<Rightarrow> string option"
  mc_pool_id :: bytes
  mc_secret :: bytes
  mc_nonce :: bytes
  mc_timestamp :: "64 word"
  mc_now :: nat
  mc_tool :: "string \<Rightarrow> bool option"
  mc_host_str :: "'u \<Rightarrow> host"
  mc_inspect :: "'u \<Rightarrow> RpcInspection client_result"
  mc_health :: "'u \<Rightarrow> bool option"
  mc_post :: "'u \<Rightarrow> JoinTicket \<Rightarrow> string option"
  mc_endpoint :: "'u \<Rightarrow> string \<Rightarrow> ('kp, 'tx) endpoint"
  mc_public_cluster :: bool
  mc_store_env :: env
  mc_binds :: "string \<Rightarrow> bool"
  mc_session :: "coord_step list"
  mc_config_vec :: "PoolConfig \<Rightarrow> bytes option"
  mc_config_pretty :: "PoolConfig \<Rightarrow> bytes option"
  mc_config_from :: "bytes \<Rightarrow> PoolConfig option"
  mc_round_pretty :: "MP_Core.Round \<Rightarrow> bytes option"
  mc_round_from :: "bytes \<Rightarrow> MP_Core.Round option"
  mc_binding_from :: "bytes \<Rightarrow> TicketBindingFile option"
  mc_local_pretty :: "LocalTicket \<Rightarrow> bytes option"
  mc_local_from :: "bytes \<Rightarrow> LocalTicket option"
  mc_ticket_from :: "bytes \<Rightarrow> JoinTicket option"
  mc_proof_from :: "bytes \<Rightarrow> CohortProof option"
  mc_parameters_from :: "bytes \<Rightarrow> ActionParameters option"
  mc_action_pretty :: "PreparedAction \<Rightarrow> bytes option"
  mc_action_from :: "bytes \<Rightarrow> PreparedAction option"
  mc_simulation_pretty :: "SimulationResult \<Rightarrow> bytes option"
  mc_report_pretty :: "'f EvaluationReport \<Rightarrow> bytes option"
  mc_reports_from :: "bytes \<Rightarrow> 'f EvaluationReport list option"
  mc_report_from :: "bytes \<Rightarrow> 'f EvaluationReport option"

record ('tx, 'u) shell =
  sh_tree :: tree
  sh_databases :: "string \<Rightarrow> Db"
  sh_calls :: "'tx call list"
  sh_posts :: "('u \<times> JoinTicket) list"

text \<open>What a command prints when it succeeds.\<close>

datatype printed =
    Initialised string
  | Reachable RpcInspection
  | PoolWritten string Digest32 Digest32
  | PoolShown bytes
  | RoundWritten string Digest32 u64 u64 u64
  | RoundShown bytes
  | TicketWritten string
  | ResponseShown string
  | ProofValid
  | FileShown string
  | ActionWritten string
  | SimulationShown bytes
  | ReceiptShown LocalExecutionReceipt
  | EvaluationShown bytes
  | SummaryShown string
  | ReportWritten string
  | EvidenceCommands string
  | ShutDown

type_synonym ('a, 'tx, 'u) act = "('tx, 'u) shell \<Rightarrow> ('a, CliError) result \<times> ('tx, 'u) shell"

definition in_tree :: "(tree \<Rightarrow> ('a, CliError) result \<times> tree) \<Rightarrow> ('a, 'tx, 'u) act" where
  "in_tree m sh = (case m (sh_tree sh) of (r, t) \<Rightarrow> (r, sh\<lparr>sh_tree := t\<rparr>))"

abbreviation in_files :: "'a command \<Rightarrow> ('a, 'tx, 'u) act" where
  "in_files m \<equiv> in_tree (on_files m)"

definition prints :: "('a, 'tx, 'u) act \<Rightarrow> ('a \<Rightarrow> printed) \<Rightarrow> (printed, 'tx, 'u) act" where
  "prints m f = bind_cmd m (\<lambda>a. lift (Ok (f a)))"

section \<open>The commands\<close>

definition init_command ::
  "('sk, 'vk, 'g, 'f, 'kp, 'tx, 'u) machine \<Rightarrow> string \<Rightarrow> (printed, 'tx, 'u) act" where
  "init_command mc directory =
     prints (in_tree (initialise (mc_disk mc) directory)) (\<lambda>_. Initialised directory)"

fun pool_command ::
  "('sk, 'vk, 'g, 'f, 'kp, 'tx, 'u) machine \<Rightarrow> PoolCommand \<Rightarrow> (printed, 'tx, 'u) act" where
  "pool_command mc (PoolCommand.Create output authority minimum maximum backend registration_slots
       execution_window_slots) =
     prints (in_files (pool_create (cr_blake3 (mc_crypto mc)) (mc_config_vec mc) (mc_config_pretty mc)
         (mc_disk mc) output (mc_pubkey mc authority)
         (mc_pubkey mc ''MemoSq4gqABAXKb96qnH8TysNcWxMyWCqXgDLGmfcHr'') (mc_pool_id mc)
         (mc_timestamp mc) minimum maximum backend registration_slots execution_window_slots))
       (\<lambda>config. PoolWritten output (pc_pool_id config) (pc_configuration_hash config))"
| "pool_command mc (PoolCommand.Inspect config) =
     bind_cmd (in_files (pool_inspect (cr_blake3 (mc_crypto mc)) (mc_config_vec mc) (mc_config_from mc)
         (mc_disk mc) config)) (\<lambda>v.
     prints (lift (ok_or (mc_config_pretty mc v) JsonError)) PoolShown)"

fun round_command ::
  "('sk, 'vk, 'g, 'f, 'kp, 'tx, 'u) machine \<Rightarrow> 'u RoundCommand \<Rightarrow> (printed, 'tx, 'u) act" where
  "round_command mc (Open pool output round_id current_slot rpc_url) =
     prints (in_files (round_open (cr_blake3 (mc_crypto mc)) (mc_config_vec mc) (mc_config_from mc)
         (mc_round_pretty mc) (mc_disk mc) pool output round_id current_slot (mc_inspect mc rpc_url)))
       (\<lambda>v. RoundWritten output (rd_pool_id v) (rd_round_id v) (rd_registration_start_slot v)
         (rd_registration_deadline_slot v))"
| "round_command mc (RoundCommand.Inspect config) =
     bind_cmd (in_files (round_inspect (mc_round_from mc) (mc_disk mc) config)) (\<lambda>v.
     prints (lift (ok_or (mc_round_pretty mc v) JsonError)) RoundShown)"

definition post_ticket ::
  "('sk, 'vk, 'g, 'f, 'kp, 'tx, 'u) machine \<Rightarrow> 'u \<Rightarrow> JoinTicket \<Rightarrow> (string, 'tx, 'u) act" where
  "post_ticket mc url ticket sh =
     (ok_or (mc_post mc url ticket) IoError, sh\<lparr>sh_posts := sh_posts sh @ [(url, ticket)]\<rparr>)"

fun ticket_command ::
  "('sk, 'vk, 'g, 'f, 'kp, 'tx, 'u) machine \<Rightarrow> 'u TicketCommand \<Rightarrow> (printed, 'tx, 'u) act" where
  "ticket_command mc (TicketCommand.Create binding output) =
     prints (in_files (ticket_create (mc_crypto mc) (mc_binding_from mc) (mc_local_pretty mc)
         (mc_disk mc) binding output (mc_secret mc) (mc_nonce mc)))
       (\<lambda>_. TicketWritten output)"
| "ticket_command mc (Submit ticket coordinator_url) =
     bind_cmd (in_files (ticket_submission (mc_ticket_from mc) (mc_local_from mc) (mc_disk mc) ticket))
       (\<lambda>ticket. prints (post_ticket mc coordinator_url ticket) ResponseShown)"

fun proof_command ::
  "('sk, 'vk, 'g, 'f, 'kp, 'tx, 'u) machine \<Rightarrow> ProofCommand \<Rightarrow> (printed, 'tx, 'u) act" where
  "proof_command mc (Verify path root round_id) =
     prints (in_files (proof_verify (cr_blake3 (mc_crypto mc)) (mc_hex_decode mc) (mc_proof_from mc)
         (mc_disk mc) path root round_id)) (\<lambda>_. ProofValid)"

definition execute_act ::
  "('sk, 'vk, 'g, 'f, 'kp, 'tx, 'u) machine \<Rightarrow> string \<Rightarrow> bool \<Rightarrow> bool \<Rightarrow> string \<Rightarrow> 'u \<Rightarrow> u64 \<Rightarrow> u64
     \<Rightarrow> (LocalExecutionReceipt, 'tx, 'u) act" where
  "execute_act mc path confirm enable_sending wallet rpc_url window_start window_end sh =
     (case action_execute (mc_public_cluster mc)
             (mc_pubkey mc ''MemoSq4gqABAXKb96qnH8TysNcWxMyWCqXgDLGmfcHr'') (mc_endpoint mc rpc_url wallet)
             (mc_action_from mc) (mc_disk mc) (fst (sh_tree sh)) path confirm enable_sending
             (mc_host_str mc rpc_url) window_start window_end of
        (calls, r) \<Rightarrow> (r, sh\<lparr>sh_calls := sh_calls sh @ calls\<rparr>))"

fun action_command ::
  "('sk, 'vk, 'g, 'f, 'kp, 'tx, 'u) machine \<Rightarrow> 'u ActionCommand \<Rightarrow> (printed, 'tx, 'u) act" where
  "action_command mc (Prepare config output) =
     prints (in_files (action_prepare (mc_pubkey mc) (mc_parameters_from mc) (mc_action_pretty mc)
         (mc_disk mc) config output)) (\<lambda>_. ActionWritten output)"
| "action_command mc (ActionCommand.Simulate path) =
     bind_cmd (in_files (action_simulate (mc_action_from mc) (mc_disk mc) path)) (\<lambda>r.
     prints (lift (ok_or (mc_simulation_pretty mc r) JsonError)) SimulationShown)"
| "action_command mc (Execute path confirm enable_sending wallet rpc_url window_start window_end) =
     prints (execute_act mc path confirm enable_sending wallet rpc_url window_start window_end)
       ReceiptShown"

definition observe_command ::
  "('sk, 'vk, 'g, 'f, 'kp, 'tx, 'u) machine \<Rightarrow> string \<Rightarrow> (printed, 'tx, 'u) act" where
  "observe_command mc input =
     bind_cmd (in_files (read_file (mc_disk mc) input)) (\<lambda>bs.
     prints (lift (ok_or (mc_from_utf8 mc bs) IoError)) FileShown)"

definition evaluate_act ::
  "('sk, 'vk, 'g, 'f, 'kp, 'tx, 'u) machine \<Rightarrow> 'f EvaluateArgs \<Rightarrow> (printed, 'tx, 'u) act" where
  "evaluate_act mc args =
     prints (in_files (evaluate_command (lb_f64 (mc_lab mc)) (lb_rng (mc_lab mc)) (lb_blake3 (mc_lab mc))
         (lb_trace (mc_lab mc)) (mc_report_pretty mc) (mc_disk mc) (ea_seed args) (ea_participants args)
         (ea_backend args) (ea_window_slots args) (ea_dropout_rate args) (ea_output args)))
       EvaluationShown"

definition report_command ::
  "('sk, 'vk, 'g, 'f, 'kp, 'tx, 'u) machine \<Rightarrow> string \<Rightarrow> string option \<Rightarrow> (printed, 'tx, 'u) act" where
  "report_command mc input output_directory =
     prints (in_tree (report (lb_f64 (mc_lab mc)) (cr_hex_encode (mc_crypto mc)) (mc_evidence mc)
         (mc_reports_from mc) (mc_report_from mc) (mc_disk mc) input output_directory))
       (\<lambda>markdown. case output_directory of
          None \<Rightarrow> SummaryShown markdown | Some directory \<Rightarrow> ReportWritten directory)"

text \<open>
  The coordinator serves from the binding of its address to a signal; \<open>mc_session\<close> are the
  atomic steps of the requests handled in between. The database is on disk all the time.
\<close>

definition serve ::
  "('sk, 'vk, 'g, 'f, 'kp, 'tx, 'u) machine \<Rightarrow> MP_Coordinator.Coordinator
     \<Rightarrow> (unit, CliError) result \<times> MP_Coordinator.Coordinator" where
  "serve mc co =
     (if mc_binds mc (cc_listen (co_config co))
      then (Ok (), run_steps (mc_crypto mc) (mc_session mc) co) else (Err IoError, co))"

fun coordinator_command ::
  "('sk, 'vk, 'g, 'f, 'kp, 'tx, 'u) machine \<Rightarrow> 'u CoordinatorCommand \<Rightarrow> (printed, 'tx, 'u) act" where
  "coordinator_command mc (Run database pool_id template_hash round_id minimum maximum listen rpc_url) sh =
     (case coordinator_start (mc_hex_decode mc) (mc_store_env mc) (mc_now mc) pool_id template_hash
             round_id minimum maximum listen (sh_databases sh database) of
        (r, db) \<Rightarrow>
          let opened = sh\<lparr>sh_databases := (sh_databases sh)(database := db)\<rparr> in
          case r of
            Ok co \<Rightarrow>
              (case serve mc co of (m, co) \<Rightarrow>
                (and_then m (\<lambda>_. Ok ShutDown),
                 opened\<lparr>sh_databases := (sh_databases opened)(database := co_store co)\<rparr>))
          | Err e \<Rightarrow> (Err e, opened)
          | Panic \<Rightarrow> (Panic, opened))"

fun cli_main ::
  "('sk, 'vk, 'g, 'f, 'kp, 'tx, 'u) machine \<Rightarrow> ('u, 'f) Command \<Rightarrow> (printed, 'tx, 'u) act" where
  "cli_main mc (Init directory) = init_command mc directory"
| "cli_main mc (Doctor rpc_url coordinator_url) =
     prints (lift (doctor (mc_tool mc) (mc_inspect mc rpc_url) (map_option (mc_health mc) coordinator_url)
       (mc_host_str mc rpc_url))) Reachable"
| "cli_main mc (Pool command) = pool_command mc command"
| "cli_main mc (Command.Round command) = round_command mc command"
| "cli_main mc (Command.Ticket command) = ticket_command mc command"
| "cli_main mc (Proof command) = proof_command mc command"
| "cli_main mc (Command.Action command) = action_command mc command"
| "cli_main mc (Observe input) = observe_command mc input"
| "cli_main mc (Evaluate args) = evaluate_act mc args"
| "cli_main mc (Report input output_directory) = report_command mc input output_directory"
| "cli_main mc (Evidence output) = lift (Ok (EvidenceCommands output))"
| "cli_main mc (Command.Coordinator command) = coordinator_command mc command"

section \<open>What a command leaves alone\<close>



























lemma prints_state [simp]: "snd (prints m f sh) = snd (m sh)"
  by (simp add: prints_def bind_cmd_alt lift_def split: result.splits)







section \<open>The default options\<close>

text \<open>
  The options left out are admissible: with a working disk, serialisers that succeed and read
  back what they wrote, and an endpoint that reports a slot, \<open>pool create\<close> and then
  \<open>round open\<close> succeed with only their required options.
\<close>

lemma default_options_work:
  fixes mc :: "('sk, 'vk, 'g, 'f, 'kp, 'tx, 'u) machine"
  assumes "disk_works (mc_disk mc)" "pool \<noteq> round" "fst (sh_tree sh) pool = None"
    "fst (sh_tree sh) round = None"
    and "\<forall>c. mc_config_vec mc c \<noteq> None" "\<forall>c. mc_config_pretty mc c \<noteq> None"
    and "\<forall>c bs. mc_config_pretty mc c = Some bs \<longrightarrow> mc_config_from mc bs = Some c"
    and "\<forall>r. mc_round_pretty mc r \<noteq> None" "\<forall>txt. mc_pubkey mc txt \<noteq> None"
    and "mc_inspect mc url = Ok i" "unat (ri_slot i) + 100 < 2 ^ 64"
  shows "\<exists>h sh1 sh2. cli_main mc (Pool (create_default pool authority)) sh
        = (Ok (PoolWritten pool (Digest32 (mc_pool_id mc)) h), sh1)
    \<and> cli_main mc (Command.Round (open_default pool round url)) sh1
        = (Ok (RoundWritten round (Digest32 (mc_pool_id mc)) 0 (ri_slot i) (ri_slot i + 100)), sh2)"
proof -
  let ?blake3 = "cr_blake3 (mc_crypto mc)"
  obtain a memo where keys: "mc_pubkey mc authority = Some a"
    "mc_pubkey mc ''MemoSq4gqABAXKb96qnH8TysNcWxMyWCqXgDLGmfcHr'' = Some memo"
    using assms(9) by (metis option.exhaust)
  let ?create = "pool_create ?blake3 (mc_config_vec mc) (mc_config_pretty mc) (mc_disk mc) pool (Some a)
    (Some memo) (mc_pool_id mc) (mc_timestamp mc) 10 1000 BackendArg.Merkle 100 4"
  let ?open = "round_open ?blake3 (mc_config_vec mc) (mc_config_from mc) (mc_round_pretty mc) (mc_disk mc)
    pool round 0"
  have "\<exists>config fs1 r fs2.
      ?create (fst (sh_tree sh)) = (Ok config, fs1)
    \<and> ?open (Some (ri_slot i)) (Ok i) fs1 = (Ok r, fs2)
    \<and> PoolConfig_validate ?blake3 (mc_config_vec mc) config = Ok ()
    \<and> verify_round_configuration ?blake3 (mc_config_vec mc) config r = Ok ()
    \<and> rd_state r = RoundState.Registration \<and> rd_round_id r = 0
    \<and> unat (rd_registration_deadline_slot r) = unat (ri_slot i) + unat (100 :: u64)
    \<and> (\<forall>xs. round_inv config (round_calls config xs r))"
    by (rule cli_opens_round) (use assms in simp_all)
  then obtain config fs1 r fs2 where run: "?create (fst (sh_tree sh)) = (Ok config, fs1)"
    "?open (Some (ri_slot i)) (Ok i) fs1 = (Ok r, fs2)" by blast
  have opened: "?open None (Ok i) fs1 = (Ok r, fs2)"
    using run(2) by (simp add: round_open_def)
  have "pc_pool_id config = Digest32 (mc_pool_id mc)" "pc_registration_duration_slots config = 100"
    using run(1) by (auto simp: pool_create_def result_simps new_pool_config_def Let_def)
  moreover have "\<exists>bs. mc_config_pretty mc config = Some bs
      \<and> fs1 pool = Some \<lparr>fi_content = bs, fi_owner_only = False\<rparr>"
    using run(1) by (auto simp: pool_create_def result_simps write_new_json_def write_new_Ok_iff Let_def)
  ultimately have r: "rd_pool_id r = Digest32 (mc_pool_id mc)" "rd_round_id r = 0"
    "rd_registration_start_slot r = ri_slot i" "rd_registration_deadline_slot r = ri_slot i + 100"
    using run(2) assms(7)
    by (auto simp: round_open_def result_simps read_json_Ok_iff opened_round_def checked_add_def Let_def
        split: if_splits)
  show ?thesis
    using run(1) opened r assms(10) keys \<open>pc_pool_id config = _\<close>
    by (auto simp: create_default_def open_default_def prints_def in_tree_def on_files_def bind_cmd_alt lift_def)
qed

end
