(* ===== verification/MP_Command_Runs.thy ===== *)
theory MP_Command_Runs
  imports MP_Commands
begin

text \<open>
  Histories of commands. A coordinator may be stopped, started again with another
  configuration on the same database, and fail at any point; the databases keep what they
  have sealed. A concrete machine runs some of the commands.
\<close>

section \<open>Databases grow\<close>



definition grows :: "(bytes \<Rightarrow> bytes) \<Rightarrow> json \<Rightarrow> Db \<Rightarrow> Db \<Rightarrow> bool" where
  "grows blake3 js db db' \<longleftrightarrow> (store_inv blake3 js db \<longrightarrow> store_inv blake3 js db' \<and> extends db db')"

lemma grows_refl [simp]: "grows blake3 js db db"
  by (simp add: grows_def)













section \<open>A concrete machine\<close>






end
