(* ===== verification/MP_Admissions.thy ===== *)
theory MP_Admissions
  imports MP_Router
begin

text \<open>
  The ledger of admissions: which requests of the service were answered with a commitment and
  which tickets the store holds. Both sides correspond one to one, whatever runs at the same
  time.
\<close>

section \<open>Accepted requests\<close>

definition accepted_as :: "service \<Rightarrow> nat \<Rightarrow> Digest32 \<Rightarrow> bool" where
  "accepted_as s i c \<longleftrightarrow> (\<exists>rq status. sv_requests s i = Some (rq, Answered status (TicketAccepted c)))"

definition decoded :: "('sk, 'vk) web \<Rightarrow> CoordinatorConfig \<Rightarrow> http_request \<Rightarrow> JoinTicket \<Rightarrow> bool" where
  "decoded w config rq ticket \<longleftrightarrow> we_json w (cc_max_body_bytes config) (rq_body rq) = Ok ticket"

definition stored_for :: "('sk, 'vk) web \<Rightarrow> CoordinatorConfig \<Rightarrow> Db \<Rightarrow> JoinTicket \<Rightarrow> Digest32 \<Rightarrow> bool" where
  "stored_for w config db ticket c \<longleftrightarrow>
     (\<exists>slot. JoinTicket_verify (we_crypto w) ticket slot (cc_binding config) = Ok ())
   \<and> JoinTicket_commitment (we_crypto w) ticket = Ok c
   \<and> (\<exists>row \<in> set (db_join_tickets db). tr_commitment row = digest_bytes c
        \<and> tr_coordination_key row = jt_coordination_public_key ticket)"

text \<open>A stage carries the ticket of the body from the first section to the answer.\<close>

fun carries :: "('sk, 'vk) web \<Rightarrow> CoordinatorConfig \<Rightarrow> Db \<Rightarrow> http_request \<Rightarrow> stage \<Rightarrow> bool" where
  "carries w config db rq (Submitting ticket) \<longleftrightarrow> decoded w config rq ticket"
| "carries w config db rq (Limiting ticket slot) \<longleftrightarrow> decoded w config rq ticket"
| "carries w config db rq (Admitting ticket slot) \<longleftrightarrow> decoded w config rq ticket"
| "carries w config db rq (Answered status (TicketAccepted c)) \<longleftrightarrow>
     status = 200 \<and> (\<exists>ticket. decoded w config rq ticket \<and> stored_for w config db ticket c)"
| "carries w config db rq _ \<longleftrightarrow> True"

lemma carries_accept: "carries w config db rq (accept_request w (router config) rq)"
  by (auto simp: accept_request_def router_def decoded_def split: result.splits handler.splits)

lemma carries_extends:
  assumes "carries w config db rq st" "extends db db'"
  shows "carries w config db' rq st"
  using assms
  by (cases "(w, config, db, rq, st)" rule: carries.cases) (fastforce simp: stored_for_def extends_def)+

definition told :: "stage \<Rightarrow> Digest32 option" where
  "told st = (case st of Answered _ (TicketAccepted c) \<Rightarrow> Some c | _ \<Rightarrow> None)"

lemma told_simps [simp]:
  "told (Submitting ticket) = None" "told (Limiting ticket slot) = None"
  "told (Admitting ticket slot) = None" "told Sealing = None" "told (Proving segment) = None"
  "told Aborted = None" "told (Answered status (TicketAccepted c)) = Some c"
  by (simp_all add: told_def)

lemma told_Some_iff: "told st = Some c \<longleftrightarrow> (\<exists>status. st = Answered status (TicketAccepted c))"
  by (auto simp: told_def split: stage.splits content.splits)

lemma accepted_as_told:
  "accepted_as s i c \<longleftrightarrow> (\<exists>rq st. sv_requests s i = Some (rq, st) \<and> told st = Some c)"
  by (auto simp: accepted_as_def told_Some_iff)

lemma told_proceed: "told (proceed f r) = (case r of Ok a \<Rightarrow> told (f a) | _ \<Rightarrow> None)"
  by (cases r) (auto simp: proceed_def told_def)

lemma told_respond: "(\<And>a c. g a \<noteq> TicketAccepted c) \<Longrightarrow> told (respond g r) = None"
  by (cases r) (auto simp: respond_def told_def split: content.splits)

section \<open>One section of a handler\<close>

text \<open>
  A section stores a ticket exactly when it answers its request with the commitment.
\<close>

lemma admit_ledger:
  assumes "admit cr config env ticket db = (m, db')"
  shows "(\<not> is_ok m \<and> db' = db)
    \<or> (\<exists>c row. m = Ok c \<and> db_join_tickets db' = db_join_tickets db @ [row]
         \<and> JoinTicket_commitment cr ticket = Ok c \<and> tr_commitment row = digest_bytes c
         \<and> tr_coordination_key row = jt_coordination_public_key ticket
         \<and> (\<forall>r \<in> set (db_join_tickets db). \<not> ticket_clash row r))"
  using assms
proof (cases rule: admit_cases)
  case (2 n)
  obtain r where acc: "accept_ticket cr env ticket db = (r, db')"
    using 2(3) by (cases "accept_ticket cr env ticket db") simp
  have m: "m = map_err Store r" using 2(4) acc by simp
  show ?thesis
  proof (cases r)
    case (Ok c)
    from accept_ticket_writes [OF acc [unfolded Ok]] obtain row e where
      "JoinTicket_commitment cr ticket = Ok c" "tr_commitment row = digest_bytes c"
      "tr_coordination_key row = jt_coordination_public_key ticket"
      "\<forall>r \<in> set (db_join_tickets db). \<not> ticket_clash row r"
      "db' = db\<lparr>db_join_tickets := db_join_tickets db @ [row],
             db_immutable_events := db_immutable_events db @ [e]\<rparr>"
      by metis
    then show ?thesis using m Ok by auto
  qed (use m sqlite_store.insert_fails [OF acc] in auto)
qed simp

lemma advance_ledger:
  assumes "coord_inv (we_crypto w) (se_json (mo_env mo)) config co"
    and "advance w mo st co = (st', co')" "carries w config (co_store co) rq st"
    and "stage_true w config (co_store co) st"
  shows "(db_join_tickets (co_store co') = db_join_tickets (co_store co) \<and> told st' = told st)
    \<or> (\<exists>c row ticket. told st = None \<and> st' = Answered 200 (TicketAccepted c)
         \<and> db_join_tickets (co_store co') = db_join_tickets (co_store co) @ [row]
         \<and> tr_commitment row = digest_bytes c
         \<and> (\<forall>r \<in> set (db_join_tickets (co_store co)). \<not> ticket_clash row r)
         \<and> decoded w config rq ticket \<and> stored_for w config (co_store co') ticket c)"
proof -
  have config: "co_config co = config" using assms(1) by (simp add: coord_inv_def)
  show ?thesis
  proof (cases st)
    case (Admitting ticket slot)
    obtain m db' where ad: "admit (we_crypto w) config (mo_env mo) ticket (co_store co) = (m, db')"
      by (cases "admit (we_crypto w) config (mo_env mo) ticket (co_store co)")
    then have st': "st' = respond TicketAccepted m" "co_store co' = db'"
      using assms(2) Admitting config by auto
    have carried: "decoded w config rq ticket"
      "JoinTicket_verify (we_crypto w) ticket slot (cc_binding config) = Ok ()"
      using assms(3,4) Admitting by simp_all
    from admit_ledger [OF ad] show ?thesis
    proof (elim disjE exE conjE)
      assume "\<not> is_ok m" "db' = co_store co"
      then show ?thesis using st' Admitting by (cases m) (auto simp: respond_def told_def)
    next
      fix c row
      assume ad: "m = Ok c" "db_join_tickets db' = db_join_tickets (co_store co) @ [row]"
        "JoinTicket_commitment (we_crypto w) ticket = Ok c" "tr_commitment row = digest_bytes c"
        "tr_coordination_key row = jt_coordination_public_key ticket"
        "\<forall>r \<in> set (db_join_tickets (co_store co)). \<not> ticket_clash row r"
      then have "stored_for w config db' ticket c" using carried(2) by (auto simp: stored_for_def)
      then show ?thesis using st' ad carried(1) Admitting
        by (intro disjI2 exI [of _ c] exI [of _ row] exI [of _ ticket])
          (simp add: respond_def told_def)
    qed
  next
    case Sealing
    have "store_inv (cr_blake3 (we_crypto w)) (se_json (mo_env mo)) (co_store co)"
      using assms(1) reachable_inv by (auto simp: coord_inv_def)
    from seal_tickets [OF this] have "db_join_tickets (co_store co') = db_join_tickets (co_store co)"
      using assms(2) Sealing by (auto simp: http_seal_def seal_round_def split: prod.splits) (metis snd_conv)
    then show ?thesis using assms(2) Sealing told_respond [of Sealed]
      by (auto split: prod.splits)
  qed (use assms(2) told_respond [of ProofJson] in
      \<open>auto simp: told_proceed split: prod.splits result.splits\<close>)
qed

lemma advance_carries:
  assumes "coord_inv (we_crypto w) (se_json (mo_env mo)) config co"
    and "advance w mo st co = (st', co')" "carries w config (co_store co) rq st"
    and "stage_true w config (co_store co) st" "extends (co_store co) (co_store co')"
  shows "carries w config (co_store co') rq st'"
proof (cases "told st'")
  case None
  with assms(2,3) show ?thesis
    by (cases st) (auto simp: proceed_def respond_def told_def split: prod.splits result.splits content.splits)
next
  case (Some c)
  from advance_ledger [OF assms(1-4)] show ?thesis
  proof (elim disjE exE conjE)
    assume "told st' = told st"
    with Some obtain status where "st = Answered status (TicketAccepted c)"
      by (auto simp: told_Some_iff)
    with assms(2) have "st' = st" by simp
    then show ?thesis using assms(3,5) carries_extends by simp
  qed auto
qed

section \<open>The ledger\<close>

definition ledger_inv :: "('sk, 'vk) web \<Rightarrow> CoordinatorConfig \<Rightarrow> service \<Rightarrow> bool" where
  "ledger_inv w config s \<longleftrightarrow>
     (\<forall>i rq st. sv_requests s i = Some (rq, st) \<longrightarrow>
        carries w config (co_store (sv_coordinator s)) rq st)
   \<and> (\<forall>i j c. accepted_as s i c \<longrightarrow> accepted_as s j c \<longrightarrow> i = j)
   \<and> (\<forall>row \<in> set (db_join_tickets (co_store (sv_coordinator s))).
        \<exists>i. accepted_as s i (Digest32 (tr_commitment row)))"

lemma ledger_update:
  assumes "ledger_inv w config s" "sv_requests s i = None \<or> (\<exists>rq st. sv_requests s i = Some (rq, st) \<and> told st = None)"
    and "told st' = None" "carries w config (co_store (sv_coordinator s)) rq st'"
  shows "ledger_inv w config (s\<lparr>sv_requests := (sv_requests s)(i \<mapsto> (rq, st'))\<rparr>)"
proof -
  have "\<not> accepted_as s i c" for c using assms(2) by (auto simp: accepted_as_told)
  then have "accepted_as (s\<lparr>sv_requests := (sv_requests s)(i \<mapsto> (rq, st'))\<rparr>) j c \<longleftrightarrow> accepted_as s j c" for j c
    using assms(3) by (auto simp: accepted_as_told)
  then show ?thesis using assms(1,4) by (simp add: ledger_inv_def)
qed

lemma ledger_step:
  assumes "service_step w js s s'" "service_inv w js config s" "ledger_inv w config s"
  shows "ledger_inv w config s'"
  using assms
proof (induction rule: service_step.induct)
  case (Arrive s i rq)
  then have "co_config (sv_coordinator s) = config"
    by (simp add: service_inv_def coord_inv_def)
  moreover have "told (accept_request w (router config) rq) = None"
    by (auto simp: accept_request_def told_def split: result.splits handler.splits)
  ultimately show ?case using Arrive
    by (intro ledger_update) (auto simp: carries_accept)
next
  case (TimeOut s i rq st)
  then have "told st = None" by (cases st) (simp_all add: told_def)
  then show ?case using TimeOut by (intro ledger_update) (auto simp: told_def)
next
  case (Advance s i rq st mo st' co')
  let ?co = "sv_coordinator s"
  let ?s' = "\<lparr>sv_coordinator = co', sv_requests = (sv_requests s)(i \<mapsto> (rq, st'))\<rparr>"
  have inv: "coord_inv (we_crypto w) (se_json (mo_env mo)) config ?co"
    "stage_true w config (co_store ?co) st"
    using Advance(1,2,4) by (simp_all add: service_inv_def)
  have adm: "JoinTicket_verify (we_crypto w) ticket slot (cc_binding config) = Ok ()"
    if "st = Admitting ticket slot" for ticket slot
    using inv(2) that by simp
  have ext: "extends (co_store ?co) (co_store co')"
    by (rule advance_inv(2) [OF inv(1) refl Advance(3)]) (rule adm)
  have carried: "carries w config (co_store ?co) rq st" using Advance(1,5) by (simp add: ledger_inv_def)
  note old = Advance(5) [unfolded ledger_inv_def]
  have all: "carries w config (co_store co') r t" if "sv_requests ?s' j = Some (r, t)" for j r t
  proof (cases "j = i")
    case True
    then show ?thesis using that advance_carries [OF inv(1) Advance(3) carried inv(2) ext] by simp
  next
    case False
    then have "sv_requests s j = Some (r, t)" using that by simp
    then have "carries w config (co_store ?co) r t" using old by blast
    then show ?thesis using ext by (rule carries_extends)
  qed
  have others: "accepted_as ?s' j c \<longleftrightarrow> (if j = i then told st' = Some c else accepted_as s j c)" for j c
    by (auto simp: accepted_as_told)
  have self: "accepted_as s i c \<longleftrightarrow> told st = Some c" for c
    using Advance(1) by (auto simp: accepted_as_told)
  from advance_ledger [OF inv(1) Advance(3) carried inv(2)] show ?case
  proof (elim disjE exE conjE)
    assume same: "db_join_tickets (co_store co') = db_join_tickets (co_store ?co)" "told st' = told st"
    then have "accepted_as ?s' j c \<longleftrightarrow> accepted_as s j c" for j c using others self by auto
    then show ?thesis using old all same(1) unfolding ledger_inv_def by simp
  next
    fix c row ticket
    assume new: "told st = None" "st' = Answered 200 (TicketAccepted c)"
      "db_join_tickets (co_store co') = db_join_tickets (co_store ?co) @ [row]"
      "tr_commitment row = digest_bytes c"
      "\<forall>r \<in> set (db_join_tickets (co_store ?co)). \<not> ticket_clash row r"
    have "\<not> accepted_as s j c" for j
    proof
      assume "accepted_as s j c"
      then obtain r status where "sv_requests s j = Some (r, Answered status (TicketAccepted c))"
        by (auto simp: accepted_as_def)
      then have "carries w config (co_store ?co) r (Answered status (TicketAccepted c))"
        using old by blast
      then show False using new(4,5) by (auto simp: stored_for_def ticket_clash_def)
    qed
    moreover have "told st' = Some d \<longleftrightarrow> d = c" for d using new(2) by (auto simp: told_def)
    moreover have "\<exists>j. accepted_as ?s' j (Digest32 (tr_commitment r))"
      if "r \<in> set (db_join_tickets (co_store ?co))" for r
      using that old others self new(1) by (metis option.distinct(1))
    ultimately show ?thesis using old all new(3,4) others unfolding ledger_inv_def
      by auto
  qed
qed

lemma ledger_history:
  assumes "(service_step w js)\<^sup>*\<^sup>* s s'" "service_inv w js config s" "json_ok js" "web_ok w"
    and "ledger_inv w config s"
  shows "ledger_inv w config s' \<and> service_inv w js config s'"
  using assms(1,2,5)
  by (induction rule: rtranclp_induct) (auto intro: ledger_step service_step_inv [OF _ _ assms(3,4)])

lemma ledger_start:
  assumes "memory_store env0 = (Ok (), db0)"
  shows "ledger_inv w config (start_service (Coordinator_new config db0 now))"
  using memory_store_empty [OF assms]
  by (simp add: ledger_inv_def start_service_def accepted_as_def Coordinator_new_def)

lemma accepted_stored:
  assumes "ledger_inv w config s" "accepted_as s i c"
  obtains rq ticket row where "sv_requests s i = Some (rq, Answered 200 (TicketAccepted c))"
    "decoded w config rq ticket" "stored_for w config (co_store (sv_coordinator s)) ticket c"
    "row \<in> set (db_join_tickets (co_store (sv_coordinator s)))" "tr_commitment row = digest_bytes c"
    "tr_coordination_key row = jt_coordination_public_key ticket"
proof -
  from assms(2) obtain rq status where rq: "sv_requests s i = Some (rq, Answered status (TicketAccepted c))"
    by (auto simp: accepted_as_def)
  with assms(1) have "carries w config (co_store (sv_coordinator s)) rq (Answered status (TicketAccepted c))"
    unfolding ledger_inv_def by blast
  then show ?thesis using rq that by (auto simp: stored_for_def)
qed

lemma unique_rows_clash:
  assumes "unique_rows clash rows" "a \<in> set rows" "b \<in> set rows" "clash a b" "clash b a"
  shows "a = b"
  using assms by (induction rows) (auto simp: unique_rows_def)

text \<open>The accepted requests are as many as the stored tickets.\<close>

lemma accepted_count:
  assumes "ledger_inv w config s" "service_inv w js config s"
  shows "finite {i. \<exists>c. accepted_as s i c}
    \<and> card {i. \<exists>c. accepted_as s i c} \<le> unat (cc_maximum_participants config)"
proof -
  let ?db = "co_store (sv_coordinator s)"
  let ?A = "{i. \<exists>c. accepted_as s i c}"
  let ?f = "\<lambda>row. THE i. accepted_as s i (Digest32 (tr_commitment row))"
  have size: "cohort_entries config ?db \<le> unat (cc_maximum_participants config)"
    and rows: "\<forall>row \<in> set (db_join_tickets ?db). admitted (we_crypto w) config row"
    using assms(2) by (simp_all add: service_inv_def coord_inv_def)
  have "?A \<subseteq> ?f ` set (db_join_tickets ?db)"
  proof
    fix i assume "i \<in> ?A"
    then obtain c where c: "accepted_as s i c" by blast
    from accepted_stored [OF assms(1) this] obtain row where
      row: "row \<in> set (db_join_tickets ?db)" "tr_commitment row = digest_bytes c" by metis
    have "?f row = i" using c row(2) assms(1) unfolding ledger_inv_def
      by (intro the_equality) auto
    then show "i \<in> ?f ` set (db_join_tickets ?db)" using row(1) by blast
  qed
  then have "finite ?A" "card ?A \<le> card (set (db_join_tickets ?db))"
    using finite_subset [OF _ finite_imageI] surj_card_le [OF finite_set] by blast+
  moreover have "card (set (db_join_tickets ?db)) \<le> length (db_join_tickets ?db)"
    by (rule card_length)
  moreover have "cohort_entries config ?db = length (db_join_tickets ?db)"
    unfolding cohort_entries_def using rows
    by (subst filter_True) (auto simp: admitted_def ticket_of_def)
  ultimately show ?thesis using size by simp
qed

text \<open>
  C20. Every ticket is admitted exactly once, in any interleaving of concurrent requests from a new
  store, with timeouts and failures. A request answered with a commitment carried, in a body
  within the limit, a ticket with this commitment that was verified at some slot and is stored
  with its coordination key; no other request is ever answered with this commitment or accepted
  with this coordination key; no ticket is stored whose request was not told so; and no more
  requests are accepted than the configured maximum.
\<close>

theorem admitted_exactly_once:
  assumes "memory_store env0 = (Ok (), db0)" "json_ok js" "web_ok w"
    and "(service_step w js)\<^sup>*\<^sup>* (start_service (Coordinator_new config db0 now)) s"
    and "db = co_store (sv_coordinator s)"
  shows "(\<forall>i rq status c. sv_requests s i = Some (rq, Answered status (TicketAccepted c)) \<longrightarrow>
       status = 200 \<and> (\<exists>ticket slot row. we_json w (cc_max_body_bytes config) (rq_body rq) = Ok ticket
         \<and> JoinTicket_verify (we_crypto w) ticket slot (cc_binding config) = Ok ()
         \<and> JoinTicket_commitment (we_crypto w) ticket = Ok c
         \<and> row \<in> set (db_join_tickets db) \<and> tr_commitment row = digest_bytes c
         \<and> tr_coordination_key row = jt_coordination_public_key ticket))
   \<and> (\<forall>i j rq rq' status status' c c' ticket ticket'.
       i \<noteq> j \<and> sv_requests s i = Some (rq, Answered status (TicketAccepted c))
       \<and> sv_requests s j = Some (rq', Answered status' (TicketAccepted c'))
       \<and> we_json w (cc_max_body_bytes config) (rq_body rq) = Ok ticket
       \<and> we_json w (cc_max_body_bytes config) (rq_body rq') = Ok ticket' \<longrightarrow>
       c \<noteq> c' \<and> jt_coordination_public_key ticket \<noteq> jt_coordination_public_key ticket')
   \<and> (\<forall>row \<in> set (db_join_tickets db). \<exists>i rq. sv_requests s i =
       Some (rq, Answered 200 (TicketAccepted (Digest32 (tr_commitment row)))))
   \<and> finite {i. \<exists>rq status c. sv_requests s i = Some (rq, Answered status (TicketAccepted c))}
   \<and> card {i. \<exists>rq status c. sv_requests s i = Some (rq, Answered status (TicketAccepted c))}
       \<le> unat (cc_maximum_participants config)"
proof -
  have inv: "ledger_inv w config s" "service_inv w js config s"
    using ledger_history [OF assms(4) start_service_inv [OF assms(1)] assms(2,3) ledger_start [OF assms(1)]]
    by simp_all
  have accepted: "accepted_as s i c"
    if "sv_requests s i = Some (rq, Answered status (TicketAccepted c))" for i rq status c
    using that by (auto simp: accepted_as_def)
  have each: "status = 200 \<and> (\<exists>ticket slot row. we_json w (cc_max_body_bytes config) (rq_body rq) = Ok ticket
         \<and> JoinTicket_verify (we_crypto w) ticket slot (cc_binding config) = Ok ()
         \<and> JoinTicket_commitment (we_crypto w) ticket = Ok c
         \<and> row \<in> set (db_join_tickets db) \<and> tr_commitment row = digest_bytes c
         \<and> tr_coordination_key row = jt_coordination_public_key ticket)"
    if "sv_requests s i = Some (rq, Answered status (TicketAccepted c))" for i rq status c
  proof -
    from accepted_stored [OF inv(1) accepted [OF that]] obtain rq' ticket row where
      "sv_requests s i = Some (rq', Answered 200 (TicketAccepted c))" "decoded w config rq' ticket"
      "stored_for w config db ticket c" "row \<in> set (db_join_tickets db)"
      "tr_commitment row = digest_bytes c"
      "tr_coordination_key row = jt_coordination_public_key ticket"
      unfolding assms(5) .
    with that show ?thesis unfolding stored_for_def decoded_def by auto
  qed
  have told: "\<exists>i rq. sv_requests s i = Some (rq, Answered 200 (TicketAccepted (Digest32 (tr_commitment row))))"
    if "row \<in> set (db_join_tickets db)" for row
  proof -
    from that inv(1) obtain i where "accepted_as s i (Digest32 (tr_commitment row))"
      by (auto simp: ledger_inv_def assms(5))
    from accepted_stored [OF inv(1) this] show ?thesis by metis
  qed
  have "c \<noteq> c' \<and> jt_coordination_public_key ticket \<noteq> jt_coordination_public_key ticket'"
    if two: "i \<noteq> j" "sv_requests s i = Some (rq, Answered status (TicketAccepted c))"
      "sv_requests s j = Some (rq', Answered status' (TicketAccepted c'))"
      "we_json w (cc_max_body_bytes config) (rq_body rq) = Ok ticket"
      "we_json w (cc_max_body_bytes config) (rq_body rq') = Ok ticket'"
    for i j rq rq' status status' c c' ticket ticket'
  proof -
    have "c \<noteq> c'" using accepted [OF two(2)] accepted [OF two(3)] two(1) inv(1)
      unfolding ledger_inv_def by blast
    from each [OF two(2)] each [OF two(3)] obtain a b where
      ab: "a \<in> set (db_join_tickets db)" "tr_commitment a = digest_bytes c"
      "tr_coordination_key a = jt_coordination_public_key ticket"
      "b \<in> set (db_join_tickets db)" "tr_commitment b = digest_bytes c'"
      "tr_coordination_key b = jt_coordination_public_key ticket'"
      using two(4,5) by auto
    have rows: "unique_rows ticket_clash (db_join_tickets db)"
      "\<forall>row \<in> set (db_join_tickets db). admitted (we_crypto w) config row"
      using inv(2) reachable_inv by (auto simp: service_inv_def coord_inv_def store_inv_def assms(5))
    have "digest_bytes c \<noteq> digest_bytes c'" using \<open>c \<noteq> c'\<close> by (cases c; cases c') simp
    with ab rows(1) have "a \<noteq> b" "\<not> (ticket_clash a b \<and> ticket_clash b a)"
      using unique_rows_clash [of ticket_clash "db_join_tickets db" a b] by auto
    moreover have "tr_pool_id a = tr_pool_id b" "tr_round_id a = tr_round_id b"
      using bspec [OF rows(2) ab(1)] bspec [OF rows(2) ab(4)] by (auto simp: admitted_def)
    ultimately show ?thesis using \<open>c \<noteq> c'\<close> ab(3,6) by (auto simp: ticket_clash_def)
  qed
  note distinct = this
  have set: "{i. \<exists>rq status c. sv_requests s i = Some (rq, Answered status (TicketAccepted c))}
      = {i. \<exists>c. accepted_as s i c}"
    unfolding accepted_as_def by blast
  show ?thesis
    unfolding set
    by (intro conjI allI ballI impI; (elim conjE)?)
      (rule each [THEN conjunct1] each [THEN conjunct2] distinct [THEN conjunct1]
        distinct [THEN conjunct2] told accepted_count [OF inv, THEN conjunct1]
        accepted_count [OF inv, THEN conjunct2]; assumption)+
qed

theorem admitted_exactly_once_witness:
  "\<exists>s rq. (service_step (sample_web sample_crypto) sample_json)\<^sup>*\<^sup>*
       (start_service (Coordinator_new sample_service (snd (memory_store sample_env)) 0)) s
     \<and> sv_requests s 0 = Some (rq, Answered 200 (TicketAccepted (ticket_digest 9)))
     \<and> (\<exists>slot. JoinTicket_verify sample_crypto (sample_ticket 9) slot sample_binding = Ok ())
     \<and> card {i. \<exists>rq status c. sv_requests s i = Some (rq, Answered status (TicketAccepted c))} \<le> 3
     \<and> (\<forall>row \<in> set (db_join_tickets (co_store (sv_coordinator s))). \<exists>i rq. sv_requests s i =
         Some (rq, Answered 200 (TicketAccepted (Digest32 (tr_commitment row)))))"
proof -
  obtain co where run: "(service_step (sample_web sample_crypto) sample_json)\<^sup>*\<^sup>*
     (start_service (Coordinator_new sample_service (snd (memory_store sample_env)) 0))
     \<lparr>sv_coordinator = co, sv_requests = [0 \<mapsto> (sample_post, Answered 200 (TicketAccepted (ticket_digest 9)))]\<rparr>"
    using sample_submission_served by blast
  let ?s = "\<lparr>sv_coordinator = co,
    sv_requests = [0 \<mapsto> (sample_post, Answered 200 (TicketAccepted (ticket_digest 9)))]\<rparr>"
  note all = admitted_exactly_once [OF sample_open sample_json_ok sample_web_ok run refl]
  have w: "we_crypto (sample_web sample_crypto) = sample_crypto"
    "we_json (sample_web sample_crypto) limit body = (if length body \<le> limit then Ok (sample_ticket 9) else Err 413)"
    "cc_binding sample_service = sample_binding" "unat (cc_maximum_participants sample_service) = 3"
    for limit body
    by (simp_all add: sample_web_def sample_service_def)
  have answered: "sv_requests ?s 0 = Some (sample_post, Answered 200 (TicketAccepted (ticket_digest 9)))"
    by simp
  from all [THEN conjunct1, THEN spec, THEN spec, THEN spec, THEN spec, THEN mp, OF answered]
  have "\<exists>slot. JoinTicket_verify sample_crypto (sample_ticket 9) slot sample_binding = Ok ()"
    unfolding w by (auto split: if_splits)
  moreover have "card {i. \<exists>rq status c. sv_requests ?s i = Some (rq, Answered status (TicketAccepted c))} \<le> 3"
    using all unfolding w(4) by (elim conjE)
  moreover have "\<forall>row \<in> set (db_join_tickets (co_store (sv_coordinator ?s))). \<exists>i rq. sv_requests ?s i =
      Some (rq, Answered 200 (TicketAccepted (Digest32 (tr_commitment row))))"
    using all by (elim conjE)
  ultimately show ?thesis using run answered by blast
qed

end
