(* ===== verification/Spec2Isabelle.thy ===== *)
theory Spec2Isabelle
  imports MP_Local_Run MP_Tasks MP_Command_Runs MP_Admissions
begin

text \<open>
  A verification library for mirror-pool, a Rust workspace that coordinates independent
  Solana users: a pool has a policy, a round of the pool collects signed join tickets, the
  cohort is sealed under a Merkle root, a release window is fixed in advance, and every
  participant executes an action of their own inside the window.

  \<^bold>\<open>The program's parts and how they interact.\<close>
  A participant creates a ticket (\<open>mirror-pool-crypto\<close>, wrapped by \<open>mirror-pool-client\<close> and
  the command line) and posts it to the coordinator (\<open>mirror-pool-coordinator\<close>), which limits
  the rate, reads the current slot, verifies the ticket and inserts it into an SQLite store
  (\<open>mirror-pool-store\<close>). Sealing a round reads the accepted commitments, builds the cohort
  tree (\<open>mirror-pool-merkle\<close>), and stores the root and one proof per ticket. The authority
  publishes the root with an instruction of the on-chain program (\<open>mirror-pool-program\<close>) built
  by the SDK and moves the round through its states. Actions come from templates and pass a
  safety policy (\<open>mirror-pool-actions\<close>) before the SDK sends them. \<open>mirror-pool-core\<close> holds
  the shared types and the off-chain round record. \<open>mirror-pool-simulator\<close> measures synthetic
  cohorts, \<open>mirror-pool-cli\<close> and \<open>xtask\<close> drive everything.

  \<^bold>\<open>Theories and sources\<close> (all sources under \<open>src/\<close>):
  \<^item> \<open>MP_Prelude\<close>: words, \<open>Result\<close> with \<open>and_then\<close> for the operator \<open>?\<close>, bytes, binary search;
  \<^item> \<open>MP_Lifecycle\<close>: the contract of a one-way lifecycle graph, interpreted on \<open>RoundState\<close> and
    on the program's \<open>State\<close>;
  \<^item> \<open>MP_Core\<close> (\<open>crates/mirror-pool-core/src/lib.rs\<close>): digests, \<open>PoolConfig\<close>, \<open>Round\<close> and its
    operations; lemmas: the invariant of a round under every call sequence, failures without
    effect, hashes that bind a configuration;
  \<^item> \<open>MP_Merkle\<close> (\<open>crates/mirror-pool-merkle/src/lib.rs\<close>): tree, proofs, verification;
    lemmas: completeness, soundness for ticket commitments up to explicit collisions, depth,
    order independence, what \<open>verify\<close> accepts beyond leaves (\<open>root_verifies_as_leaf\<close>); the locale \<open>cohort_scheme\<close> is what the store relies on;
  \<^item> \<open>MP_Crypto\<close> (\<open>crates/mirror-pool-crypto/src/lib.rs\<close>): \<open>JoinTicket\<close>;
  \<^item> \<open>MP_Program\<close> (\<open>programs/mirror-pool-program/src/lib.rs\<close>): accounts, the ten instructions,
    \<open>process_instruction\<close>; \<open>MP_Rounds\<close>: the abstract round machine \<open>round_step\<close>, the
    refinement of the handlers to it and the invariants of whole histories, up to a close or to
    the point where the pool account can be read as a round; \<open>MP_Authority\<close>: who
    may act, what creation, opening and closing do, a complete run of a round; \<open>MP_Borsh\<close>: an
    executable runtime for the witnesses;
  \<^item> \<open>MP_Store\<close> (\<open>crates/mirror-pool-store/src/lib.rs\<close>): tables, statements, transactions that
    restore the database, operations, with a failure possible at every statement and the writes
    before it kept unless a transaction takes them back; \<open>MP_Sealing\<close>: the store invariant and what sealing
    guarantees; \<open>MP_Store_Laws\<close>: exact outcomes, well-typed rows, schedules, a concrete
    environment;
  \<^item> \<open>MP_Coordinator\<close> (\<open>crates/mirror-pool-coordinator/src/lib.rs\<close>): rate limit, admission,
    handlers, status codes, interleavings of their atomic steps; \<open>MP_Service\<close>: one participant's
    submission among the steps of others; \<open>MP_Router\<close>: the routes, the body limit, the timeout and
    concurrent requests as a step relation on the stages of their handlers, with the truth of
    every answer; \<open>MP_Admissions\<close>: accepted requests and stored tickets one to one;
  \<^item> \<open>MP_Actions\<close> (\<open>crates/mirror-pool-actions/src/lib.rs\<close>): \<open>SafetyPolicy\<close> and the four
    templates, with the locale \<open>template_driver\<close> for the trait;
  \<^item> \<open>MP_Client\<close> (\<open>crates/mirror-pool-client/src/lib.rs\<close>): wrappers, guarded execution with its
    trace of calls, instruction builders; \<open>MP_Client_Chain\<close> and \<open>MP_Chain_Run\<close>: what the built
    instructions do, up to a pool and a round from nothing to completion;
  \<^item> \<open>MP_Simulator\<close> (\<open>crates/mirror-pool-simulator/src/lib.rs\<close>): \<open>evaluate\<close> and its metrics;
  \<^item> \<open>MP_CLI\<close> and \<open>MP_Evidence\<close> (\<open>crates/mirror-pool-cli/src/main.rs\<close>): the commands as functions
    on files; \<open>MP_Commands\<close>: the subcommands with their defaults and \<open>main\<close>, and what each may
    touch; \<open>MP_Command_Runs\<close>: histories of commands with coordinators restarted on a database;
  \<^item> \<open>MP_Xtask\<close>, \<open>MP_Evidence\<close>, \<open>MP_Demo\<close> (\<open>xtask/src/main.rs\<close>): scenarios, waiting, ports, evidence,
    the demonstration's rounds of the store; \<open>MP_Localnet\<close>: the demonstration against a local
    validator and \<open>full_demo\<close>, with what a reported success implies of the requests that were
    made (\<open>executed\<close>, \<open>demo_done\<close>); \<open>MP_Validator\<close>: a run under \<open>honest_validator\<close>;
    \<open>MP_Local_Run\<close>: this locale interpreted on a world that executes the program model; \<open>MP_Tasks\<close>: \<open>main\<close>.
  This theory composes coordinator, store, SDK and program.

  \<^bold>\<open>Conventions.\<close> A struct is a record whose fields carry a prefix, an enum a datatype, a
  machine integer a word of its width; checked and saturating arithmetic is written out. A
  method that changes its receiver returns it with the result. Every early return is a branch
  (\<open>Err\<close>); a panic (an index out of range, an overflow, which is checked in the development and
  in the release profile, an exhausted address search) is the third value \<open>Panic\<close>. Nothing catches
  it; values in scope are dropped if the build unwinds (the development profile, which
  \<open>cargo xtask\<close> uses) and not if it aborts (the release profile, \<open>src/Cargo.toml\<close>), which the field
  \<open>ln_unwinds\<close> of \<open>localnet\<close> decides in \<open>MP_Localnet\<close>. Definitions keep the
  source's names, with the type's name in front of a method's.

  \<^bold>\<open>Parameters.\<close> What belongs to other packages is an argument: BLAKE3, Ed25519, JSON, hex,
  Borsh, the Solana runtime, the RPC endpoint, SQLite's failures, clocks, random numbers and
  floating-point arithmetic. What a theorem needs of them is a hypothesis with a name:
  \<open>ed25519_correct\<close> (a signature verifies under its key), \<open>runtime_ok\<close> (codecs invert each
  other, accounts are created as documented), \<open>json_ok\<close> and similar round trips, \<open>sdk_matches\<close>
  (SDK and runtime agree on addresses and encodings), \<open>rng_ok\<close> and \<open>f64_index_ok\<close> (draws and
  roundings stay in range), \<open>web_ok\<close> (a request is given to a route of its method and a body is
  decoded within the limit). What runs outside for longer has a state of an arbitrary type and
  is used through a record: \<open>localnet\<close> for other programs, the validator and keypair files,
  \<open>machine\<close> for what a command finds; \<open>idle_world\<close> says which calls can start a validator.
  \<open>honest_validator\<close> describes a favourable run of an idle local machine (a bounded pace of
  slots, confirmed transactions executed by the program, memos that go through); it is no
  documented behaviour and serves the witnesses of the demonstration only. No theorem assumes that the hash is injective: where it matters,
  the statement exhibits the two colliding inputs, or names the values that must differ. Each
  property with hypotheses has a witness with concrete parameters.

  \<^bold>\<open>Bounds.\<close> All recursion is structural or has a measure; there is no fuel. A cohort has at
  most 100000 leaves (\<open>MAX_LEAVES\<close>), levels are built until one node is left, each half as long
  as the one before; a wait polls at most 200 times, as the source does; ports are searched
  over the 338 bases of the source.

  \<^bold>\<open>Not modelled.\<close> Printing and logging, but for the values that are printed; argument parsing
  by \<open>clap\<close> (a command arrives as a value); axum's accept loop and the signals that end it (the
  steps between start and shutdown are a parameter); the HTTP client; serde's derived codecs,
  the redacting \<open>Debug\<close> instances and SQLite itself; the schema's tables that no operation
  touches; the programs that the demonstration starts (cargo, the Solana tools, the
  validator), which are calls of \<open>localnet\<close>; tests.
\<close>

section \<open>From a submitted ticket to the on-chain root\<close>

text \<open>
  C1. The participant's guarantee across the coordinator, the store, the SDK and the on-chain
  program. A ticket is accepted over HTTP by a coordinator started on a fresh store; the
  atomic steps of any other requests happen before and after; the round is sealed for the
  first time and reports a root and a count; the authority publishes these with the
  instruction the SDK builds. Then the count is the number of tickets in the store and at
  least the configured minimum, and, after any further requests, the proof endpoint answers
  the hex form of the commitment with a proof of exactly this commitment, which the SDK's
  check accepts against the root recorded in the round account.
\<close>

theorem participant_end_to_end:
  assumes "memory_store env0 = (Ok (), db0)" "json_ok js"
    and "\<forall>bs. length (cr_blake3 cr bs) = 32"
    and "\<forall>bs. hex_decode (cr_hex_encode cr bs) = Some bs"
    and "\<forall>step \<in> set (earlier @ before @ after). step_json js step"
    and "co = run_steps cr earlier (Coordinator_new config db0 t0)"
    and "http_submit cr env slot_source now restart ticket co = (Ok c, co1)" "se_json env = js"
    and "co2 = run_steps cr before co1"
    and "fetch_root env2 (tb_pool_id (cc_binding config)) (tb_round_id (cc_binding config))
      (co_store co2) = Ok None"
    and "seal_round cr env2 co2 = (Ok (root, n), co3)" "se_json env2 = js"
    and "co4 = run_steps cr after co3" "se_json env4 = js" "se_fault env4 SelectProof = None"
    and "sdk_matches sdk rt" "runtime_ok rt"
    and "hosts rt program_id pool p round r L" "pa_authority p = authority"
    and "pa_backend p = Backend.MerkleCohort" "ra_pool r = pool"
    and "ra_state r = State.Registration" "ra_cohort_root r = zero32"
    and "pa_min_participants p \<le> n" "n \<le> pa_max_participants p" "digest_bytes root \<noteq> zero32"
    and "admin_round_instruction sdk program_id authority pool round
      (PublishCohortRoot (digest_bytes root) n) = Ok ins"
  shows "cc_minimum_participants config \<le> n \<and> unat n = cohort_entries config (co_store co2)
    \<and> (\<exists>prf onchain.
         http_proof hex_decode env4 (to_hex (cr_hex_encode cr) c) co4 = Ok prf
       \<and> cp_leaf_hash prf = c
       \<and> round_at rt program_id (apply_tx rt program_id (slot, in_accounts ins, in_data ins) L) round
           = Some onchain
       \<and> ra_accepted_count onchain = n
       \<and> verify_cohort_proof (cr_blake3 cr) prf (Digest32 (ra_cohort_root onchain))
           (tb_round_id (cc_binding config)) = Ok ())"
proof -
  have steps: "\<forall>step \<in> set earlier. step_json js step" "\<forall>step \<in> set before. step_json js step"
    "\<forall>step \<in> set after. step_json js step"
    using assms(5) by auto
  have inv: "coord_inv cr js config co"
    unfolding assms(6) using coordinator_new_inv [OF assms(1)] steps(1) by (rule run_steps_inv)
  have "hex_decode (to_hex (cr_hex_encode cr) c) = Some (digest_bytes c)"
    using assms(4) by (simp add: to_hex_def)
  from submitted_ticket_proved [where hex_decode = hex_decode, OF inv assms(2,3,7,8,9) steps(2) assms(10,11,12,13) steps(3)
      assms(14,15) this]
  obtain pf where off: "cc_minimum_participants config \<le> n"
    "unat n = cohort_entries config (co_store co2)"
    "http_proof hex_decode env4 (to_hex (cr_hex_encode cr) c) co4 = Ok pf" "cp_leaf_hash pf = c"
    "CohortProof_verify (cr_blake3 cr) pf root (tb_round_id (cc_binding config)) = Ok ()"
    by blast
  have "coord_inv cr js config co2"
    unfolding assms(9) using submit_inv [OF inv assms(8,7)] steps(2) by (rule run_steps_inv)
  from this assms(11,10) have len: "length (digest_bytes root) = 32" by (rule seal_root_length)
  note built = sdk_matches.admin_built [OF assms(16,27)]
  have list: "admin_list (in_accounts ins) p (meta pool False) (meta round False)"
    using assms(19) by (simp add: admin_list_def built(1))
  have "hosts rt program_id (ai_key (meta pool False)) p (ai_key (meta round False)) r L"
    using assms(18) by simp
  from publish_tx [OF assms(17) built(2) this list, of slot] assms(20-26) len
  have "round_at rt program_id (apply_tx rt program_id (slot, in_accounts ins, in_data ins) L) round
    = Some (r\<lparr>ra_cohort_root := digest_bytes root, ra_accepted_count := n,
              ra_state := State.ThresholdReached\<rparr>)"
    by (simp add: hosts_def del: apply_tx.simps)
  then show ?thesis using off by (auto simp: verify_cohort_proof_def simp del: apply_tx.simps)
qed

subsection \<open>A concrete run\<close>

definition sample_first :: Coordinator where
  "sample_first = run_steps sample_crypto [AdmitStep sample_env (sample_ticket 9) 99] sample_coordinator"

lemma sample_first_tables:
  "db_join_tickets (co_store sample_first) = [sample_row 9]"
  "db_cohort_roots (co_store sample_first) = []" "co_config sample_first = sample_service"
  "co_rate sample_first = \<lparr>rs_window_started = 0, rs_accepted = 0\<rparr>"
proof -
  have "co_store sample_coordinator = snd (memory_store sample_env)"
    "co_config sample_coordinator = sample_service"
    "co_rate sample_coordinator = \<lparr>rs_window_started = 0, rs_accepted = 0\<rparr>"
    by (simp_all add: sample_coordinator_def Coordinator_new_def)
  moreover have "cc_binding sample_service = sample_binding" by (simp add: sample_service_def)
  ultimately show "db_join_tickets (co_store sample_first) = [sample_row 9]"
    "db_cohort_roots (co_store sample_first) = []" "co_config sample_first = sample_service"
    "co_rate sample_first = \<lparr>rs_window_started = 0, rs_accepted = 0\<rparr>"
    using memory_store_empty [OF sample_open]
    by (simp_all add: sample_first_def run_steps_def sample_ticket_accepted
        sample_admit [of "snd (memory_store sample_env)" 9])
qed

lemma sample_submission:
  obtains co where "http_submit sample_crypto sample_env (Ok 99) 1 1 (sample_ticket 5) sample_first
      = (Ok (ticket_digest 5), co)"
    "db_join_tickets (co_store co) = [sample_row 9, sample_row 5]"
    "db_cohort_roots (co_store co) = []"
proof -
  have "replicate 32 (9 :: u8) \<noteq> replicate 32 5" by simp
  then have "admit sample_crypto sample_service sample_env (sample_ticket 5) (co_store sample_first)
    = (Ok (ticket_digest 5), (co_store sample_first)
        \<lparr>db_join_tickets := db_join_tickets (co_store sample_first) @ [sample_row 5],
         db_immutable_events := db_immutable_events (co_store sample_first) @ [sample_event 5]\<rparr>)"
    using ticket_digests_differ(1) by (intro sample_admit) (simp_all add: sample_first_tables sample_row_def)
  moreover have "check_rate sample_service 1 1 (co_rate sample_first)
      = (Ok (), \<lparr>rs_window_started = 0, rs_accepted = saturating_add 0 1\<rparr>)"
    by (simp add: check_rate_def sample_first_tables sample_service_def WINDOW_def)
  moreover have "cc_binding sample_service = sample_binding" by (simp add: sample_service_def)
  ultimately show ?thesis using that
    by (simp add: http_submit_def submit_ticket_def sample_first_tables sample_ticket_accepted)
qed

lemma two_leaf_root:
  assumes "MerkleCohort_build blake3 leaves = Ok t" "length leaves = 2" "MerkleCohort_root t = Ok root"
  obtains a b where "root = parent blake3 a b"
proof -
  have "length (sort leaves) = 2" using assms(2) by simp
  then obtain a b where ab: "sort leaves = [a, b]"
    by (auto simp: numeral_2_eq_2 length_Suc_conv simp del: length_sort)
  have t: "t = \<lparr>mc_leaves = sort leaves, mc_levels = tower blake3 (sort leaves)\<rparr>"
    using assms(1) by (simp add: build_Ok_iff)
  have "tower blake3 (sort leaves) = [[a, b], [parent blake3 a b]]"
    unfolding ab by (simp add: tower_step tower_small)
  then have "root = parent blake3 a b"
    using assms(3) unfolding t by (simp add: MerkleCohort_root_def)
  then show ?thesis using that by blast
qed

lemma sample_parent_nonzero: "digest_bytes (parent (cr_blake3 sample_crypto) a b) \<noteq> zero32"
proof -
  have "digest_bytes (parent (cr_blake3 sample_crypto) a b) ! 0 = 109"
    by (simp add: parent_def Digest32_hash_def hash_input_def sample_crypto_def ascii_def)
  moreover have "zero32 ! 0 = 0" by (simp add: zero32_def)
  ultimately show ?thesis by auto
qed

lemma sample_sealing:
  assumes "db_join_tickets (co_store co) = [sample_row 9, sample_row 5]"
    and "db_cohort_roots (co_store co) = []"
    and "coord_inv sample_crypto sample_json sample_service co"
  obtains root co' where "seal_round sample_crypto sample_env co = (Ok (root, 2), co')"
    "digest_bytes root \<noteq> zero32" "length (digest_bytes root) = 32"
    "fetch_root sample_env (tb_pool_id (cc_binding sample_service))
       (tb_round_id (cc_binding sample_service)) (co_store co) = Ok None"
proof -
  have b: "tb_pool_id (cc_binding sample_service) = sample_pool_id"
    "tb_round_id (cc_binding sample_service) = 7" "cc_minimum_participants sample_service = 2"
    by (simp_all add: sample_service_def sample_binding_def sample_pool_id_def)
  have co: "co_config co = sample_service" "reachable_db sample_crypto sample_json (co_store co)"
    using assms(3) by (simp_all add: coord_inv_def)
  have none: "fetch_root sample_env sample_pool_id 7 (co_store co) = Ok None"
    by (simp add: assms(2) fetch_root_def as_i64_def healthy_simps [OF sample_env_healthy] query_row_def)
  have len: "2 = length (filter (ticket_of (digest_bytes sample_pool_id) (uint (7 :: u64)))
      (db_join_tickets (co_store co)))"
    by (simp add: assms(1) ticket_of_def sample_row_def)
  have "\<exists>root db'. seal_cohort (cr_blake3 sample_crypto) sample_env sample_pool_id 7 2 (co_store co)
     = (Ok (root, of_nat 2), db')"
    by (rule seal_total [OF co(2) sample_env_healthy sample_env_json sample_proofs_total
        sample_blake3_length none len]) simp_all
  then obtain root db' where
    sealed: "seal_cohort (cr_blake3 sample_crypto) sample_env sample_pool_id 7 2 (co_store co)
     = (Ok (root, 2), db')" by auto
  have round: "seal_round sample_crypto sample_env co = (Ok (root, 2), co\<lparr>co_store := db'\<rparr>)"
    by (simp add: seal_round_def co(1) b sealed)
  have "unique_rows same_proof_key (db_cohort_proofs (co_store co))"
    using reachable_inv [OF co(2)] by (simp add: store_inv_def)
  from sealed none this have "digest_bytes root \<noteq> zero32 \<and> length (digest_bytes root) = 32"
  proof (rule seal_writes)
    fix leaves tree row new e
    assume ls: "map digest_bytes leaves = sort (map tr_commitment
         (filter (ticket_of (digest_bytes sample_pool_id) (uint (7 :: u64)))
           (db_join_tickets (co_store co))))"
      and tree: "MerkleCohort_build (cr_blake3 sample_crypto) leaves = Ok tree"
        "MerkleCohort_root tree = Ok root" "length (digest_bytes root) = 32"
    have "length (map digest_bytes leaves) = 2" unfolding ls using len by simp
    then have "length leaves = 2" by simp
    with tree show ?thesis using two_leaf_root sample_parent_nonzero by metis
  qed
  then show ?thesis using that [OF round] none b by simp
qed

theorem participant_end_to_end_witness:
  "\<exists>L onchain prf. round_at (borsh_runtime 20) sample_program L (ai_key sample_round_info)
       = Some onchain
     \<and> ra_accepted_count onchain = 2 \<and> cp_leaf_hash prf = ticket_digest 5
     \<and> verify_cohort_proof (cr_blake3 sample_crypto) prf (Digest32 (ra_cohort_root onchain)) 7
         = Ok ()"
proof -
  obtain co where co: "http_submit sample_crypto sample_env (Ok 99) 1 1 (sample_ticket 5) sample_first
      = (Ok (ticket_digest 5), co)"
    "db_join_tickets (co_store co) = [sample_row 9, sample_row 5]"
    "db_cohort_roots (co_store co) = []"
    by (rule sample_submission)
  have steps: "\<forall>step \<in> set ([AdmitStep sample_env (sample_ticket 9) 99] @ [] @ []).
      step_json sample_json step"
    by (simp add: sample_env_json)
  have first: "sample_first = run_steps sample_crypto [AdmitStep sample_env (sample_ticket 9) 99]
      (Coordinator_new sample_service (snd (memory_store sample_env)) 0)"
    by (simp add: sample_first_def sample_coordinator_def)
  have "coord_inv sample_crypto sample_json sample_service sample_first"
    unfolding first by (rule run_steps_inv [OF coordinator_new_inv [OF sample_open]])
      (simp add: sample_env_json)
  from submit_inv [OF this sample_env_json co(1)] obtain root co' where
    sealed: "seal_round sample_crypto sample_env co = (Ok (root, 2), co')"
    "digest_bytes root \<noteq> zero32" "length (digest_bytes root) = 32"
    "fetch_root sample_env (tb_pool_id (cc_binding sample_service))
       (tb_round_id (cc_binding sample_service)) (co_store co) = Ok None"
    by (rule sample_sealing [OF co(2,3)])
  obtain ins where ins: "admin_round_instruction borsh_sdk sample_program (ai_key sample_authority)
      (ai_key sample_pool_info) (ai_key sample_round_info) (PublishCohortRoot (digest_bytes root) 2)
      = Ok ins"
    using sealed(3) by (auto simp: admin_round_instruction_def encode_def borsh_sdk_def len32_def)
  have hex: "\<forall>bs. base16_decode (cr_hex_encode sample_crypto bs) = Some bs"
    by (simp add: sample_crypto_def base16_decode_encode)
  have none: "co = run_steps sample_crypto [] co" "co' = run_steps sample_crypto [] co'"
    by (simp_all add: run_steps_def)
  have pool: "pa_authority sample_pool = ai_key sample_authority"
    "pa_backend sample_pool = Backend.MerkleCohort" "pa_min_participants sample_pool \<le> 2"
    "2 \<le> pa_max_participants sample_pool"
    "ra_pool sample_round_account = ai_key sample_pool_info"
    "ra_state sample_round_account = State.Registration"
    "ra_cohort_root sample_round_account = zero32"
    by (simp_all add: sample_pool_def new_pool_def sample_round_account_def fresh_round_def)
  have round: "tb_round_id (cc_binding sample_service) = 7"
    by (simp add: sample_service_def sample_binding_def)
  from participant_end_to_end [where slot = 20, OF sample_open sample_json_ok sample_blake3_length
      hex steps first co(1) sample_env_json none(1) sealed(4,1) sample_env_json none(2)
      sample_env_json sample_no_faults borsh_sdk.sdk_matches_axioms borsh_runtime_ok sample_hosts
      pool(1,2,5,6,7,3,4) sealed(2) ins, unfolded round]
  show ?thesis by blast
qed

end
